(* ===== verification/Prelude.thy ===== *)
theory Prelude imports Main "HOL-Library.Log_Nat" begin

text \<open>
  Shared vocabulary of the development: the collections of facts the component theories add to
  and the list, option and map lemmas they have in common.
\<close>

named_theorems js_arith \<open>evaluation and order facts of the number model\<close>
named_theorems js_nonneg \<open>sign facts of the number model\<close>
named_theorems js_finite \<open>facts that a value is not NaN or is finite\<close>

section \<open>Powers of two with integer exponents\<close>

abbreviation p2 :: "int \<Rightarrow> rat" where
  "p2 k \<equiv> 2 powi k"

lemma p2_pos [simp]: "0 < p2 k"
  by (rule zero_less_power_int) simp

lemma p2_nz [simp]: "p2 k \<noteq> 0"
  by (rule power_int_not_zero) simp

lemma p2_add: "p2 (a + b) = p2 a * p2 b"
  by (rule power_int_add) simp

lemma p2_diff: "p2 (a - b) = p2 a / p2 b"
  by (rule power_int_diff) simp

lemma p2_mono: "a \<le> b \<Longrightarrow> p2 a \<le> p2 b"
  by (rule power_int_increasing) simp_all

lemma p2_less_iff: "p2 a < p2 b \<longleftrightarrow> a < b"
  using p2_mono [of b a] power_int_strict_increasing [of a b "2::rat"] by fastforce

lemma p2_le_iff: "p2 a \<le> p2 b \<longleftrightarrow> a \<le> b"
  using p2_less_iff [of b a] by auto

lemma p2_int: "0 \<le> k \<Longrightarrow> p2 k = of_int (2 ^ nat k)"
  by (simp add: power_int_def)

lemma p2_neg: "k \<le> 0 \<Longrightarrow> p2 k = 1 / of_int (2 ^ nat (- k))"
  using p2_int [of "- k"] power_int_minus [of "2::rat" "- k"] by (simp add: inverse_eq_divide)

lemma p2_ratio_int: "k \<le> j \<Longrightarrow> p2 j / p2 k = of_int (2 ^ nat (j - k))"
  by (simp flip: p2_diff add: p2_int)

section \<open>Lists\<close>

lemma last_take_nth: "n < length xs \<Longrightarrow> last (take (Suc n) xs) = xs ! n"
  by (simp add: take_Suc_conv_app_nth)

lemma foldl_invariant:
  "P a \<Longrightarrow> (\<And>b x. P b \<Longrightarrow> x \<in> set xs \<Longrightarrow> P (f b x)) \<Longrightarrow> P (foldl f a xs)"
  by (induction xs arbitrary: a) auto

lemma distinct_remdups_filter: "distinct (remdups (filter P xs))"
  by simp

section \<open>Insertion-ordered maps\<close>

text \<open>A JavaScript \<open>Map\<close> as its list of entries: setting a present key keeps its place, a new one goes last.\<close>

fun map_set :: "('k \<times> 'v) list \<Rightarrow> 'k \<Rightarrow> 'v \<Rightarrow> ('k \<times> 'v) list" where
  "map_set [] k v = [(k, v)]"
| "map_set ((k', v') # m) k v = (if k' = k then (k, v) # m else (k', v') # map_set m k v)"

definition map_delete :: "('k \<times> 'v) list \<Rightarrow> 'k \<Rightarrow> ('k \<times> 'v) list" where
  "map_delete m k = filter (\<lambda>(k', _). k' \<noteq> k) m"

definition map_of_entries :: "('k \<times> 'v) list \<Rightarrow> ('k \<times> 'v) list" where
  "map_of_entries es = foldl (\<lambda>m (k, v). map_set m k v) [] es"

lemma map_of_set [simp]: "map_of (map_set m k t) j = (if j = k then Some t else map_of m j)"
  by (induction m k t rule: map_set.induct) auto

lemma map_of_delete [simp]: "map_of (map_delete m k) j = (if j = k then None else map_of m j)"
  unfolding map_delete_def by (induction m) auto

lemma keys_map_set [simp]: "fst ` set (map_set m k v) = insert k (fst ` set m)"
  by (induction m k v rule: map_set.induct) auto

lemma keys_map_delete [simp]: "fst ` set (map_delete m k) = fst ` set m - {k}"
  by (force simp: map_delete_def)

lemma distinct_map_set: "distinct (map fst m) \<Longrightarrow> distinct (map fst (map_set m k v))"
proof (induction m k v rule: map_set.induct)
  case (2 k' v' m k v)
  then show ?case using keys_map_set [of m k v] by auto
qed simp

lemma distinct_map_delete: "distinct (map fst m) \<Longrightarrow> distinct (map fst (map_delete m k))"
  unfolding map_delete_def by (rule distinct_map_filter)

lemma map_set_append: "k \<notin> fst ` set m \<Longrightarrow> map_set m k v = m @ [(k, v)]"
  by (induction m k v rule: map_set.induct) auto

lemma map_of_entries_id: "distinct (map fst es) \<Longrightarrow> map_of_entries es = es"
proof -
  have "distinct (map fst (m @ es)) \<Longrightarrow> foldl (\<lambda>m (k, v). map_set m k v) m es = m @ es" for m
    by (induction es arbitrary: m) (auto simp: map_set_append split: prod.split)
  from this [of "[]"] show "distinct (map fst es) \<Longrightarrow> map_of_entries es = es" by (simp add: map_of_entries_def)
qed

section \<open>Status machines\<close>

text \<open>A component that keeps a status and changes it only along the edges of a relation.\<close>

locale status_machine =
  fixes step :: "'s \<Rightarrow> 'e \<Rightarrow> 's" and status :: "'s \<Rightarrow> 'q" and edges :: "('q \<times> 'q) set"
  assumes step_edge: "status (step s e) = status s \<or> (status s, status (step s e)) \<in> edges"
begin

lemma run_path: "(status s, status (foldl step s es)) \<in> edges\<^sup>*"
proof (induction es arbitrary: s)
  case Nil
  then show ?case by simp
next
  case (Cons e es)
  have "(status s, status (step s e)) \<in> edges\<^sup>*" using step_edge [of s e] by auto
  then show ?case using Cons.IH [of "step s e"] by (auto intro: rtrancl_trans)
qed

lemma terminal_fixed:
  assumes "\<And>q. (status s, q) \<notin> edges"
  shows "status (foldl step s es) = status s"
  using run_path [of s es] assms by (auto elim: converse_rtranclE)

lemma step_terminal: "(\<And>q. (status s, q) \<notin> edges) \<Longrightarrow> status (step s e) = status s"
  using step_edge by blast

lemma invariant_run:
  assumes "\<And>s e. I s \<Longrightarrow> I (step s e)"
  shows "I s \<Longrightarrow> I (foldl step s es)"
  by (induction es arbitrary: s) (use assms in auto)

end

section \<open>One-shot permits\<close>

text \<open>A store of permits: a permit enters by being issued, and spending one needs it and removes it. Then no
  permit is ever spent more often than it was issued.\<close>

locale one_shot =
  fixes step :: "'s \<Rightarrow> 'e \<Rightarrow> 's" and holds :: "'s \<Rightarrow> 'k \<Rightarrow> bool"
    and issues :: "'e \<Rightarrow> 'k \<Rightarrow> bool" and spends :: "'s \<Rightarrow> 'e \<Rightarrow> 'k \<Rightarrow> bool"
  assumes spend_holds: "spends s e k \<Longrightarrow> holds s k"
    and spend_removes: "spends s e k \<Longrightarrow> \<not> holds (step s e) k"
    and holds_from: "holds (step s e) k \<Longrightarrow> holds s k \<or> issues e k"
begin

fun spent :: "'s \<Rightarrow> 'e list \<Rightarrow> 'k \<Rightarrow> nat" where
  "spent s [] k = 0"
| "spent s (e # es) k = (if spends s e k then 1 else 0) + spent (step s e) es k"

lemma spent_le_issued:
  "spent s es k \<le> length (filter (\<lambda>e. issues e k) es) + (if holds s k then 1 else 0)"
proof (induction es arbitrary: s)
  case (Cons e es)
  show ?case using Cons.IH [of "step s e"] spend_holds [of s e k] spend_removes [of s e k] holds_from [of s e k]
    by (cases "spends s e k"; cases "issues e k"; cases "holds (step s e) k"; cases "holds s k"; simp)
qed simp

lemma not_spent_twice:
  assumes "spends s e k" "\<And>x. x \<in> set es \<Longrightarrow> \<not> issues x k"
  shows "spent (step s e) es k = 0"
proof -
  have "filter (\<lambda>x. issues x k) es = []" using assms(2) by (simp add: filter_empty_conv)
  then show ?thesis using spent_le_issued [of "step s e" es k] spend_removes [OF assms(1)] by simp
qed

end

section \<open>Persistent components\<close>

text \<open>A component that writes a snapshot of itself after every step and can be rebuilt from one. Then whenever it
  stops, what it left in the store rebuilds it, as long as the snapshot holds all of it.\<close>

locale persistent =
  fixes step :: "'s \<Rightarrow> 'e \<Rightarrow> 's" and store :: "'s \<Rightarrow> 'd option" and snap :: "'s \<Rightarrow> 'd"
    and reload :: "'d \<Rightarrow> 's" and ok :: "'s \<Rightarrow> bool" and fits :: "'s \<Rightarrow> bool"
  assumes step_ok: "ok s \<Longrightarrow> ok (step s e)"
    and step_stores: "ok s \<Longrightarrow> store s = Some (snap s) \<Longrightarrow> store (step s e) = Some (snap (step s e))"
    and reload_snap: "ok s \<Longrightarrow> store s = Some (snap s) \<Longrightarrow> fits s \<Longrightarrow> reload (snap s) = s"
begin

lemma run_ok: "ok s \<Longrightarrow> ok (foldl step s es)"
  by (induction es arbitrary: s) (simp_all add: step_ok)

lemma run_stores: "ok s \<Longrightarrow> store s = Some (snap s) \<Longrightarrow> store (foldl step s es) = Some (snap (foldl step s es))"
  by (induction es arbitrary: s) (simp_all add: step_stores step_ok)

lemma rebuild:
  assumes "ok s" "store s = Some (snap s)" "fits (foldl step s es)"
  shows "map_option reload (store (foldl step s es)) = Some (foldl step s es)"
  using run_stores [OF assms(1,2), of es] reload_snap [OF run_ok [OF assms(1)] _ assms(3)] by simp

end

end
