(* ===== verification/JsNum.thy ===== *)
theory JsNum imports Prelude begin

text \<open>
  JavaScript numbers: IEEE 754 binary64 values with the special values written out. A finite value
  carries the rational number it denotes; every operation computes the exact rational result and
  rounds it to the nearest double, ties to even, overflowing to an infinity. The two zeros of
  the format are one value here.
\<close>

section \<open>Rounding\<close>

text \<open>The exponent of the binade of a positive rational: \<open>2^e \<le> x < 2^(e+1)\<close>.\<close>

definition expo :: "rat \<Rightarrow> int" where
  "expo x = (if 1 \<le> x then bitlen \<lfloor>x\<rfloor> - 1 else - bitlen (\<lceil>1 / x\<rceil> - 1))"

text \<open>Nearest integer, ties to even.\<close>

definition rne :: "rat \<Rightarrow> int" where
  "rne x = (let f = \<lfloor>x\<rfloor>; d = x - of_int f in if d < 1/2 \<or> (d = 1/2 \<and> even f) then f else f + 1)"

text \<open>The exponent of one unit in the last place: 53 significant bits, none below \<open>2^-1074\<close>.\<close>

definition uexp :: "rat \<Rightarrow> int" where
  "uexp x = max (expo \<bar>x\<bar>) (- 1022) - 52"

definition fl :: "rat \<Rightarrow> rat" where
  "fl x = (if x = 0 then 0 else of_int (rne (x / p2 (uexp x))) * p2 (uexp x))"

datatype jsnum = NaN | PInf | NInf | Fin rat

definition rnd :: "rat \<Rightarrow> jsnum" where
  "rnd x = (let r = fl x in if 2 ^ 1024 \<le> r then PInf else if r \<le> - (2 ^ 1024) then NInf else Fin r)"

subsection \<open>The exponent\<close>

lemma bitlen_bounds_int:
  assumes "0 < n"
  shows "(2::int) ^ nat (bitlen n - 1) \<le> n" and "n < 2 ^ nat (bitlen n)"
  using bitlen_bounds [OF assms] by simp_all

lemma bitlen_pos: "0 < n \<Longrightarrow> 1 \<le> bitlen n"
  using bitlen_bounds [of n] by (metis bitlen_eq_zero_iff bitlen_nonneg int_one_le_iff_zero_less
      order_le_less zero_less_imp_eq_int not_less)

lemma expo_ge1:
  assumes "1 \<le> x"
  shows "p2 (expo x) \<le> x" and "x < p2 (expo x + 1)" and "0 \<le> expo x"
proof -
  let ?f = "\<lfloor>x\<rfloor>"
  have f: "0 < ?f" using assms by simp
  note b = bitlen_bounds_int [OF f]
  have e: "expo x = bitlen ?f - 1" using assms by (simp add: expo_def)
  show e0: "0 \<le> expo x" using bitlen_pos [OF f] e by simp
  have "p2 (expo x) = of_int (2 ^ nat (bitlen ?f - 1))"
    using e e0 by (simp add: p2_int)
  also have "\<dots> \<le> (of_int ?f :: rat)" using b(1) by (simp only: of_int_le_iff)
  also have "\<dots> \<le> x" by simp
  finally show "p2 (expo x) \<le> x" .
  have "x < of_int (?f + 1)" by linarith
  also have "\<dots> \<le> of_int (2 ^ nat (bitlen ?f))" using b(2) by (simp only: of_int_le_iff)
  also have "\<dots> = p2 (expo x + 1)" using e e0 by (simp add: p2_int)
  finally show "x < p2 (expo x + 1)" .
qed

lemma expo_lt1:
  assumes "0 < x" "x < 1"
  shows "p2 (expo x) \<le> x" and "x < p2 (expo x + 1)"
proof -
  let ?c = "\<lceil>1 / x\<rceil> - 1"
  have y: "1 < 1 / x" using assms by simp
  have c: "0 < ?c" using y by (simp add: less_ceiling_iff)
  note b = bitlen_bounds_int [OF c]
  have e: "expo x = - bitlen ?c" using assms by (simp add: expo_def)
  have le: "of_int ?c < 1 / x" and ge: "1 / x \<le> of_int (?c + 1)"
    by linarith+
  have "1 / x \<le> of_int (2 ^ nat (bitlen ?c))"
    using ge b(2) by (meson dual_order.trans of_int_le_iff zless_imp_add1_zle)
  also have "\<dots> = p2 (bitlen ?c)" using bitlen_nonneg by (simp add: p2_int)
  finally have "1 / x \<le> p2 (bitlen ?c)" .
  then have "1 / p2 (bitlen ?c) \<le> x" using assms by (simp add: field_simps)
  then show "p2 (expo x) \<le> x" using e by (simp add: power_int_minus field_simps)
  have "p2 (bitlen ?c - 1) = of_int (2 ^ nat (bitlen ?c - 1))"
    using bitlen_pos [OF c] by (simp add: p2_int)
  also have "\<dots> \<le> of_int ?c" using b(1) by (simp only: of_int_le_iff)
  also have "\<dots> < 1 / x" by (rule le)
  finally have "x < 1 / p2 (bitlen ?c - 1)" using assms by (simp add: field_simps)
  also have "\<dots> = p2 (- (bitlen ?c - 1))" by (simp only: power_int_minus divide_inverse mult_1_left)
  also have "- (bitlen ?c - 1) = expo x + 1" using e by simp
  finally show "x < p2 (expo x + 1)" .
qed

lemma expo_bounds:
  assumes "0 < x"
  shows "p2 (expo x) \<le> x" and "x < p2 (expo x + 1)"
  using expo_ge1 [of x] expo_lt1 [OF assms] by (cases "1 \<le> x"; simp)+

lemma expo_unique:
  assumes "0 < x" "p2 k \<le> x" "x < p2 (k + 1)"
  shows "expo x = k"
proof -
  have "p2 k < p2 (expo x + 1)" "p2 (expo x) < p2 (k + 1)"
    using expo_bounds [OF assms(1)] assms(2,3) by linarith+
  then show ?thesis by (simp only: p2_less_iff)
qed

lemma expo_mono: "0 < x \<Longrightarrow> x \<le> y \<Longrightarrow> expo x \<le> expo y"
proof -
  assume "0 < x" "x \<le> y"
  then have "p2 (expo x) < p2 (expo y + 1)"
    using expo_bounds [of x] expo_bounds [of y] by linarith
  then show ?thesis by (simp only: p2_less_iff)
qed

lemma expo_less: "0 < x \<Longrightarrow> x < p2 k \<Longrightarrow> expo x < k"
  using expo_bounds(1) [of x] p2_less_iff [of "expo x" k] by simp

subsection \<open>Rounding to an integer\<close>

lemma rne_of_int [simp]: "rne (of_int k) = k"
  by (simp add: rne_def)

lemma rne_0 [simp]: "rne 0 = 0"
  using rne_of_int [of 0] by simp

lemma rne_floor: "\<lfloor>x\<rfloor> \<le> rne x" "rne x \<le> \<lfloor>x\<rfloor> + 1"
  by (simp_all add: rne_def Let_def)

lemma rne_ge: "of_int k \<le> x \<Longrightarrow> k \<le> rne x"
  using rne_floor(1) [of x] by (simp add: le_floor_iff [symmetric])

lemma rne_le: "x \<le> of_int k \<Longrightarrow> rne x \<le> k"
proof -
  assume a: "x \<le> of_int k"
  show "rne x \<le> k"
  proof (cases "\<lfloor>x\<rfloor> < k")
    case True
    then show ?thesis by (auto simp: rne_def Let_def)
  next
    case False
    then have "\<lfloor>x\<rfloor> = k" using a by (simp add: floor_eq_iff not_less le_floor_iff)
    moreover from this a have "x = of_int k" by (simp add: floor_eq_iff)
    ultimately show ?thesis by simp
  qed
qed

lemma rne_mono: "x \<le> y \<Longrightarrow> rne x \<le> rne y"
proof -
  assume a: "x \<le> y"
  show ?thesis
  proof (cases "\<lfloor>x\<rfloor> = \<lfloor>y\<rfloor>")
    case True
    then show ?thesis using a by (auto simp: rne_def Let_def)
  next
    case False
    then have "\<lfloor>x\<rfloor> + 1 \<le> \<lfloor>y\<rfloor>" using floor_mono [OF a] by simp
    then show ?thesis using rne_floor(2) [of x] rne_floor(1) [of y] by linarith
  qed
qed

lemma rne_error: "\<bar>of_int (rne x) - x\<bar> \<le> 1 / 2"
proof -
  have "of_int \<lfloor>x\<rfloor> \<le> x" "x < of_int \<lfloor>x\<rfloor> + 1" by linarith+
  then show ?thesis
    unfolding rne_def Let_def abs_le_iff by (simp split: if_splits add: field_simps) linarith
qed

lemma rne_minus: "rne (- x) = - rne x"
proof (cases "x = of_int \<lfloor>x\<rfloor>")
  case True
  then show ?thesis by (metis of_int_minus rne_of_int)
next
  case False
  then have f: "\<lfloor>- x\<rfloor> = - \<lfloor>x\<rfloor> - 1"
    by (metis ceiling_altdef ceiling_def minus_diff_eq minus_diff_commute add.inverse_inverse
        diff_minus_eq_add minus_add_distrib uminus_add_conv_diff)
  have "- x - of_int \<lfloor>- x\<rfloor> = 1 - (x - of_int \<lfloor>x\<rfloor>)" using f by simp
  then show ?thesis unfolding rne_def Let_def f by (auto simp: field_simps)
qed

subsection \<open>Rounding to a double\<close>

lemma fl_0 [simp]: "fl 0 = 0"
  by (simp add: fl_def)

lemma fl_minus [simp]: "fl (- x) = - fl x"
  by (simp add: fl_def uexp_def rne_minus)

lemma fl_nonneg: "0 \<le> x \<Longrightarrow> 0 \<le> fl x"
  using rne_ge [of 0 "x / p2 (uexp x)"] by (simp add: fl_def)

text \<open>
  A number with at most 53 significant bits above the subnormal limit is a double: rounding leaves
  it alone.
\<close>

lemma fl_scaled:
  assumes "uexp x \<le> k" "x = of_int m * p2 k"
  shows "fl x = x"
proof (cases "x = 0")
  case False
  have "x / p2 (uexp x) = of_int m * (p2 k / p2 (uexp x))" using assms(2) by simp
  also have "\<dots> = of_int (m * 2 ^ nat (k - uexp x))"
    using assms(1) by (simp only: p2_ratio_int of_int_mult)
  finally have "rne (x / p2 (uexp x)) = m * 2 ^ nat (k - uexp x)" and
    r: "x / p2 (uexp x) = of_int (m * 2 ^ nat (k - uexp x))" by (simp_all only: rne_of_int)
  then have "of_int (rne (x / p2 (uexp x))) = x / p2 (uexp x)" by (simp only:)
  then show ?thesis using False by (simp add: fl_def)
qed simp

lemma fl_dyadic_less:
  assumes m: "\<bar>m\<bar> < 2 ^ 53" and k: "- 1074 \<le> k"
  shows "fl (of_int m * p2 k) = of_int m * p2 k"
proof (cases "m = 0")
  case False
  let ?x = "of_int m * p2 k"
  have "of_int \<bar>m\<bar> < (of_int (2 ^ 53) :: rat)" using m by (simp only: of_int_less_iff)
  then have "\<bar>?x\<bar> < p2 53 * p2 k" using False
    by (simp add: abs_mult p2_int mult_strict_right_mono del: of_int_abs)
  then have "\<bar>?x\<bar> < p2 (53 + k)" by (simp only: p2_add)
  then have "expo \<bar>?x\<bar> < 53 + k" using False by (intro expo_less) auto
  then have "uexp ?x \<le> k" using k by (simp add: uexp_def)
  then show ?thesis by (rule fl_scaled) simp
qed simp

lemma fl_dyadic:
  assumes m: "\<bar>m\<bar> \<le> 2 ^ 53" and k: "- 1074 \<le> k"
  shows "fl (of_int m * p2 k) = of_int m * p2 k"
proof (cases "\<bar>m\<bar> = 2 ^ 53")
  case True
  then have "m = (sgn m * 2 ^ 52) * 2" by (simp add: sgn_if abs_if split: if_splits)
  then have "(of_int m :: rat) = of_int (sgn m * 2 ^ 52) * 2" by (metis of_int_mult of_int_numeral)
  then have e: "of_int m * p2 k = of_int (sgn m * 2 ^ 52) * p2 (k + 1)"
    by (simp only: p2_add power_int_1_right mult.assoc mult.commute mult.left_commute)
  have "\<bar>sgn m * 2 ^ 52\<bar> < (2 ^ 53 :: int)" by (simp add: abs_mult sgn_if)
  then have "fl (of_int (sgn m * 2 ^ 52) * p2 (k + 1)) = of_int (sgn m * 2 ^ 52) * p2 (k + 1)"
    using k by (intro fl_dyadic_less) auto
  with e show ?thesis by (simp only:)
qed (use m k in \<open>auto intro: fl_dyadic_less\<close>)

lemma fl_p2: "- 1074 \<le> k \<Longrightarrow> fl (p2 k) = p2 k"
  using fl_dyadic [of 1 k] by simp

lemma fl_form:
  assumes "x \<noteq> 0"
  shows "fl x = of_int (rne (x / p2 (uexp x))) * p2 (uexp x)" and "- 1074 \<le> uexp x"
    and "\<bar>rne (x / p2 (uexp x))\<bar> \<le> 2 ^ 53"
proof -
  show "fl x = of_int (rne (x / p2 (uexp x))) * p2 (uexp x)" using assms by (simp add: fl_def)
  show "- 1074 \<le> uexp x" by (simp add: uexp_def)
  let ?u = "uexp x"
  have "\<bar>x\<bar> < p2 (expo \<bar>x\<bar> + 1)" using assms expo_bounds(2) [of "\<bar>x\<bar>"] by simp
  also have "\<dots> \<le> p2 (53 + ?u)" by (rule p2_mono) (simp add: uexp_def)
  finally have "\<bar>x\<bar> < p2 53 * p2 ?u" by (simp only: p2_add)
  then have "\<bar>x / p2 ?u\<bar> < of_int (2 ^ 53)" by (simp add: p2_int divide_less_eq)
  then have "x / p2 ?u < of_int (2 ^ 53)" "- (x / p2 ?u) < of_int (2 ^ 53)"
    by (simp_all only: abs_less_iff minus_less_iff)
  then have "x / p2 ?u \<le> of_int (2 ^ 53)" "of_int (- (2 ^ 53)) \<le> x / p2 ?u"
    by simp_all
  then have "rne (x / p2 ?u) \<le> 2 ^ 53" "- (2 ^ 53) \<le> rne (x / p2 ?u)"
    by (auto intro!: rne_le rne_ge simp only:)
  then show "\<bar>rne (x / p2 ?u)\<bar> \<le> 2 ^ 53"
    by (intro abs_leI) (simp_all only: minus_le_iff)
qed

lemma fl_idem [simp]: "fl (fl x) = fl x"
  using fl_form [of x] fl_dyadic by (cases "x = 0") auto

lemma fl_int: "\<bar>m\<bar> \<le> 2 ^ 53 \<Longrightarrow> fl (of_int m) = of_int m"
  using fl_dyadic [of m 0] by simp

lemma fl_mono_pos:
  assumes "0 < x" "x \<le> y"
  shows "fl x \<le> fl y"
proof (cases "uexp x = uexp y")
  case True
  have "rne (x / p2 (uexp x)) \<le> rne (y / p2 (uexp x))"
    using assms by (intro rne_mono divide_right_mono) (auto simp: less_imp_le)
  then have "of_int (rne (x / p2 (uexp x))) * p2 (uexp x) \<le> (of_int (rne (y / p2 (uexp x))) * p2 (uexp x) :: rat)"
    by (intro mult_right_mono) (simp_all add: less_imp_le)
  then show ?thesis using assms True by (simp add: fl_def)
next
  case False
  let ?e = "expo y"
  have lt: "uexp x < uexp y" and y0: "0 < y"
    using False expo_mono [OF assms] assms by (auto simp: uexp_def)
  then have e: "uexp y = ?e - 52" "expo x < ?e" "- 1022 < ?e"
    using assms by (auto simp: uexp_def)
  have xe: "x \<le> p2 ?e" "p2 ?e \<le> y"
    using expo_bounds [of x] expo_bounds [of y] p2_mono [of "expo x + 1" ?e] assms y0 e by auto
  have "p2 ?e / p2 (uexp x) = of_int (2 ^ nat (?e - uexp x))"
    using lt e by (intro p2_ratio_int) simp
  moreover have "x / p2 (uexp x) \<le> p2 ?e / p2 (uexp x)"
    using xe by (intro divide_right_mono) (simp_all add: less_imp_le)
  ultimately have "rne (x / p2 (uexp x)) \<le> 2 ^ nat (?e - uexp x)" by (intro rne_le) simp
  then have "(of_int (rne (x / p2 (uexp x))) :: rat) \<le> of_int (2 ^ nat (?e - uexp x))"
    by (simp only: of_int_le_iff)
  then have "of_int (rne (x / p2 (uexp x))) \<le> p2 ?e / p2 (uexp x)"
    using \<open>p2 ?e / p2 (uexp x) = _\<close> by simp
  then have fx: "fl x \<le> p2 ?e" using assms by (simp add: fl_def field_simps)
  have "p2 ?e / p2 (uexp y) = of_int (2 ^ nat (?e - uexp y))"
    using e by (intro p2_ratio_int) simp
  moreover have "p2 ?e / p2 (uexp y) \<le> y / p2 (uexp y)"
    using xe by (intro divide_right_mono) (simp_all add: less_imp_le)
  ultimately have "2 ^ nat (?e - uexp y) \<le> rne (y / p2 (uexp y))" by (intro rne_ge) simp
  then have "(of_int (2 ^ nat (?e - uexp y)) :: rat) \<le> of_int (rne (y / p2 (uexp y)))"
    by (simp only: of_int_le_iff)
  then have "p2 ?e / p2 (uexp y) \<le> of_int (rne (y / p2 (uexp y)))"
    using \<open>p2 ?e / p2 (uexp y) = _\<close> by simp
  then have "p2 ?e \<le> fl y" using y0 by (simp add: fl_def field_simps)
  then show ?thesis using fx by linarith
qed

lemma fl_mono: "x \<le> y \<Longrightarrow> fl x \<le> fl y"
proof -
  assume a: "x \<le> y"
  consider "0 < x" | "x \<le> 0" "0 \<le> y" | "y < 0" by linarith
  then show ?thesis
  proof cases
    case 1
    then show ?thesis using a by (rule fl_mono_pos)
  next
    case 2
    then show ?thesis using fl_nonneg [of y] fl_nonneg [of "- x"] by simp
  next
    case 3
    then show ?thesis using fl_mono_pos [of "- y" "- x"] a by simp
  qed
qed

lemma fl_le_iff: "fl y = y \<Longrightarrow> x \<le> y \<Longrightarrow> fl x \<le> y"
  using fl_mono [of x y] by simp

lemma fl_ge_iff: "fl y = y \<Longrightarrow> y \<le> x \<Longrightarrow> y \<le> fl x"
  using fl_mono [of y x] by simp

text \<open>The rounding error: half a unit in the last place.\<close>

lemma fl_error_ulp: "x \<noteq> 0 \<Longrightarrow> \<bar>fl x - x\<bar> \<le> p2 (uexp x) / 2"
proof -
  assume x: "x \<noteq> 0"
  let ?u = "p2 (uexp x)"
  have "fl x - x = (of_int (rne (x / ?u)) - x / ?u) * ?u" using x by (simp add: fl_def field_simps)
  then have "\<bar>fl x - x\<bar> = \<bar>of_int (rne (x / ?u)) - x / ?u\<bar> * ?u" by (simp add: abs_mult)
  also have "\<dots> \<le> 1 / 2 * ?u" by (intro mult_right_mono rne_error) (simp add: less_imp_le)
  finally show ?thesis by simp
qed

lemma fl_error: "\<bar>fl x - x\<bar> \<le> \<bar>x\<bar> * p2 (- 53) + p2 (- 1075)"
proof (cases "x = 0")
  case False
  have e: "p2 (expo \<bar>x\<bar>) \<le> \<bar>x\<bar>" using False expo_bounds(1) [of "\<bar>x\<bar>"] by simp
  have h: "p2 (uexp x) / 2 = p2 (uexp x - 1)" by (simp add: p2_diff)
  show ?thesis
  proof (cases "- 1022 \<le> expo \<bar>x\<bar>")
    case True
    then have "uexp x - 1 = expo \<bar>x\<bar> + (- 53)" by (simp add: uexp_def)
    then have "p2 (uexp x - 1) = p2 (expo \<bar>x\<bar>) * p2 (- 53)" by (simp only: p2_add)
    also have "\<dots> \<le> \<bar>x\<bar> * p2 (- 53)" using e by (intro mult_right_mono) (simp_all add: less_imp_le)
    finally show ?thesis using fl_error_ulp [OF False] h p2_pos [of "- 1075"] by linarith
  next
    case F: False
    then have "p2 (uexp x - 1) = p2 (- 1075)" by (simp add: uexp_def)
    moreover have "0 \<le> \<bar>x\<bar> * p2 (- 53)" by (simp add: less_imp_le)
    ultimately show ?thesis using fl_error_ulp [OF False] h by linarith
  qed
qed simp

section \<open>Values and operators\<close>

text \<open>A double is a special value or a rational that rounding leaves alone, below the overflow threshold.\<close>

fun dbl :: "jsnum \<Rightarrow> bool" where
  "dbl (Fin x) \<longleftrightarrow> fl x = x \<and> \<bar>x\<bar> < 2 ^ 1024"
| "dbl _ \<longleftrightarrow> True"

fun is_fin :: "jsnum \<Rightarrow> bool" where
  "is_fin (Fin x) = True"
| "is_fin _ = False"

text \<open>The rational of a finite value (0 for the others, which the lemmas never ask for).\<close>

fun val :: "jsnum \<Rightarrow> rat" where
  "val (Fin x) = x"
| "val _ = 0"

abbreviation lit :: "rat \<Rightarrow> jsnum" where
  "lit q \<equiv> rnd q"

abbreviation of_idx :: "nat \<Rightarrow> jsnum" where
  "of_idx n \<equiv> rnd (of_nat n)"

abbreviation of_count :: "int \<Rightarrow> jsnum" where
  "of_count n \<equiv> rnd (of_int n)"

instantiation jsnum :: "{zero, one, uminus, plus}"
begin

definition zero_jsnum :: jsnum where
  "zero_jsnum = Fin 0"

definition one_jsnum :: jsnum where
  "one_jsnum = Fin 1"

fun uminus_jsnum :: "jsnum \<Rightarrow> jsnum" where
  "uminus_jsnum NaN = NaN"
| "uminus_jsnum PInf = NInf"
| "uminus_jsnum NInf = PInf"
| "uminus_jsnum (Fin x) = Fin (- x)"

fun plus_jsnum :: "jsnum \<Rightarrow> jsnum \<Rightarrow> jsnum" where
  "plus_jsnum (Fin x) (Fin y) = rnd (x + y)"
| "plus_jsnum NaN b = NaN"
| "plus_jsnum a NaN = NaN"
| "plus_jsnum PInf NInf = NaN"
| "plus_jsnum NInf PInf = NaN"
| "plus_jsnum PInf b = PInf"
| "plus_jsnum NInf b = NInf"
| "plus_jsnum a PInf = PInf"
| "plus_jsnum a NInf = NInf"

instance ..

end

instantiation jsnum :: minus
begin

definition minus_jsnum :: "jsnum \<Rightarrow> jsnum \<Rightarrow> jsnum" where
  "minus_jsnum a b = a + (- b)"

instance ..

end

fun inf_of :: "rat \<Rightarrow> jsnum" where
  "inf_of s = (if 0 < s then PInf else if s < 0 then NInf else NaN)"

fun sgn_of :: "jsnum \<Rightarrow> rat" where
  "sgn_of NaN = 0"
| "sgn_of PInf = 1"
| "sgn_of NInf = - 1"
| "sgn_of (Fin x) = sgn x"

instantiation jsnum :: "{times, inverse, abs, sgn}"
begin

fun times_jsnum :: "jsnum \<Rightarrow> jsnum \<Rightarrow> jsnum" where
  "times_jsnum (Fin x) (Fin y) = rnd (x * y)"
| "times_jsnum NaN b = NaN"
| "times_jsnum a NaN = NaN"
| "times_jsnum a b = inf_of (sgn_of a * sgn_of b)"

fun divide_jsnum :: "jsnum \<Rightarrow> jsnum \<Rightarrow> jsnum" where
  "divide_jsnum (Fin x) (Fin y) = (if y = 0 then inf_of x else rnd (x / y))"
| "divide_jsnum NaN b = NaN"
| "divide_jsnum a NaN = NaN"
| "divide_jsnum (Fin x) b = Fin 0"
| "divide_jsnum PInf (Fin y) = (if y < 0 then NInf else PInf)"
| "divide_jsnum NInf (Fin y) = (if y < 0 then PInf else NInf)"
| "divide_jsnum a b = NaN"

definition inverse_jsnum :: "jsnum \<Rightarrow> jsnum" where
  "inverse_jsnum a = (case a of Fin x \<Rightarrow> if x = 0 then PInf else rnd (1 / x) | NaN \<Rightarrow> NaN | _ \<Rightarrow> Fin 0)"

fun abs_jsnum :: "jsnum \<Rightarrow> jsnum" where
  "abs_jsnum NaN = NaN"
| "abs_jsnum (Fin x) = Fin \<bar>x\<bar>"
| "abs_jsnum _ = PInf"

fun sgn_jsnum :: "jsnum \<Rightarrow> jsnum" where
  "sgn_jsnum NaN = NaN"
| "sgn_jsnum a = Fin (sgn_of a)"

instance ..

end

instantiation jsnum :: ord
begin

fun less_eq_jsnum :: "jsnum \<Rightarrow> jsnum \<Rightarrow> bool" where
  "less_eq_jsnum (Fin x) (Fin y) \<longleftrightarrow> x \<le> y"
| "less_eq_jsnum NaN b \<longleftrightarrow> False"
| "less_eq_jsnum a NaN \<longleftrightarrow> False"
| "less_eq_jsnum NInf b \<longleftrightarrow> True"
| "less_eq_jsnum a PInf \<longleftrightarrow> True"
| "less_eq_jsnum PInf b \<longleftrightarrow> False"
| "less_eq_jsnum a NInf \<longleftrightarrow> False"

definition less_jsnum :: "jsnum \<Rightarrow> jsnum \<Rightarrow> bool" where
  "less_jsnum a b \<longleftrightarrow> a \<le> b \<and> \<not> b \<le> a"

instance ..

end

declare dbl.simps(1) [simp del]

text \<open>Strict equality, truthiness and the functions of \<open>Math\<close> and \<open>Number\<close> the code calls.\<close>

definition js_eq :: "jsnum \<Rightarrow> jsnum \<Rightarrow> bool" where
  "js_eq a b \<longleftrightarrow> a \<noteq> NaN \<and> a = b"

definition num_truthy :: "jsnum \<Rightarrow> bool" where
  "num_truthy a \<longleftrightarrow> a \<noteq> NaN \<and> a \<noteq> Fin 0"

definition js_max :: "jsnum \<Rightarrow> jsnum \<Rightarrow> jsnum" where
  "js_max a b = (if a = NaN \<or> b = NaN then NaN else if a \<le> b then b else a)"

definition js_min :: "jsnum \<Rightarrow> jsnum \<Rightarrow> jsnum" where
  "js_min a b = (if a = NaN \<or> b = NaN then NaN else if a \<le> b then a else b)"

fun js_floor :: "jsnum \<Rightarrow> jsnum" where
  "js_floor (Fin x) = Fin (of_int \<lfloor>x\<rfloor>)"
| "js_floor a = a"

fun js_ceil :: "jsnum \<Rightarrow> jsnum" where
  "js_ceil (Fin x) = Fin (of_int \<lceil>x\<rceil>)"
| "js_ceil a = a"

text \<open>\<open>Math.round\<close>: the nearest integer, halves towards plus infinity.\<close>

fun js_round :: "jsnum \<Rightarrow> jsnum" where
  "js_round (Fin x) = Fin (of_int \<lfloor>x + 1 / 2\<rfloor>)"
| "js_round a = a"

fun is_integer :: "jsnum \<Rightarrow> bool" where
  "is_integer (Fin x) \<longleftrightarrow> of_int \<lfloor>x\<rfloor> = x"
| "is_integer _ \<longleftrightarrow> False"

definition js_sum :: "jsnum list \<Rightarrow> jsnum" where
  "js_sum xs = foldl (+) (Fin 0) xs"

section \<open>Facts\<close>

lemma is_fin_iff: "is_fin a \<longleftrightarrow> (\<exists>x. a = Fin x)"
  by (cases a) auto

lemma not_is_fin [simp]: "\<not> is_fin NaN" "\<not> is_fin PInf" "\<not> is_fin NInf"
  by simp_all

lemma js_le_refl [simp]: "a \<le> a \<longleftrightarrow> a \<noteq> (NaN :: jsnum)"
  by (cases a) auto

lemma js_le_trans: "a \<le> b \<Longrightarrow> b \<le> c \<Longrightarrow> a \<le> (c :: jsnum)"
  by (cases a; cases b; cases c) auto

lemma js_le_total: "a \<noteq> NaN \<Longrightarrow> b \<noteq> NaN \<Longrightarrow> a \<le> b \<or> b \<le> (a :: jsnum)"
  by (cases a; cases b) auto

lemma js_le_antisym: "a \<le> b \<Longrightarrow> b \<le> a \<Longrightarrow> a = (b :: jsnum)"
  by (cases a; cases b) auto

lemma js_le_NaN [simp]: "\<not> a \<le> NaN" "\<not> NaN \<le> a"
  by (cases a; simp)+

lemma js_less_NaN [simp]: "\<not> a < NaN" "\<not> NaN < a"
  by (simp_all add: less_jsnum_def)

lemma js_le_NInf [simp]: "NInf \<le> a \<longleftrightarrow> a \<noteq> NaN" "a \<le> PInf \<longleftrightarrow> a \<noteq> NaN"
  "a \<le> NInf \<longleftrightarrow> a = NInf" "PInf \<le> a \<longleftrightarrow> a = PInf"
  by (cases a; simp)+

lemma js_less_Fin [simp]: "Fin x < Fin y \<longleftrightarrow> x < y"
  by (auto simp: less_jsnum_def)

lemma js_less_Inf [simp]: "Fin x < PInf" "NInf < Fin x" "\<not> PInf < a" "\<not> a < NInf" "NInf < PInf"
  by (simp_all add: less_jsnum_def)

lemma js_not_le: "a \<noteq> NaN \<Longrightarrow> b \<noteq> NaN \<Longrightarrow> \<not> a \<le> b \<longleftrightarrow> b < (a :: jsnum)"
  using js_le_total [of a b] by (auto simp: less_jsnum_def)

lemma js_not_less: "a \<noteq> NaN \<Longrightarrow> b \<noteq> NaN \<Longrightarrow> \<not> a < b \<longleftrightarrow> b \<le> (a :: jsnum)"
  using js_le_total [of a b] by (auto simp: less_jsnum_def)

lemma js_less_imp_le: "a < b \<Longrightarrow> a \<le> (b :: jsnum)"
  by (simp add: less_jsnum_def)

lemma js_le_less_trans: "a \<le> b \<Longrightarrow> b < c \<Longrightarrow> a < (c :: jsnum)"
  by (auto simp: less_jsnum_def intro: js_le_trans dest: js_le_trans)

lemma js_less_le_trans: "a < b \<Longrightarrow> b \<le> c \<Longrightarrow> a < (c :: jsnum)"
  by (auto simp: less_jsnum_def intro: js_le_trans dest: js_le_trans)

lemma js_less_irrefl [simp]: "\<not> a < (a :: jsnum)"
  by (simp add: less_jsnum_def)

lemma js_less_asym: "a < b \<Longrightarrow> \<not> b < (a :: jsnum)"
  by (simp add: less_jsnum_def)

lemma js_le_not_NaN: "a \<le> b \<Longrightarrow> a \<noteq> NaN \<and> b \<noteq> NaN"
  by auto

lemma js_less_not_NaN: "a < b \<Longrightarrow> a \<noteq> NaN \<and> b \<noteq> NaN"
  by auto

subsection \<open>Rounding results\<close>

lemma rnd_not_NaN [simp]: "rnd x \<noteq> NaN" "NaN \<noteq> rnd x"
  by (auto simp: rnd_def Let_def)

lemma rnd_FinD: "rnd x = Fin y \<Longrightarrow> y = fl x \<and> \<bar>y\<bar> < 2 ^ 1024"
  by (auto simp: rnd_def Let_def abs_less_iff split: if_splits)

lemma dbl_rnd [simp]: "dbl (rnd x)"
  by (auto simp: rnd_def Let_def abs_less_iff dbl.simps)

lemma rnd_Fin: "dbl (Fin x) \<Longrightarrow> rnd x = Fin x"
  by (auto simp: rnd_def Let_def abs_less_iff dbl.simps)

lemma rnd_val: "dbl (Fin x) \<longleftrightarrow> rnd x = Fin x"
  using rnd_Fin dbl_rnd by metis

lemma rnd_mono: "x \<le> y \<Longrightarrow> rnd x \<le> rnd y"
  using fl_mono [of x y] by (auto simp: rnd_def Let_def)

lemma rnd_ge: "dbl (Fin y) \<Longrightarrow> y \<le> x \<Longrightarrow> Fin y \<le> rnd x"
  using rnd_mono [of y x] rnd_Fin [of y] by simp

lemma rnd_le: "dbl (Fin y) \<Longrightarrow> x \<le> y \<Longrightarrow> rnd x \<le> Fin y"
  using rnd_mono [of x y] rnd_Fin [of y] by simp

lemma dbl_int: "\<bar>m\<bar> \<le> 2 ^ 53 \<Longrightarrow> dbl (Fin (of_int m))"
proof -
  assume m: "\<bar>m\<bar> \<le> 2 ^ 53"
  then have "\<bar>of_int m :: rat\<bar> \<le> of_int (2 ^ 53)" by (simp only: of_int_abs [symmetric] of_int_le_iff)
  then have "\<bar>of_int m :: rat\<bar> < 2 ^ 1024" by simp
  then show ?thesis using fl_int [OF m] by (simp add: dbl.simps)
qed

lemma dbl_0 [simp]: "dbl (Fin 0)"
  using dbl_int [of 0] by simp

lemma dbl_1 [simp]: "dbl (Fin 1)"
  using dbl_int [of 1] by simp

lemma dbl_numeral: "(numeral k :: int) \<le> 2 ^ 53 \<Longrightarrow> dbl (Fin (numeral k))"
  using dbl_int [of "numeral k"] by simp

lemma rnd_int: "\<bar>m\<bar> \<le> 2 ^ 53 \<Longrightarrow> rnd (of_int m) = Fin (of_int m)"
  by (intro rnd_Fin dbl_int)

lemma rnd_0 [simp]: "rnd 0 = Fin 0"
  by (rule rnd_Fin) simp

lemma rnd_1 [simp]: "rnd 1 = Fin 1"
  by (rule rnd_Fin) simp

lemma dbl_minus [simp]: "dbl (- a) = dbl a"
  by (cases a) (auto simp: dbl.simps)

lemma rnd_minus: "rnd (- x) = - rnd x"
  by (auto simp: rnd_def Let_def not_le)

lemma rnd_numeral [simp]: "(numeral k :: int) \<le> 2 ^ 53 \<Longrightarrow> rnd (numeral k) = Fin (numeral k)"
  using rnd_int [of "numeral k"] by simp

lemma rnd_neg_numeral [simp]:
  "(numeral k :: int) \<le> 2 ^ 53 \<Longrightarrow> rnd (- numeral k) = Fin (- numeral k)"
  by (simp add: rnd_minus)

lemma rnd_neg_1 [simp]: "rnd (- 1) = Fin (- 1)"
  by (simp add: rnd_minus)

text \<open>Comparing a count with an integer bound is exact, however large the count.\<close>

lemma count_ge_iff: "\<bar>m\<bar> < 2 ^ 53 \<Longrightarrow> Fin (of_int m) \<le> of_count n \<longleftrightarrow> m \<le> n"
proof
  assume m: "\<bar>m\<bar> < 2 ^ 53" and le: "Fin (of_int m) \<le> of_count n"
  show "m \<le> n"
  proof (rule ccontr)
    assume "\<not> m \<le> n"
    then have "(of_int n :: rat) \<le> of_int (m - 1)" by (simp only: of_int_le_iff)
    moreover have "dbl (Fin (of_int (m - 1)))" using m by (intro dbl_int) linarith
    ultimately have "of_count n \<le> Fin (of_int (m - 1))" by (intro rnd_le)
    with le have "Fin (of_int m) \<le> Fin (of_int (m - 1))" by (rule js_le_trans)
    then show False by simp
  qed
next
  assume "\<bar>m\<bar> < 2 ^ 53" "m \<le> n"
  then show "Fin (of_int m) \<le> of_count n" by (intro rnd_ge dbl_int) simp_all
qed

lemma rnd_of_nat: "n \<le> 2 ^ 53 \<Longrightarrow> rnd (of_nat n) = Fin (of_nat n)"
  using rnd_int [of "int n"] by simp

lemma dbl_dyadic: "\<bar>m\<bar> \<le> 2 ^ 53 \<Longrightarrow> k \<le> 1074 \<Longrightarrow> dbl (Fin (of_int m / 2 ^ k))"
proof -
  assume m: "\<bar>m\<bar> \<le> 2 ^ 53" and k: "k \<le> 1074"
  have e: "(of_int m / 2 ^ k :: rat) = of_int m * p2 (- int k)"
    by (simp add: power_int_minus divide_inverse)
  have "\<bar>of_int m / 2 ^ k :: rat\<bar> \<le> \<bar>of_int m\<bar>"
    by (simp add: abs_mult divide_le_eq mult_le_cancel_left1)
  also have "\<dots> < 2 ^ 1024" using dbl_int [OF m] by (simp add: dbl.simps)
  finally show ?thesis using fl_dyadic [OF m, of "- int k"] k e by (simp add: dbl.simps)
qed

lemma rnd_dyadic: "\<bar>m\<bar> \<le> 2 ^ 53 \<Longrightarrow> k \<le> 1074 \<Longrightarrow> rnd (of_int m / 2 ^ k) = Fin (of_int m / 2 ^ k)"
  by (intro rnd_Fin dbl_dyadic)

subsection \<open>Finite operands\<close>

lemma js_add_Fin [simp]: "Fin x + Fin y = rnd (x + y)"
  by simp

lemma js_minus_Fin [simp]: "Fin x - Fin y = rnd (x - y)"
  by (simp add: minus_jsnum_def)

lemma js_div_def [simp]: "Fin x / Fin y = (if y = 0 then inf_of x else rnd (x / y))"
  by simp

lemma js_NaN_arith [simp]: "NaN + a = NaN" "a + NaN = NaN" "NaN - a = NaN" "a - NaN = NaN"
  "NaN * a = NaN" "a * NaN = NaN" "NaN / a = NaN" "a / NaN = NaN"
  by (cases a; simp add: minus_jsnum_def)+

lemma js_uminus_uminus [simp]: "- (- a) = (a :: jsnum)"
  by (cases a) auto

lemma js_uminus_eq_NaN [simp]: "- a = NaN \<longleftrightarrow> a = NaN"
  by (cases a) auto

lemma js_minus_anti: "- (a - b) = b - (a :: jsnum)"
  by (cases a; cases b) (auto simp: minus_jsnum_def simp flip: rnd_minus)

lemma js_uminus_le [simp]: "- a \<le> - b \<longleftrightarrow> b \<le> (a :: jsnum)"
  by (cases a; cases b) auto

lemma js_uminus_less [simp]: "- a < - b \<longleftrightarrow> b < (a :: jsnum)"
  by (simp add: less_jsnum_def)

lemma js_zero: "0 = Fin 0"
  by (simp add: zero_jsnum_def)

lemma js_one: "1 = Fin 1"
  by (simp add: one_jsnum_def)

lemma dbl_add [simp]: "dbl a \<Longrightarrow> dbl b \<Longrightarrow> dbl (a + b)"
  by (cases a; cases b) auto

lemma dbl_sub [simp]: "dbl a \<Longrightarrow> dbl b \<Longrightarrow> dbl (a - b)"
  by (simp add: minus_jsnum_def)

lemma dbl_mul [simp]: "dbl a \<Longrightarrow> dbl b \<Longrightarrow> dbl (a * b)"
  by (cases a; cases b) auto

lemma dbl_div [simp]: "dbl a \<Longrightarrow> dbl b \<Longrightarrow> dbl (a / b)"
  by (cases a; cases b) auto

lemma dbl_abs [simp]: "dbl a \<Longrightarrow> dbl \<bar>a\<bar>"
  by (cases a) (auto simp: dbl.simps abs_if split: if_splits)

lemma dbl_max [simp]: "dbl a \<Longrightarrow> dbl b \<Longrightarrow> dbl (js_max a b)"
  by (simp add: js_max_def)

lemma dbl_min [simp]: "dbl a \<Longrightarrow> dbl b \<Longrightarrow> dbl (js_min a b)"
  by (simp add: js_min_def)

lemma dbl_sum: "list_all dbl xs \<Longrightarrow> dbl (js_sum xs)"
  unfolding js_sum_def by (rule foldl_invariant [where P = dbl]) (auto simp: list_all_iff)

subsection \<open>Monotonicity\<close>

lemma js_add_mono:
  "a \<le> b \<Longrightarrow> c \<le> d \<Longrightarrow> a + c \<noteq> NaN \<Longrightarrow> b + d \<noteq> NaN \<Longrightarrow> a + c \<le> b + (d :: jsnum)"
  by (cases a; cases b; cases c; cases d) (auto intro: rnd_mono)

lemma js_sub_mono:
  "a \<le> b \<Longrightarrow> d \<le> c \<Longrightarrow> a - c \<noteq> NaN \<Longrightarrow> b - d \<noteq> NaN \<Longrightarrow> a - c \<le> b - (d :: jsnum)"
  unfolding minus_jsnum_def by (rule js_add_mono) auto

lemma js_mul_mono:
  "Fin 0 \<le> a \<Longrightarrow> a \<le> b \<Longrightarrow> Fin 0 \<le> c \<Longrightarrow> c \<le> d \<Longrightarrow> a * c \<noteq> NaN \<Longrightarrow> b * d \<noteq> NaN \<Longrightarrow>
    a * c \<le> b * (d :: jsnum)"
  by (cases a; cases b; cases c; cases d)
    (auto intro!: rnd_mono mult_mono simp: sgn_if split: if_splits)

lemma js_div_mono:
  "Fin 0 \<le> a \<Longrightarrow> a \<le> b \<Longrightarrow> Fin 0 < d \<Longrightarrow> d \<le> c \<Longrightarrow> a / c \<noteq> NaN \<Longrightarrow> b / d \<noteq> NaN \<Longrightarrow>
    a / c \<le> b / (d :: jsnum)"
  by (cases a; cases b; cases c; cases d)
    (auto intro!: rnd_mono frac_le rnd_ge split: if_splits)

lemma js_div_right_mono:
  "a \<le> b \<Longrightarrow> Fin 0 < c \<Longrightarrow> a / c \<noteq> NaN \<Longrightarrow> b / c \<noteq> NaN \<Longrightarrow> a / c \<le> b / (c :: jsnum)"
  by (cases a; cases b; cases c) (auto intro!: rnd_mono divide_right_mono rnd_ge split: if_splits)

lemma dbl_plus [simp]: "dbl (a + b)"
  by (cases a; cases b) auto

lemma dbl_minus_op [simp]: "dbl (a - b)"
  by (simp add: minus_jsnum_def)

lemma js_mult_1 [simp]: "dbl a \<Longrightarrow> Fin 1 * a = a" "dbl a \<Longrightarrow> a * Fin 1 = a"
  by (cases a; simp add: rnd_val [symmetric])+

lemma js_mult_neg1 [simp]: "dbl a \<Longrightarrow> Fin (- 1) * a = - a"
  by (cases a) (auto simp: rnd_minus rnd_Fin)

subsection \<open>Signs\<close>

lemma js_add_nonneg [js_nonneg]: "Fin 0 \<le> a \<Longrightarrow> Fin 0 \<le> b \<Longrightarrow> Fin 0 \<le> a + (b :: jsnum)"
  by (cases a; cases b) (auto intro: rnd_ge)

lemma js_sub_nonneg [js_nonneg]: "b \<le> a \<Longrightarrow> is_fin a \<Longrightarrow> Fin 0 \<le> a - (b :: jsnum)"
  by (cases a; cases b) (auto simp: minus_jsnum_def intro: rnd_ge)

lemma js_mul_nonneg [js_nonneg]:
  "Fin 0 \<le> a \<Longrightarrow> Fin 0 \<le> b \<Longrightarrow> is_fin a \<Longrightarrow> is_fin b \<Longrightarrow> Fin 0 \<le> a * (b :: jsnum)"
  by (cases a; cases b) (auto intro: rnd_ge)

lemma js_div_nonneg [js_nonneg]:
  "Fin 0 \<le> a \<Longrightarrow> Fin 0 < b \<Longrightarrow> is_fin a \<Longrightarrow> Fin 0 \<le> a / (b :: jsnum)"
  by (cases a; cases b) (auto intro: rnd_ge)

lemma js_abs_nonneg [js_nonneg]: "a \<noteq> NaN \<Longrightarrow> Fin 0 \<le> \<bar>a :: jsnum\<bar>"
  by (cases a) auto

lemma js_max_nonneg [js_nonneg]: "Fin 0 \<le> a \<Longrightarrow> b \<noteq> NaN \<Longrightarrow> Fin 0 \<le> js_max a b"
  by (auto simp: js_max_def intro: js_le_trans)

lemma js_max_ge: "js_max a b \<noteq> NaN \<Longrightarrow> a \<le> js_max a b \<and> b \<le> js_max a b"
  using js_le_total [of a b] by (auto simp: js_max_def)

lemma js_min_le: "js_min a b \<noteq> NaN \<Longrightarrow> js_min a b \<le> a \<and> js_min a b \<le> b"
  using js_le_total [of a b] by (auto simp: js_min_def)

lemma js_max_eq_NaN [simp]: "js_max a b = NaN \<longleftrightarrow> a = NaN \<or> b = NaN"
  by (auto simp: js_max_def)

lemma js_min_eq_NaN [simp]: "js_min a b = NaN \<longleftrightarrow> a = NaN \<or> b = NaN"
  by (auto simp: js_min_def)

lemma js_max_Fin [simp]: "js_max (Fin x) (Fin y) = Fin (max x y)"
  by (auto simp: js_max_def max_def)

lemma js_min_Fin [simp]: "js_min (Fin x) (Fin y) = Fin (min x y)"
  by (auto simp: js_min_def min_def)

lemma js_max_cases: "js_max a b = a \<or> js_max a b = b"
  by (auto simp: js_max_def)

lemma js_min_cases: "js_min a b = a \<or> js_min a b = b"
  by (auto simp: js_min_def)

section \<open>Evaluation\<close>

subsection \<open>Differences of doubles\<close>

lemma fl_grid: "fl x = x \<Longrightarrow> \<exists>m. x = of_int m * p2 (- 1074)"
proof (cases "x = 0")
  case False
  assume x: "fl x = x"
  have "p2 (uexp x) = of_int (2 ^ nat (uexp x + 1074)) * p2 (- 1074)"
    using p2_add [of "uexp x + 1074" "- 1074"] p2_int [of "uexp x + 1074"] fl_form(2) [OF False] by simp
  then have "x = of_int (rne (x / p2 (uexp x)) * 2 ^ nat (uexp x + 1074)) * p2 (- 1074)"
    using fl_form(1) [OF False] x by (metis mult.assoc of_int_mult)
  then show ?thesis by blast
qed (auto intro: exI [of _ 0])

lemma js_diff_pos: "dbl (Fin x) \<Longrightarrow> dbl (Fin y) \<Longrightarrow> y < x \<Longrightarrow> Fin 0 < Fin x - Fin y"
proof -
  assume d: "dbl (Fin x)" "dbl (Fin y)" and less: "y < x"
  obtain m n where mn: "x = of_int m * p2 (- 1074)" "y = of_int n * p2 (- 1074)"
    using d fl_grid by (metis dbl.simps(1))
  have "n < m" using less unfolding mn by (simp add: mult_less_cancel_right)
  then have "(1 :: rat) \<le> of_int (m - n)" by (simp only: of_int_1_le_iff)
  then have "1 * p2 (- 1074) \<le> of_int (m - n) * p2 (- 1074)" by (intro mult_right_mono) (simp_all add: less_imp_le)
  then have "p2 (- 1074) \<le> x - y" unfolding mn by (simp add: algebra_simps)
  then have "p2 (- 1074) \<le> fl (x - y)" using fl_mono [of "p2 (- 1074)" "x - y"] fl_p2 [of "- 1074"] by simp
  then have "0 < fl (x - y)" using p2_pos [of "- 1074"] by linarith
  then show ?thesis by (auto simp: rnd_def Let_def)
qed

section \<open>Integer division\<close>

text \<open>Floor of a double quotient is exact below \<open>2^53\<close>: the rounding never reaches the next integer.\<close>

lemma fl_le_rel: "p2 (- 1022) \<le> x \<Longrightarrow> fl x \<le> x + x * p2 (- 53)"
proof -
  assume x: "p2 (- 1022) \<le> x"
  then have pos: "0 < x" using p2_pos [of "- 1022"] by linarith
  have "\<not> expo x < - 1022" using expo_bounds(2) [OF pos] x p2_mono [of "expo x + 1" "- 1022"] by force
  then have "uexp x - 1 = expo x + (- 53)" using pos by (simp add: uexp_def)
  then have "p2 (uexp x - 1) = p2 (expo x) * p2 (- 53)" by (simp only: p2_add)
  moreover have "p2 (uexp x) / 2 = p2 (uexp x - 1)" by (simp add: p2_diff)
  ultimately have "p2 (uexp x) / 2 = p2 (expo x) * p2 (- 53)" by simp
  also have "\<dots> \<le> x * p2 (- 53)" using expo_bounds(1) [OF pos] by (intro mult_right_mono) (simp_all add: less_imp_le)
  finally have "p2 (uexp x) / 2 \<le> x * p2 (- 53)" .
  moreover have "fl x - x \<le> p2 (uexp x) / 2" using fl_error_ulp [of x] pos by linarith
  ultimately show ?thesis by linarith
qed

lemma js_floor_div:
  assumes "0 \<le> n" "n < 2 ^ 53" "0 < m" "m < 2 ^ 53"
  shows "js_floor (Fin (of_int n) / Fin (of_int m)) = Fin (of_int (n div m))"
proof (cases "n = 0")
  case False
  let ?x = "of_int n / of_int m :: rat" and ?q = "n div m"
  have n: "0 < n" using False assms(1) by simp
  have q: "0 \<le> ?q" "?q < 2 ^ 53" using assms by (simp_all add: pos_imp_zdiv_nonneg_iff) (use zdiv_mono2 [of n 1 m] in simp)
  have dm: "?q * m + n mod m = n" "0 \<le> n mod m" "n mod m < m" using assms(3) by simp_all
  then have "?q * m \<le> n" by linarith
  then have lo: "of_int ?q \<le> ?x" using assms(3) by (simp add: pos_le_divide_eq flip: of_int_mult)
  have "(?q + 1) * m = ?q * m + m" by (simp add: distrib_right)
  then have "n + 1 \<le> (?q + 1) * m" using dm by linarith
  then have "of_int (n + 1) \<le> (of_int ((?q + 1) * m) :: rat)" by (simp only: of_int_le_iff)
  then have up: "?x + 1 / of_int m \<le> of_int (?q + 1)"
    using assms(3) by (simp add: pos_divide_le_eq flip: add_divide_distrib)
  have small: "?x * p2 (- 53) < 1 / of_int m"
  proof -
    have "of_int n < (of_int (2 ^ 53) :: rat)" using assms(2) by (simp only: of_int_less_iff)
    then have "of_int n * p2 (- 53) < 1" by (simp add: power_int_minus field_simps)
    then show ?thesis using assms(3) by (simp add: field_simps)
  qed
  have "p2 (- 53) \<le> ?x"
  proof -
    have "of_int m \<le> (of_int (2 ^ 53) :: rat)" using assms(4) by (simp only: of_int_le_iff less_imp_le)
    moreover have "1 \<le> (of_int n :: rat)" using n by simp
    ultimately have "of_int m * p2 (- 53) \<le> of_int n" by (simp add: power_int_minus field_simps)
    then show ?thesis using assms(3) by (simp add: pos_le_divide_eq mult.commute)
  qed
  then have "p2 (- 1022) \<le> ?x" using p2_mono [of "- 1022" "- 53"] by linarith
  then have "fl ?x \<le> ?x + ?x * p2 (- 53)" by (rule fl_le_rel)
  then have hi: "fl ?x < of_int (?q + 1)" using small up by linarith
  have d: "dbl (Fin (of_int ?q))" "dbl (Fin (of_int (?q + 1)))" using q by (intro dbl_int; linarith)+
  have "of_int ?q \<le> fl ?x" using fl_mono [OF lo] d(1) by (simp add: dbl.simps)
  moreover have "(of_int (?q + 1) :: rat) < 2 ^ 1024"
  proof -
    have "of_int (?q + 1) \<le> (of_int (2 ^ 53) :: rat)" using q by (simp only: of_int_le_iff)
    also have "\<dots> < 2 ^ 1024" by simp
    finally show ?thesis .
  qed
  moreover have "(0 :: rat) \<le> of_int ?q" using q by simp
  ultimately have r: "rnd ?x = Fin (fl ?x)" and f: "\<lfloor>fl ?x\<rfloor> = ?q"
    using hi by (auto simp: rnd_def Let_def intro: floor_unique)
  then show ?thesis using assms(3) by simp
qed (use assms in simp)

text \<open>Rounding computed on the numerator and the denominator, for evaluation in the kernel.\<close>

definition expo_int :: "int \<Rightarrow> int \<Rightarrow> int" where
  "expo_int n d = (let b = bitlen n - bitlen d in
     if 0 \<le> b then (if d * 2 ^ nat b \<le> n then b else b - 1)
     else (if d \<le> n * 2 ^ nat (- b) then b else b - 1))"

definition rne_int :: "int \<Rightarrow> int \<Rightarrow> int" where
  "rne_int n d = (let q = n div d; r = n mod d in if 2 * r < d \<or> (2 * r = d \<and> even q) then q else q + 1)"

definition scale_rne :: "int \<Rightarrow> int \<Rightarrow> int \<Rightarrow> int" where
  "scale_rne n d u = (if 0 \<le> u then rne_int n (d * 2 ^ nat u) else rne_int (n * 2 ^ nat (- u)) d)"

definition rnd_pos :: "int \<Rightarrow> int \<Rightarrow> jsnum" where
  "rnd_pos n d = (let u = max (expo_int n d) (- 1022) - 52; m = scale_rne n d u in
     if u < 0 then Fin (of_int m / of_int (2 ^ nat (- u)))
     else if u < 900 then Fin (of_int (m * 2 ^ nat u))
     else if 2 ^ 1024 \<le> m * 2 ^ nat u then PInf else Fin (of_int (m * 2 ^ nat u)))"

lemma p2_le_of_int:
  "0 \<le> k \<Longrightarrow> p2 k \<le> of_int n \<longleftrightarrow> 2 ^ nat k \<le> n" "0 \<le> k \<Longrightarrow> of_int n < p2 k \<longleftrightarrow> n < 2 ^ nat k"
  by (simp_all only: p2_int of_int_le_iff of_int_less_iff)

lemma expo_int:
  assumes "0 < n" "0 < d"
  shows "expo (of_int n / of_int d) = expo_int n d"
proof -
  let ?x = "of_int n / of_int d :: rat" and ?b = "bitlen n - bitlen d"
  have n: "p2 (bitlen n - 1) \<le> of_int n" "of_int n < p2 (bitlen n)"
    using bitlen_bounds_int [OF assms(1)] bitlen_pos [OF assms(1)] by (simp_all add: p2_le_of_int)
  have d: "p2 (bitlen d - 1) \<le> of_int d" "of_int d < p2 (bitlen d)"
    using bitlen_bounds_int [OF assms(2)] bitlen_pos [OF assms(2)] by (simp_all add: p2_le_of_int)
  have "p2 (?b - 1) * of_int d \<le> p2 (?b - 1) * p2 (bitlen d)"
    using d by (intro mult_left_mono) (simp_all add: less_imp_le)
  also have "\<dots> = p2 (bitlen n - 1)" by (simp flip: p2_add)
  also have "\<dots> \<le> of_int n" by (rule n)
  finally have lo: "p2 (?b - 1) \<le> ?x" using assms by (simp add: pos_le_divide_eq)
  have "of_int n < p2 (bitlen n)" by (rule n)
  also have "\<dots> = p2 (?b + 1) * p2 (bitlen d - 1)" by (simp flip: p2_add)
  also have "\<dots> \<le> p2 (?b + 1) * of_int d"
    using d by (intro mult_left_mono) (simp_all add: less_imp_le)
  finally have hi: "?x < p2 (?b + 1)" using assms by (simp add: pos_divide_less_eq)
  have mid: "p2 ?b \<le> ?x \<longleftrightarrow> (if 0 \<le> ?b then d * 2 ^ nat ?b \<le> n else d \<le> n * 2 ^ nat (- ?b))"
  proof (cases "0 \<le> ?b")
    case True
    then have "p2 ?b \<le> ?x \<longleftrightarrow> of_int (d * 2 ^ nat ?b) \<le> (of_int n :: rat)"
      using assms by (simp add: p2_int pos_le_divide_eq mult.commute)
    then show ?thesis using True by (simp only: of_int_le_iff if_True)
  next
    case False
    then have p: "p2 ?b = 1 / of_int (2 ^ nat (- ?b))" by (intro p2_neg) simp
    have "p2 ?b \<le> ?x \<longleftrightarrow> of_int d \<le> (of_int (n * 2 ^ nat (- ?b)) :: rat)"
      unfolding p using assms by (simp add: field_simps)
    then show ?thesis using False by (simp only: of_int_le_iff if_False)
  qed
  have x: "0 < ?x" using assms by simp
  have e: "expo_int n d = (if p2 ?b \<le> ?x then ?b else ?b - 1)"
    unfolding mid expo_int_def Let_def by simp
  show ?thesis
  proof (cases "p2 ?b \<le> ?x")
    case True
    then have "expo ?x = ?b" using x hi by (intro expo_unique)
    then show ?thesis using True e by simp
  next
    case False
    then have "expo ?x = ?b - 1" using x lo by (intro expo_unique) auto
    then show ?thesis using False e by simp
  qed
qed

lemma rne_int: "0 < d \<Longrightarrow> rne (of_int n / of_int d) = rne_int n d"
proof -
  assume d: "0 < d"
  let ?x = "of_int n / of_int d :: rat"
  have f: "\<lfloor>?x\<rfloor> = n div d" by (rule floor_divide_of_int_eq)
  have "(of_int n :: rat) = of_int (n div d) * of_int d + of_int (n mod d)"
    by (metis div_mult_mod_eq of_int_add of_int_mult)
  then have r: "?x - of_int (n div d) = of_int (n mod d) / of_int d"
    using d by (simp add: field_simps)
  have "of_int (n mod d) / (of_int d :: rat) < 1 / 2 \<longleftrightarrow> of_int (2 * (n mod d)) < (of_int d :: rat)"
    using d by (simp add: field_simps)
  moreover have "of_int (n mod d) / (of_int d :: rat) = 1 / 2 \<longleftrightarrow> of_int (2 * (n mod d)) = (of_int d :: rat)"
    using d by (auto simp: field_simps)
  ultimately show ?thesis
    unfolding rne_def Let_def f r rne_int_def by (simp only: of_int_less_iff of_int_eq_iff)
qed

lemma scale_rne: "0 < d \<Longrightarrow> rne (of_int n / of_int d / p2 u) = scale_rne n d u"
proof (cases "0 \<le> u")
  case True
  assume "0 < d"
  then have "0 < d * 2 ^ nat u" by simp
  then have "rne (of_int n / of_int (d * 2 ^ nat u)) = rne_int n (d * 2 ^ nat u)" by (rule rne_int)
  then show ?thesis using True by (simp add: scale_rne_def p2_int)
next
  case False
  assume "0 < d"
  then have "rne (of_int (n * 2 ^ nat (- u)) / of_int d) = rne_int (n * 2 ^ nat (- u)) d" by (rule rne_int)
  moreover have "1 / p2 u = of_int (2 ^ nat (- u))"
    using False p2_neg [of u] by simp
  moreover have "of_int n / of_int d / p2 u = of_int n * (1 / p2 u) / of_int d" by simp
  ultimately show ?thesis using False by (simp add: scale_rne_def)
qed

lemma rnd_of_fl:
  assumes "fl x = of_int k" "0 \<le> k"
  shows "rnd x = (if 2 ^ 1024 \<le> k then PInf else Fin (of_int k))"
proof -
  have "(2 ^ 1024 :: rat) \<le> of_int k \<longleftrightarrow> of_int (2 ^ 1024) \<le> (of_int k :: rat)" by simp
  then have "(2 ^ 1024 :: rat) \<le> of_int k \<longleftrightarrow> 2 ^ 1024 \<le> k" by (simp only: of_int_le_iff)
  moreover have "\<not> of_int k \<le> - (2 ^ 1024 :: rat)" using assms(2) by (simp add: not_le)
  ultimately show ?thesis unfolding rnd_def Let_def assms(1) by (simp only: if_False)
qed

lemma rnd_pos:
  assumes "0 < n" "0 < d"
  shows "rnd (of_int n / of_int d) = rnd_pos n d"
proof -
  let ?x = "of_int n / of_int d :: rat" and ?u = "max (expo_int n d) (- 1022) - 52"
  let ?m = "scale_rne n d ?u"
  have x: "0 < ?x" using assms by simp
  have u: "uexp ?x = ?u" using x expo_int [OF assms] by (simp only: uexp_def abs_of_pos)
  have f: "fl ?x = of_int ?m * p2 ?u"
    using x scale_rne [OF assms(2), of n ?u] u by (simp only: fl_def less_imp_neq [symmetric] if_False)
  have "of_int 0 \<le> ?x / p2 ?u" using assms by (simp add: less_imp_le)
  then have m0: "0 \<le> ?m" unfolding scale_rne [OF assms(2), of n ?u, symmetric] by (rule rne_ge)
  have m1: "?m \<le> 2 ^ 53" using fl_form(3) [of ?x] assms u scale_rne [OF assms(2), of n ?u] by simp
  consider "?u < 0" | "0 \<le> ?u" "?u < 900" | "900 \<le> ?u" by linarith
  then show ?thesis
  proof cases
    case 1
    have p: "p2 ?u = 1 / of_int (2 ^ nat (- ?u))"
      using 1 by (intro p2_neg) simp
    have "p2 ?u \<le> p2 0" using 1 by (intro p2_mono) simp
    then have "of_int ?m * p2 ?u \<le> of_int ?m * 1" using m0 by (intro mult_left_mono) simp_all
    also have "\<dots> \<le> of_int (2 ^ 53)" using m1 by (simp only: of_int_le_iff mult_1_right)
    finally have "of_int ?m * p2 ?u < 2 ^ 1024" by (rule order.strict_trans1) simp
    moreover have "0 \<le> of_int ?m * p2 ?u" using m0 by (simp add: less_imp_le)
    ultimately have "rnd ?x = Fin (of_int ?m * p2 ?u)" using f by (simp add: rnd_def)
    then show ?thesis using 1 p by (simp add: rnd_pos_def Let_def del: of_int_power)
  next
    case 2
    have "(2::int) ^ nat ?u \<le> 2 ^ 900" using 2 by (intro power_increasing) auto
    then have "?m * 2 ^ nat ?u \<le> 2 ^ 53 * 2 ^ 900" using m0 m1 by (intro mult_mono) auto
    also have "\<dots> < 2 ^ 1024" by simp
    finally have "of_int (?m * 2 ^ nat ?u) < (of_int (2 ^ 1024) :: rat)" by (simp only: of_int_less_iff)
    moreover have "0 \<le> (of_int (?m * 2 ^ nat ?u) :: rat)" using m0 by simp
    moreover have "fl ?x = of_int (?m * 2 ^ nat ?u)" using f 2 by (simp add: p2_int)
    ultimately have "rnd ?x = Fin (of_int (?m * 2 ^ nat ?u))" by (simp add: rnd_def)
    then show ?thesis using 2 by (simp add: rnd_pos_def Let_def)
  next
    case 3
    have g: "fl ?x = of_int (?m * 2 ^ nat ?u)" using f 3 by (simp add: p2_int)
    have "rnd_pos n d = (if 2 ^ 1024 \<le> ?m * 2 ^ nat ?u then PInf else Fin (of_int (?m * 2 ^ nat ?u)))"
    proof -
      have "\<not> ?u < 0" "\<not> ?u < 900" using 3 by linarith+
      then show ?thesis by (simp only: rnd_pos_def Let_def if_False)
    qed
    moreover have "0 \<le> ?m * 2 ^ nat ?u" using m0 by simp
    ultimately show ?thesis using rnd_of_fl [OF g] by simp
  qed
qed

definition fl_pos :: "int \<Rightarrow> int \<Rightarrow> rat" where
  "fl_pos n d = (let u = max (expo_int n d) (- 1022) - 52; m = scale_rne n d u in
     if u < 0 then of_int m / of_int (2 ^ nat (- u)) else of_int (m * 2 ^ nat u))"

lemma fl_pos:
  assumes "0 < n" "0 < d"
  shows "fl (of_int n / of_int d) = fl_pos n d"
proof -
  let ?x = "of_int n / of_int d :: rat" and ?u = "max (expo_int n d) (- 1022) - 52"
  have x: "0 < ?x" using assms by simp
  have u: "uexp ?x = ?u" using x expo_int [OF assms] by (simp only: uexp_def abs_of_pos)
  have f: "fl ?x = of_int (scale_rne n d ?u) * p2 ?u"
    using x scale_rne [OF assms(2), of n ?u] u by (simp only: fl_def less_imp_neq [symmetric] if_False)
  show ?thesis
  proof (cases "?u < 0")
    case True
    then have "p2 ?u = 1 / of_int (2 ^ nat (- ?u))" by (intro p2_neg) simp
    then show ?thesis unfolding f fl_pos_def Let_def using True by (simp only: if_True) simp
  next
    case False
    then have "p2 ?u = of_int (2 ^ nat ?u)" by (intro p2_int) simp
    then show ?thesis unfolding f fl_pos_def Let_def using False by (simp only: if_False of_int_mult)
  qed
qed

lemma fl_code [code]:
  "fl x = (case quotient_of x of (n, d) \<Rightarrow>
     if n = 0 then 0 else if 0 < n then fl_pos n d else - fl_pos (- n) d)"
proof -
  obtain n d where q: "quotient_of x = (n, d)" by force
  then have x: "x = of_int n / of_int d" and d: "0 < d"
    using quotient_of_div quotient_of_denom_pos by blast+
  show ?thesis
    using fl_pos [of n d] fl_pos [of "- n" d] d q x fl_minus [of x]
    by (auto simp: not_less order_le_less)
qed

lemma rnd_code [code]:
  "rnd x = (case quotient_of x of (n, d) \<Rightarrow>
     if n = 0 then Fin 0 else if 0 < n then rnd_pos n d else - rnd_pos (- n) d)"
proof -
  obtain n d where q: "quotient_of x = (n, d)" by force
  then have x: "x = of_int n / of_int d" and d: "0 < d"
    using quotient_of_div quotient_of_denom_pos by blast+
  show ?thesis
    using rnd_pos [of n d] rnd_pos [of "- n" d] d q x rnd_minus [of x]
    by (auto simp: not_less order_le_less) (metis js_uminus_uminus)
qed

end
