(* ===== verification/JsText.thy ===== *)
theory JsText imports JsNum begin

text \<open>
  JavaScript text conversions on strings of single-byte characters: \<open>Number(s)\<close>, \<open>x.toFixed(d)\<close>,
  \<open>String(x)\<close>, trimming and case mapping, and the dynamic values that arrive from JSON with the
  coercions the sources apply to them. The round-trip lemma says that a number printed with
  \<open>toFixed\<close> reads back as the nearest double of its decimal rounding.
\<close>

section \<open>Characters and digits\<close>

definition code :: "char \<Rightarrow> int" where "code c = of_char c"

definition is_digit :: "char \<Rightarrow> bool" where
  "is_digit c = (48 \<le> code c \<and> code c \<le> 57)"

definition digit :: "int \<Rightarrow> char" where "digit n = char_of (48 + n)"

definition is_space :: "char \<Rightarrow> bool" where
  "is_space c = (code c = 32 \<or> (9 \<le> code c \<and> code c \<le> 13) \<or> code c = 160)"

definition js_trim :: "string \<Rightarrow> string" where
  "js_trim s = rev (dropWhile is_space (rev (dropWhile is_space s)))"

definition upper :: "string \<Rightarrow> string" where
  "upper s = List.map (\<lambda>c. if 97 \<le> code c \<and> code c \<le> 122 then char_of (nat (code c - 32)) else c) s"

definition lower :: "string \<Rightarrow> string" where
  "lower s = List.map (\<lambda>c. if 65 \<le> code c \<and> code c \<le> 90 then char_of (nat (code c + 32)) else c) s"

function nat_str :: "int \<Rightarrow> string" where
  "nat_str n = (if n < 10 then [digit n] else nat_str (n div 10) @ [digit (n mod 10)])"
  by auto
termination by (relation "measure nat") auto

declare nat_str.simps [simp del]

definition int_str :: "int \<Rightarrow> string" where
  "int_str k = (if k < 0 then ''-'' @ nat_str (- k) else nat_str k)"

definition digits_val :: "string \<Rightarrow> int" where
  "digits_val s = foldl (\<lambda>a c. 10 * a + (code c - 48)) 0 s"

section \<open>Number\<close>

text \<open>The value of a digit in a radix up to 16, or None.\<close>

definition digit_in :: "int \<Rightarrow> char \<Rightarrow> int option" where
  "digit_in b c = (let k = code c;
     v = (if 48 \<le> k \<and> k \<le> 57 then k - 48 else if 97 \<le> k \<and> k \<le> 102 then k - 87
          else if 65 \<le> k \<and> k \<le> 70 then k - 55 else 99)
   in if v < b then Some v else None)"

fun radix_val :: "int \<Rightarrow> int \<Rightarrow> string \<Rightarrow> int option" where
  "radix_val b a [] = Some a"
| "radix_val b a (c # s) = (case digit_in b c of None \<Rightarrow> None | Some d \<Rightarrow> radix_val b (b * a + d) s)"

definition radix_number :: "int \<Rightarrow> string \<Rightarrow> jsnum" where
  "radix_number b s = (if s = [] then NaN else case radix_val b 0 s of None \<Rightarrow> NaN | Some n \<Rightarrow> rnd (of_int n))"

text \<open>The exponent part \<open>e[+-]digits\<close> of a decimal literal, or the end of the literal.\<close>

definition exponent_part :: "string \<Rightarrow> int option" where
  "exponent_part s = (case s of
     [] \<Rightarrow> Some 0
   | c # r \<Rightarrow>
       if c \<noteq> CHR ''e'' \<and> c \<noteq> CHR ''E'' then None
       else let neg = (r \<noteq> [] \<and> hd r = CHR ''-'');
                ds = (if r \<noteq> [] \<and> (hd r = CHR ''-'' \<or> hd r = CHR ''+'') then tl r else r)
            in if ds = [] \<or> \<not> list_all is_digit ds then None
               else Some (if neg then - digits_val ds else digits_val ds))"

text \<open>An unsigned decimal literal: its exact value, not yet rounded.\<close>

definition decimal :: "string \<Rightarrow> rat option" where
  "decimal s = (let ip = takeWhile is_digit s; r1 = dropWhile is_digit s;
     dot = (r1 \<noteq> [] \<and> hd r1 = CHR ''.'');
     fp = (if dot then takeWhile is_digit (tl r1) else []);
     r2 = (if dot then dropWhile is_digit (tl r1) else r1)
   in if ip = [] \<and> fp = [] then None
      else map_option (\<lambda>e. of_int (digits_val (ip @ fp)) * 10 powi (e - int (length fp))) (exponent_part r2))"

definition unsigned_number :: "string \<Rightarrow> jsnum" where
  "unsigned_number s = (if s = ''Infinity'' then PInf
     else case decimal s of None \<Rightarrow> NaN | Some q \<Rightarrow> rnd q)"

definition js_number :: "string \<Rightarrow> jsnum" where
  "js_number s = (let t = js_trim s; p = lower (take 2 t) in
     if t = [] then 0
     else if p = ''0x'' then radix_number 16 (drop 2 t)
     else if p = ''0o'' then radix_number 8 (drop 2 t)
     else if p = ''0b'' then radix_number 2 (drop 2 t)
     else if hd t = CHR ''-'' then - unsigned_number (tl t)
     else if hd t = CHR ''+'' then unsigned_number (tl t)
     else unsigned_number t)"

section \<open>Printing numbers\<close>

text \<open>\<open>n / 10^d\<close> with exactly \<open>d\<close> decimals.\<close>

definition fixed_str :: "nat \<Rightarrow> int \<Rightarrow> string" where
  "fixed_str d n = (if d = 0 then nat_str n
     else let s = nat_str n; t = replicate (d + 1 - length s) (CHR ''0'') @ s; k = length t - d
          in take k t @ ''.'' @ drop k t)"

text \<open>Shortest digits that read back as \<open>x\<close>: the least \<open>k\<close> with a \<open>k\<close>-digit decimal that rounds to \<open>x\<close>,
  the nearer of the two candidates first.\<close>

definition dec_exp :: "rat \<Rightarrow> int" where
  "dec_exp x = (if 1 \<le> x then int (length (nat_str \<lfloor>x\<rfloor>)) else 1 - int (length (nat_str (\<lceil>1 / x\<rceil> - 1))))"

fun shortest :: "nat \<Rightarrow> nat \<Rightarrow> int \<Rightarrow> rat \<Rightarrow> int \<times> nat" where
  "shortest 0 k n x = (\<lfloor>x * 10 powi (17 - n)\<rfloor>, 17)"
| "shortest (Suc f) k n x = (let u = 10 powi (n - int k); lo = \<lfloor>x / u\<rfloor>; hi = lo + 1;
       (a, b) = (if x / u - of_int lo \<le> 1/2 then (lo, hi) else (hi, lo))
     in if fl (of_int a * u) = x then (a, k) else if fl (of_int b * u) = x then (b, k)
        else shortest f (Suc k) n x)"

definition pos_str :: "rat \<Rightarrow> string" where
  "pos_str x = (let n0 = dec_exp x; (s0, k) = shortest 17 1 n0 x;
       (s, n) = (if s0 = 10 ^ k then (s0 div 10, n0 + 1) else (s0, n0)); ds = nat_str s in
     if int k \<le> n \<and> n \<le> 21 then ds @ replicate (nat n - k) (CHR ''0'')
     else if 0 < n \<and> n \<le> 21 then take (nat n) ds @ ''.'' @ drop (nat n) ds
     else if - 6 < n \<and> n \<le> 0 then ''0.'' @ replicate (nat (- n)) (CHR ''0'') @ ds
     else let e = n - 1; es = (if e < 0 then ''-'' else ''+'') @ nat_str \<bar>e\<bar>
          in take 1 ds @ (if k = 1 then [] else ''.'' @ drop 1 ds) @ ''e'' @ es)"

fun num_str :: "jsnum \<Rightarrow> string" where
  "num_str NaN = ''NaN''"
| "num_str PInf = ''Infinity''"
| "num_str NInf = ''-Infinity''"
| "num_str (Fin x) = (if x = 0 then ''0'' else if x < 0 then ''-'' @ pos_str (- x) else pos_str x)"

definition fixed_int :: "nat \<Rightarrow> rat \<Rightarrow> int" where
  "fixed_int d x = \<lfloor>x * 10 ^ d + 1/2\<rfloor>"

fun to_fixed :: "nat \<Rightarrow> jsnum \<Rightarrow> string" where
  "to_fixed d (Fin x) = (if 10 ^ 21 \<le> \<bar>x\<bar> then num_str (Fin x)
     else (if x < 0 then ''-'' else []) @ fixed_str d (fixed_int d \<bar>x\<bar>))"
| "to_fixed d x = num_str x"

section \<open>Dynamic values\<close>

datatype json = JUndef | JNull | JBool bool | JNum jsnum | JStr string | JArr "json list"
  | JObj "(string \<times> json) list"

fun jget :: "json \<Rightarrow> string \<Rightarrow> json" where
  "jget (JObj kvs) k = (case map_of kvs k of None \<Rightarrow> JUndef | Some v \<Rightarrow> v)"
| "jget _ k = JUndef"

definition nullish :: "json \<Rightarrow> bool" where "nullish v = (v = JUndef \<or> v = JNull)"

fun truthy :: "json \<Rightarrow> bool" where
  "truthy JUndef = False"
| "truthy JNull = False"
| "truthy (JBool b) = b"
| "truthy (JNum n) = num_truthy n"
| "truthy (JStr s) = (s \<noteq> [])"
| "truthy _ = True"

definition join_str :: "string \<Rightarrow> string list \<Rightarrow> string" where
  "join_str sep xs = concat (if xs = [] then [] else hd xs # List.map (\<lambda>x. sep @ x) (tl xs))"

fun json_str :: "json \<Rightarrow> string" where
  "json_str JUndef = ''undefined''"
| "json_str JNull = ''null''"
| "json_str (JBool b) = (if b then ''true'' else ''false'')"
| "json_str (JNum n) = num_str n"
| "json_str (JStr s) = s"
| "json_str (JArr xs) = join_str '','' (List.map (\<lambda>x. if nullish x then [] else json_str x) xs)"
| "json_str (JObj _) = ''[object Object]''"

fun json_num :: "json \<Rightarrow> jsnum" where
  "json_num JUndef = NaN"
| "json_num JNull = 0"
| "json_num (JBool b) = (if b then 1 else 0)"
| "json_num (JNum n) = n"
| "json_num (JStr s) = js_number s"
| "json_num (JArr xs) = js_number (json_str (JArr xs))"
| "json_num (JObj _) = NaN"

section \<open>Facts\<close>

lemma code_digit [simp]: "0 \<le> n \<Longrightarrow> n < 10 \<Longrightarrow> code (digit n) = 48 + n"
  by (simp add: code_def digit_def)

lemma is_digit_digit [simp]: "0 \<le> n \<Longrightarrow> n < 10 \<Longrightarrow> is_digit (digit n)"
  by (simp add: is_digit_def)

lemma is_digit_zero [simp]: "is_digit (CHR ''0'')"
  by (simp add: is_digit_def code_def)

lemma digits_val_Nil [simp]: "digits_val [] = 0"
  by (simp add: digits_val_def)

lemma digits_val_snoc [simp]: "digits_val (s @ [c]) = 10 * digits_val s + (code c - 48)"
  by (simp add: digits_val_def)

lemma digits_val_nat_str [simp]: "0 \<le> n \<Longrightarrow> digits_val (nat_str n) = n"
proof (induction n rule: nat_str.induct)
  case (1 n)
  then show ?case by (cases "n < 10") (simp_all add: nat_str.simps [of n] digits_val_def)
qed

lemma nat_str_inject: "0 \<le> m \<Longrightarrow> 0 \<le> n \<Longrightarrow> nat_str m = nat_str n \<longleftrightarrow> m = n"
  using digits_val_nat_str by metis

lemma nat_str_digits: "0 \<le> n \<Longrightarrow> list_all is_digit (nat_str n)"
proof (induction n rule: nat_str.induct)
  case (1 n)
  then show ?case by (cases "n < 10") (simp_all add: nat_str.simps [of n])
qed

lemma nat_str_nonempty [simp]: "nat_str n \<noteq> []"
  by (subst nat_str.simps) simp

lemma digits_val_zeros [simp]: "digits_val (replicate k (CHR ''0'') @ s) = digits_val s"
  by (induction k) (simp_all add: digits_val_def code_def)

lemma dbl_js_number [simp]: "dbl (js_number s)"
proof -
  have "dbl (unsigned_number t)" for t by (simp add: unsigned_number_def split: option.split)
  moreover have "dbl (radix_number b t)" for b t by (simp add: radix_number_def split: option.split)
  ultimately show ?thesis by (simp add: js_number_def Let_def js_zero)
qed

lemma fixed_str_split:
  assumes "d \<noteq> 0" "0 \<le> n"
  obtains ip fp where "fixed_str d n = ip @ ''.'' @ fp" "ip \<noteq> []" "length fp = d"
    "list_all is_digit ip" "list_all is_digit fp" "digits_val (ip @ fp) = n"
proof -
  let ?t = "replicate (d + 1 - length (nat_str n)) (CHR ''0'') @ nat_str n"
  let ?k = "length ?t - d"
  have all: "list_all is_digit ?t"
    using nat_str_digits [OF assms(2)] by (auto simp: list_all_iff is_digit_zero)
  have len: "d < length ?t" by simp
  show thesis
  proof
    show "fixed_str d n = take ?k ?t @ ''.'' @ drop ?k ?t"
      using assms unfolding fixed_str_def Let_def by (simp only: if_False)
    show "take ?k ?t \<noteq> []" using len by (simp only: take_eq_Nil) auto
    show "length (drop ?k ?t) = d" using len by simp
    show "list_all is_digit (take ?k ?t)" "list_all is_digit (drop ?k ?t)"
      using all by (metis append_take_drop_id list_all_append)+
    show "digits_val (take ?k ?t @ drop ?k ?t) = n" by (simp only: append_take_drop_id) (simp add: assms)
  qed
qed

lemma takeWhile_digits:
  assumes "list_all is_digit ip" "r = [] \<or> \<not> is_digit (hd r)"
  shows "takeWhile is_digit (ip @ r) = ip" "dropWhile is_digit (ip @ r) = r"
  using assms by (induction ip) (auto simp: takeWhile_eq_Nil_iff, (cases r; simp)+)

lemma decimal_fixed: "0 \<le> n \<Longrightarrow> decimal (fixed_str d n) = Some (of_int n / 10 ^ d)"
proof (cases "d = 0")
  case True
  assume n: "0 \<le> n"
  have "takeWhile is_digit (nat_str n) = nat_str n" "dropWhile is_digit (nat_str n) = []"
    using takeWhile_digits [OF nat_str_digits [OF n], of "[]"] by simp_all
  then show ?thesis
    using True n by (simp add: decimal_def fixed_str_def exponent_part_def Let_def
        del: takeWhile_eq_all_conv dropWhile_eq_Nil_conv)
next
  case False
  assume n: "0 \<le> n"
  obtain ip fp where s: "fixed_str d n = ip @ ''.'' @ fp" "ip \<noteq> []" "length fp = d"
    "list_all is_digit ip" "list_all is_digit fp" "digits_val (ip @ fp) = n"
    using fixed_str_split [OF False n] by metis
  have nd: "\<not> is_digit (CHR ''.'')" by (simp add: is_digit_def code_def)
  have w: "takeWhile is_digit fp = fp" "dropWhile is_digit fp = []"
    using takeWhile_digits [OF s(5), of "[]"] by simp_all
  show ?thesis
    using takeWhile_digits [OF s(4), of "''.'' @ fp"] nd s(2,3,6) unfolding s(1)
    by (simp add: decimal_def exponent_part_def power_int_minus divide_inverse w Let_def
        del: takeWhile_eq_all_conv dropWhile_eq_Nil_conv)
qed

lemma decimal_not_prefix:
  assumes "decimal s = Some q"
  shows "s \<noteq> ''Infinity''" "s \<noteq> []"
  using assms by (auto simp: decimal_def is_digit_def code_def Let_def)

lemma fixed_str_chars: "0 \<le> n \<Longrightarrow> list_all (\<lambda>c. is_digit c \<or> c = CHR ''.'') (fixed_str d n)"
proof (cases "d = 0")
  case True
  assume "0 \<le> n"
  then show ?thesis using True nat_str_digits [of n] by (simp add: fixed_str_def list_all_iff)
next
  case False
  assume "0 \<le> n"
  then show ?thesis by (rule fixed_str_split [OF False]) (auto simp: list_all_iff)
qed

lemma js_trim_id: "list_all (\<lambda>c. \<not> is_space c) s \<Longrightarrow> js_trim s = s"
proof -
  have d: "list_all (\<lambda>c. \<not> is_space c) t \<Longrightarrow> dropWhile is_space t = t" for t
    by (cases t) simp_all
  assume "list_all (\<lambda>c. \<not> is_space c) s"
  then show ?thesis by (simp add: js_trim_def d list_all_iff)
qed

lemma number_of_chars:
  assumes c: "list_all (\<lambda>c. is_digit c \<or> c = CHR ''.'') s" and q: "decimal s = Some q"
  shows "js_number s = rnd q" "js_number (''-'' @ s) = - rnd q"
proof -
  have sp: "list_all (\<lambda>c. \<not> is_space c) s" "\<not> is_space (CHR ''-'')"
    using c by (auto simp: list_all_iff is_digit_def is_space_def code_def)
  have ne: "s \<noteq> []" "s \<noteq> ''Infinity''" using decimal_not_prefix [OF q] by auto
  have u: "unsigned_number s = rnd q" using q ne by (simp add: unsigned_number_def)
  obtain a t where s: "s = a # t" using ne by (cases s) auto
  have a: "is_digit a \<or> a = CHR ''.''" using c s by simp
  have nx: "lower (take 2 s) \<noteq> CHR ''0'' # [z]" if "z \<in> {CHR ''x'', CHR ''o'', CHR ''b''}" for z
  proof (cases t)
    case Nil
    then show ?thesis using s by (simp add: lower_def)
  next
    case (Cons b r)
    then have b: "is_digit b \<or> b = CHR ''.''" using c s by simp
    then have "lower [b] = [b]" by (auto simp: lower_def is_digit_def code_def)
    then have "(if 65 \<le> code b \<and> code b \<le> 90 then char_of (nat (code b + 32)) else b) = b"
      by (simp add: lower_def)
    then show ?thesis using s Cons that b by (auto simp: lower_def is_digit_def code_def)
  qed
  have sign: "a \<noteq> CHR ''-''" "a \<noteq> CHR ''+''" using a by (auto simp: is_digit_def code_def)
  have nx3: "lower (take 2 s) \<noteq> ''0x''" "lower (take 2 s) \<noteq> ''0o''" "lower (take 2 s) \<noteq> ''0b''"
    by (intro nx, simp)+
  have hd: "hd s \<noteq> CHR ''-''" "hd s \<noteq> CHR ''+''" using sign s by simp_all
  show "js_number s = rnd q"
    unfolding js_number_def js_trim_id [OF sp(1)] Let_def using nx3 hd ne u by (simp only: if_False)
  show "js_number (''-'' @ s) = - rnd q"
    using u s sp by (simp add: js_number_def js_trim_id Let_def lower_def code_def)
qed

lemma number_fixed_str: "0 \<le> n \<Longrightarrow> js_number (fixed_str d n) = rnd (of_int n / 10 ^ d)"
  by (rule number_of_chars(1) [OF fixed_str_chars decimal_fixed])

lemma number_nat_str: "0 \<le> n \<Longrightarrow> js_number (nat_str n) = rnd (of_int n)"
  using number_fixed_str [of n 0] by (simp add: fixed_str_def)

text \<open>Printing with \<open>toFixed\<close> and reading back is rounding to the decimal grid and then to a double.\<close>

theorem number_to_fixed:
  assumes "\<bar>x\<bar> < 10 ^ 21"
  shows "js_number (to_fixed d (Fin x)) = rnd (sgn x * of_int (fixed_int d \<bar>x\<bar>) / 10 ^ d)"
proof -
  have n: "0 \<le> fixed_int d \<bar>x\<bar>" by (simp add: fixed_int_def)
  let ?q = "of_int (fixed_int d \<bar>x\<bar>) / 10 ^ d :: rat"
  have f: "list_all (\<lambda>c. is_digit c \<or> c = CHR ''.'') (fixed_str d (fixed_int d \<bar>x\<bar>))"
    "decimal (fixed_str d (fixed_int d \<bar>x\<bar>)) = Some ?q"
    using n by (simp_all add: fixed_str_chars decimal_fixed)
  show ?thesis
  proof (cases "x < 0")
    case True
    then have "to_fixed d (Fin x) = ''-'' @ fixed_str d (fixed_int d \<bar>x\<bar>)" using assms by simp
    then have "js_number (to_fixed d (Fin x)) = - rnd ?q" by (simp only: number_of_chars(2) [OF f])
    then show ?thesis using True by (simp add: rnd_minus)
  next
    case False
    then have "to_fixed d (Fin x) = fixed_str d (fixed_int d \<bar>x\<bar>)" using assms by simp
    then have r: "js_number (to_fixed d (Fin x)) = rnd ?q" by (simp only: number_of_chars(1) [OF f])
    show ?thesis
    proof (cases "x = 0")
      case True
      moreover have "fixed_int d 0 = 0" unfolding fixed_int_def by (intro floor_unique) simp_all
      ultimately show ?thesis using r by simp
    next
      case False
      then show ?thesis using r \<open>\<not> x < 0\<close> by simp
    qed
  qed
qed

section \<open>Printing integers\<close>

lemma nat_str_bounds:
  "0 \<le> m \<Longrightarrow> m < 10 ^ length (nat_str m) \<and> (0 < m \<longrightarrow> 10 ^ (length (nat_str m) - 1) \<le> m)"
proof (induction m rule: nat_str.induct)
  case (1 m)
  show ?case
  proof (cases "m < 10")
    case False
    then have IH: "m div 10 < 10 ^ length (nat_str (m div 10))" "10 ^ (length (nat_str (m div 10)) - 1) \<le> m div 10"
      using 1 by simp_all
    have l: "length (nat_str m) = Suc (length (nat_str (m div 10)))" using False by (simp add: nat_str.simps [of m])
    obtain j where j: "length (nat_str (m div 10)) = Suc j" using nat_str_nonempty by (metis length_0_conv not0_implies_Suc)
    show ?thesis using IH unfolding l j by (auto simp: power_Suc)
  qed (use 1 in \<open>simp add: nat_str.simps [of m]\<close>)
qed

lemma nat_str_zeros: "0 < a \<Longrightarrow> nat_str (a * 10 ^ e) = nat_str a @ replicate e (CHR ''0'')"
proof (induction e)
  case (Suc e)
  have "digit 0 = CHR ''0''" by code_simp
  moreover have "10 \<le> a * 10 ^ Suc e" using Suc.prems mult_mono [of 1 a 10 "10 ^ Suc e"] by simp
  ultimately show ?case using Suc
    by (subst nat_str.simps) (simp add: replicate_append_same)
qed simp

lemma fl_eq_int: "\<bar>m\<bar> < 2 ^ 53 \<Longrightarrow> fl (of_int k) = of_int m \<Longrightarrow> k = m"
proof (rule ccontr)
  assume m: "\<bar>m\<bar> < 2 ^ 53" "fl (of_int k) = of_int m" and ne: "k \<noteq> m"
  have "\<bar>k\<bar> > 2 ^ 53" using fl_int [of k] m(2) ne by (metis not_le of_int_eq_iff)
  then consider "2 ^ 53 \<le> k" | "k \<le> - (2 ^ 53)" by linarith
  then show False
  proof cases
    case 1
    then have "fl (of_int (2 ^ 53)) \<le> fl (of_int k)" by (intro fl_mono) (simp only: of_int_le_iff)
    then show False using m fl_int [of "2 ^ 53"] by simp
  next
    case 2
    then have "fl (of_int k) \<le> fl (of_int (- (2 ^ 53)))" by (intro fl_mono) (simp only: of_int_le_iff)
    then show False using m fl_int [of "- (2 ^ 53)"] by simp
  qed
qed

lemma shortest_int:
  assumes "0 < m" "m < 2 ^ 53"
  shows "k \<le> n \<Longrightarrow> n - k < f \<Longrightarrow> shortest f k (int n) (of_int m) = (a, j) \<Longrightarrow> a * 10 ^ (n - j) = m \<and> j \<le> n"
proof (induction f arbitrary: k)
  case (Suc f)
  let ?u = "10 powi (int n - int k) :: rat" and ?U = "10 ^ (n - k) :: int"
  have u: "?u = of_int ?U" using Suc.prems(1) by (simp add: power_int_def nat_diff_distrib' flip: of_nat_diff)
  have hit: "fl (of_int c * ?u) = of_int m \<Longrightarrow> c * 10 ^ (n - k) = m" for c
    using fl_eq_int [of m "c * ?U"] assms unfolding u by simp
  have last: "k = n \<Longrightarrow> \<lfloor>of_int m / ?u\<rfloor> = m \<and> of_int m / ?u - of_int \<lfloor>of_int m / ?u\<rfloor> \<le> 1 / 2 \<and> fl (of_int m * ?u) = of_int m"
    using fl_int [of m] assms by simp
  show ?case
  proof (cases "k = n")
    case True
    then show ?thesis using last [OF True] Suc.prems by (auto simp: Let_def)
  next
    case False
    then show ?thesis using Suc.prems Suc.IH [of "Suc k"] hit
      by (auto simp: Let_def split: if_splits)
  qed
qed simp

lemma pos_str_int:
  assumes "0 < m" "m < 2 ^ 53"
  shows "pos_str (of_int m) = nat_str m"
proof -
  let ?n = "length (nat_str m)"
  have n: "dec_exp (of_int m) = int ?n" using assms(1) by (simp add: dec_exp_def)
  have b: "m < 10 ^ ?n" "10 ^ (?n - 1) \<le> m" using nat_str_bounds [of m] assms(1) by simp_all
  have n1: "1 \<le> ?n" by (simp add: Suc_le_eq)
  have "\<not> 17 \<le> ?n"
  proof
    assume "17 \<le> ?n"
    then have "(10 :: int) ^ 16 \<le> 10 ^ (?n - 1)" by (intro power_increasing) simp_all
    then show False using b assms(2) by simp
  qed
  then have n17: "?n - 1 < 17" "?n \<le> 16" by simp_all
  obtain a j where s: "shortest 17 1 (int ?n) (of_int m) = (a, j)" by force
  have a: "a * 10 ^ (?n - j) = m" "j \<le> ?n" using shortest_int [OF assms n1 n17(1) s] by simp_all
  have pos: "0 < a" using a(1) assms(1) by (metis zero_less_mult_pos2 zero_less_power zero_less_numeral)
  have "a \<noteq> 10 ^ j"
  proof
    assume "a = 10 ^ j"
    then have "m = 10 ^ ?n" using a by (simp flip: power_add)
    then show False using b by simp
  qed
  then have "pos_str (of_int m) = nat_str a @ replicate (?n - j) (CHR ''0'')"
    using a(2) n17(2) unfolding pos_str_def n s Let_def by simp
  then show ?thesis using nat_str_zeros [OF pos, of "?n - j"] a(1) by simp
qed

lemma num_str_int: "\<bar>m\<bar> < 2 ^ 53 \<Longrightarrow> num_str (Fin (of_int m)) = int_str m"
proof -
  assume m: "\<bar>m\<bar> < 2 ^ 53"
  have "nat_str 0 = ''0''" by code_simp
  moreover have "m < 0 \<Longrightarrow> pos_str (- of_int m) = nat_str (- m)" using pos_str_int [of "- m"] m by simp
  ultimately show ?thesis using m pos_str_int [of m] by (auto simp: int_str_def)
qed

end
