(* ===== verification/DemoTypes.thy ===== *)
theory DemoTypes imports JsText begin

text \<open>
  The domain types of the demo runtime (\<open>packages/gateway/src/demo/types.ts\<close>). Amounts are decimal
  strings and timestamps unix milliseconds, as the source says; \<open>null\<close> and absent fields are None.
  Human-readable texts in Chinese are values of message types that name the text and carry what is
  interpolated into it.
\<close>

section \<open>Enumerations\<close>

datatype action = NO_TRADE | WATCH | PROPOSE | HOLD | ADD | REDUCE | EXIT | INVALIDATE

datatype direction = Long | Short

datatype backend = PaperB | DemoB | CliB | AgentMcpB

datatype strategy_state = Researching | Watching | Ready | Active | Managing | Closing | SClosed | SInvalidated

datatype thread_status = Pending_entry | In_position | Closed | Canceled | Invalidated

datatype thread_source = SrcAgent | SrcManual | SrcChat

datatype trigger_kind = Kline_close | Manual | Schedule | Monitor | Position_review | Scan_event | Info_update
  | Order_filled | Tp_hit | Sl_hit | Thread_review | Chat_event | Fast_move | Breakout | Ema_cross | Vol_spike
  | Retest | Session_event | Funding_event | Heartbeat

datatype entry_kind = Market | Limit

datatype margin_mode = Cross | Isolated

datatype brain_kind = Pi | Claude | Codex | Stub

datatype agent_cli_kind = ClaudeCli | CodexCli

datatype scan_mode = Triggered | Every_close

datatype screener_universe = Watchlist_whitelist | Top_volume | Explicit

datatype screener_apply = Propose_apply | Auto_apply

definition ACTIONS :: "action list" where
  "ACTIONS = [NO_TRADE, WATCH, PROPOSE, HOLD, ADD, REDUCE, EXIT, INVALIDATE]"

fun action_str :: "action \<Rightarrow> string" where
  "action_str NO_TRADE = ''NO_TRADE''"
| "action_str WATCH = ''WATCH''"
| "action_str PROPOSE = ''PROPOSE''"
| "action_str HOLD = ''HOLD''"
| "action_str ADD = ''ADD''"
| "action_str REDUCE = ''REDUCE''"
| "action_str EXIT = ''EXIT''"
| "action_str INVALIDATE = ''INVALIDATE''"

fun trigger_str :: "trigger_kind \<Rightarrow> string" where
  "trigger_str Kline_close = ''kline_close''"
| "trigger_str Manual = ''manual''"
| "trigger_str Schedule = ''schedule''"
| "trigger_str Monitor = ''monitor''"
| "trigger_str Position_review = ''position_review''"
| "trigger_str Scan_event = ''scan''"
| "trigger_str Info_update = ''info_update''"
| "trigger_str Order_filled = ''order_filled''"
| "trigger_str Tp_hit = ''tp_hit''"
| "trigger_str Sl_hit = ''sl_hit''"
| "trigger_str Thread_review = ''thread_review''"
| "trigger_str Chat_event = ''chat''"
| "trigger_str Fast_move = ''fast_move''"
| "trigger_str Breakout = ''breakout''"
| "trigger_str Ema_cross = ''ema_cross''"
| "trigger_str Vol_spike = ''vol_spike''"
| "trigger_str Retest = ''retest''"
| "trigger_str Session_event = ''session''"
| "trigger_str Funding_event = ''funding''"
| "trigger_str Heartbeat = ''heartbeat''"

lemma ACTIONS_complete: "a \<in> set ACTIONS" "distinct ACTIONS"
  by (cases a) (simp_all add: ACTIONS_def)

section \<open>Records\<close>

record trigger =
  tg_kind :: trigger_kind
  tg_detail :: string

record evidence =
  ev_ref :: string
  ev_kind :: string
  ev_label :: string
  ev_value :: string
  ev_observed_at :: int
  ev_source :: string
  ev_stale :: bool

record proposal =
  p_direction :: direction
  p_entry :: entry_kind
  p_limit_price :: "string option"
  p_entry_zone :: "(string \<times> string) option"
  p_stop_price :: string
  p_take_profit_price :: "string option"
  p_take_profits :: "string list"
  p_rationale :: string

record judgement =
  j_action :: action
  j_direction :: "direction option"
  j_confidence :: jsnum
  j_headline :: string
  j_thesis :: string
  j_reasons :: "string list"
  j_evidence_refs :: "string list"
  j_invalidation :: "string option"
  j_invalidation_price :: "string option"
  j_target_price :: "string option"
  j_watch_conditions :: "string list"
  j_proposal :: "proposal option"
  j_strategy_id :: "string option"

record thread_entry =
  en_type :: entry_kind
  en_price :: "string option"
  en_zone :: "(string \<times> string) option"

record position_view =
  pv_symbol :: string
  pv_side :: direction
  pv_qty :: string
  pv_entry_price :: string
  pv_mark_price :: string
  pv_unrealized_pnl :: string
  pv_leverage :: jsnum

record open_order_view =
  ov_symbol :: string
  ov_client_order_id :: string
  ov_type :: string
  ov_side :: string
  ov_qty :: string
  ov_price :: "string option"
  ov_stop_price :: "string option"
  ov_reduce_only :: bool
  ov_status :: string

record account_view =
  av_backend :: backend
  av_equity :: string
  av_available :: string
  av_unrealized_pnl :: string
  av_positions :: "position_view list"
  av_open_orders :: "open_order_view list"
  av_as_of :: int

record market_view =
  mv_symbol :: string
  mv_last :: string
  mv_mark :: string
  mv_funding_rate :: string
  mv_next_funding_at :: int
  mv_open_interest :: string
  mv_as_of :: int
  mv_klines_tf :: string

record kline =
  k_open_time :: int
  k_open :: string
  k_high :: string
  k_low :: string
  k_close :: string
  k_volume :: string
  k_close_time :: int

record symbol_info =
  si_symbol :: string
  si_status :: string
  si_price_precision :: nat
  si_qty_precision :: nat
  si_step_size :: string
  si_tick_size :: string
  si_min_qty :: string
  si_min_notional :: string

section \<open>Workflow settings\<close>

record cli_commands_view =
  cli_claude :: string
  cli_codex :: string
  cli_pi :: string

record workflow =
  w_watchlist :: "string list"
  w_timeframe :: string
  w_info_every_ms :: jsnum
  w_risk_pct :: string
  w_leverage :: jsnum
  w_margin_mode :: margin_mode
  w_max_open_threads :: jsnum
  w_max_opens_per_day :: jsnum
  w_daily_loss_stop_pct :: string
  w_auto_approve :: bool
  w_brain :: brain_kind
  w_cheap_brain :: brain_kind
  w_brain_model :: "string option"
  w_cheap_brain_model :: "string option"
  w_playbook_text :: string
  w_paused :: bool
  w_narrate :: bool
  w_chat_requires_approval :: bool
  w_scan_mode :: scan_mode
  w_heartbeat_every_ms :: jsnum
  w_watch_only :: "string list"
  w_invalidation_confirm_bars :: jsnum
  w_invalidation_buffer_atr :: jsnum
  w_fast_move_pct :: string
  w_review_every_close :: bool
  w_execution :: backend
  w_exec_agent_cli :: agent_cli_kind
  w_exec_agent_model :: "string option"
  w_daily_judgment_cap :: jsnum
  w_screener_enabled :: bool
  w_screener_short_every_ms :: jsnum
  w_screener_swing_every_ms :: jsnum
  w_screener_universe :: screener_universe
  w_screener_symbols :: "string list"
  w_screener_whitelist :: "string list"
  w_screener_max_symbols :: jsnum
  w_screener_use_brain :: bool
  w_screener_apply :: screener_apply
  w_screener_expectancy :: bool
  w_watchlist_max :: jsnum
  w_cli_commands :: cli_commands_view
  w_active_strategies :: "string list"
  w_updated_at :: int

section \<open>Threads\<close>

text \<open>Why a thread ended, and the error of an intent, which may become one: texts in the sources, most of them Chinese
  sentences.\<close>

datatype close_reason = CR_entry_order string | CR_exchange_closed | CR_review_invalidated | CR_review_exit
  | CR_text string | CR_preflight | CR_size_check | CR_no_data | CR_leverage "string option" | CR_margin "string option"
  | CR_halted_before_send | CR_entry_failed "string option" | CR_stop_failed | CR_halt | CR_halt_retried
  | CR_bad_quantity | CR_user_rejected | CR_manual_close | CR_user_confirmed | CR_cancel_default | CR_exit_default
  | CR_paper_stop string | CR_paper_tp string | CR_entry_not_filled | CR_entry_unknown | CR_close_unproven | CR_thread_ended
  | CR_intent_rejected | CR_chat_close

record thread =
  t_id :: string
  t_backend :: "backend option"
  t_strategy_id :: "string option"
  t_exit_price :: "string option"
  t_symbol :: string
  t_side :: direction
  t_status :: thread_status
  t_source :: thread_source
  t_timeframe :: string
  t_thesis :: string
  t_invalidation_text :: "string option"
  t_watch_conditions :: "string list"
  t_entry :: thread_entry
  t_stop_price :: "string option"
  t_take_profits :: "string list"
  t_qty :: string
  t_margin_usdt :: "string option"
  t_leverage :: jsnum
  t_margin_mode :: margin_mode
  t_entry_client_order_id :: "string option"
  t_protection_client_order_ids :: "string list"
  t_filled_avg_price :: "string option"
  t_realized_pnl :: "string option"
  t_close_reason :: "close_reason option"
  t_attention :: "string option"
  t_entry_lookup_misses :: int
  t_entry_submitting_since :: "int option"
  t_entry_submitted_at :: "int option"
  t_leg_seq :: int
  t_episode_ids :: "string list"
  t_intent_ids :: "string list"
  t_created_at :: int
  t_updated_at :: int
  t_opened_at :: "int option"
  t_closed_at :: "int option"
  t_version :: int

end
