(* ===== verification/Graph.thy ===== *)
theory Graph imports DemoTypes begin

text \<open>
  The judgment graph (\<open>graph.ts\<close>): nodes with the actions the model may pick, the edges that give each
  action its effect and guards, the event edges that wake a symbol, and the structural check
  \<open>validateGraph\<close>. The descriptions, which only the documentation page prints, are left out.
\<close>

section \<open>Types\<close>

datatype node_id = Scan | Scan_halted | Scan_stale | Scan_watch_only | Review_pending_entry
  | Review_in_position | Review_closed

datatype effect = Eff_none | Eff_watch | Eff_open_thread | Eff_cancel_entry | Eff_close | Eff_reduce_half

datatype guard_id = Gd_halt | Gd_paused | Gd_fresh_evidence | Gd_no_position | Gd_daily_open_cap | Gd_stop_side
  | Gd_stop_distance | Gd_tp_side | Gd_confidence_floor | Gd_thread_limits | Gd_no_unknown_orders
  | Gd_preflight | Gd_no_add | Gd_thread_still_open

text \<open>The gate names shown to the user; each constructor is one literal of the sources.\<close>

datatype gate_name = N_halt | N_paused | N_fresh_evidence | N_no_position | N_daily_open_cap | N_stop_side
  | N_stop_distance | N_tp_side | N_confidence_floor | N_thread_limits | N_no_unknown_orders | N_preflight
  | N_no_add | N_thread_still_open | N_other string

record model_edge =
  me_id :: string
  me_from :: node_id
  me_action :: action
  me_effect :: effect
  me_guards :: "guard_id list"

text \<open>\<open>ee_from\<close> is None for a symbol without an open thread.\<close>

record event_edge =
  ee_id :: string
  ee_event :: trigger_kind
  ee_from :: "thread_status option"
  ee_to :: node_id

record judgment_graph =
  gr_version :: string
  gr_nodes :: "(node_id \<times> action list) list"
  gr_model_edges :: "model_edge list"
  gr_event_edges :: "event_edge list"
  gr_guards :: "(guard_id \<times> gate_name) list"

section \<open>The graph of the program\<close>

definition GRAPH_VERSION :: string where "GRAPH_VERSION = ''judgment-graph-v3''"

definition GUARDS :: "(guard_id \<times> gate_name) list" where
  "GUARDS = [
     (Gd_halt, N_halt), (Gd_paused, N_paused), (Gd_fresh_evidence, N_fresh_evidence),
     (Gd_no_position, N_no_position), (Gd_daily_open_cap, N_daily_open_cap), (Gd_stop_side, N_stop_side),
     (Gd_stop_distance, N_stop_distance), (Gd_tp_side, N_tp_side), (Gd_confidence_floor, N_confidence_floor),
     (Gd_thread_limits, N_thread_limits), (Gd_no_unknown_orders, N_no_unknown_orders),
     (Gd_preflight, N_preflight), (Gd_no_add, N_no_add), (Gd_thread_still_open, N_thread_still_open)]"

definition OPEN_GUARDS :: "guard_id list" where
  "OPEN_GUARDS = [Gd_halt, Gd_paused, Gd_fresh_evidence, Gd_no_position, Gd_daily_open_cap, Gd_stop_side,
     Gd_stop_distance, Gd_tp_side, Gd_confidence_floor, Gd_thread_limits, Gd_no_unknown_orders, Gd_preflight]"

definition edge :: "string \<Rightarrow> node_id \<Rightarrow> action \<Rightarrow> effect \<Rightarrow> guard_id list \<Rightarrow> model_edge" where
  "edge i n a e g = \<lparr>me_id = i, me_from = n, me_action = a, me_effect = e, me_guards = g\<rparr>"

definition MODEL_EDGES :: "model_edge list" where
  "MODEL_EDGES = [
     edge ''scan.NO_TRADE'' Scan NO_TRADE Eff_none [],
     edge ''scan.WATCH'' Scan WATCH Eff_watch [],
     edge ''scan.PROPOSE'' Scan PROPOSE Eff_open_thread OPEN_GUARDS,
     edge ''halted.NO_TRADE'' Scan_halted NO_TRADE Eff_none [Gd_halt],
     edge ''stale.NO_TRADE'' Scan_stale NO_TRADE Eff_none [],
     edge ''stale.WATCH'' Scan_stale WATCH Eff_watch [],
     edge ''watch_only.NO_TRADE'' Scan_watch_only NO_TRADE Eff_none [],
     edge ''watch_only.WATCH'' Scan_watch_only WATCH Eff_watch [],
     edge ''pending.HOLD'' Review_pending_entry HOLD Eff_none [Gd_thread_still_open],
     edge ''pending.INVALIDATE'' Review_pending_entry INVALIDATE Eff_cancel_entry [Gd_thread_still_open],
     edge ''position.HOLD'' Review_in_position HOLD Eff_none [Gd_thread_still_open],
     edge ''position.REDUCE'' Review_in_position REDUCE Eff_reduce_half [Gd_thread_still_open],
     edge ''position.EXIT'' Review_in_position EXIT Eff_close [Gd_thread_still_open],
     edge ''position.INVALIDATE'' Review_in_position INVALIDATE Eff_close [Gd_thread_still_open]]"

definition SCAN_EVENTS :: "trigger_kind list" where
  "SCAN_EVENTS = [Kline_close, Scan_event, Manual, Chat_event, Heartbeat, Breakout, Ema_cross, Vol_spike,
     Retest, Fast_move, Session_event, Funding_event, Schedule]"

definition REVIEW_EVENTS :: "trigger_kind list" where
  "REVIEW_EVENTS = [Kline_close, Manual, Chat_event, Heartbeat, Info_update, Order_filled, Tp_hit, Sl_hit,
     Thread_review, Position_review, Fast_move, Breakout, Ema_cross, Vol_spike, Retest, Session_event,
     Funding_event, Monitor]"

definition event_edge_of :: "string \<Rightarrow> thread_status option \<Rightarrow> node_id \<Rightarrow> trigger_kind \<Rightarrow> event_edge" where
  "event_edge_of pre st n ev = \<lparr>ee_id = pre @ ''.'' @ trigger_str ev, ee_event = ev, ee_from = st, ee_to = n\<rparr>"

definition EVENT_EDGES :: "event_edge list" where
  "EVENT_EDGES =
     List.map (event_edge_of ''none'' None Scan) SCAN_EVENTS
   @ List.map (event_edge_of ''pending_entry'' (Some Pending_entry) Review_pending_entry) REVIEW_EVENTS
   @ List.map (event_edge_of ''in_position'' (Some In_position) Review_in_position) REVIEW_EVENTS"

definition JUDGMENT_GRAPH :: judgment_graph where
  "JUDGMENT_GRAPH = \<lparr>gr_version = GRAPH_VERSION,
     gr_nodes = [
       (Scan, [NO_TRADE, WATCH, PROPOSE]),
       (Scan_halted, [NO_TRADE]),
       (Scan_watch_only, [NO_TRADE, WATCH]),
       (Scan_stale, [NO_TRADE, WATCH]),
       (Review_pending_entry, [HOLD, INVALIDATE]),
       (Review_in_position, [HOLD, REDUCE, EXIT, INVALIDATE]),
       (Review_closed, [])],
     gr_model_edges = MODEL_EDGES, gr_event_edges = EVENT_EDGES, gr_guards = GUARDS\<rparr>"

section \<open>Operations\<close>

text \<open>\<open>nodeFor\<close> reads only the status of the thread under review.\<close>

definition nodeFor :: "thread_status option \<Rightarrow> bool \<Rightarrow> bool \<Rightarrow> bool \<Rightarrow> node_id" where
  "nodeFor thread halted marketStale watchOnly = (case thread of
     Some st \<Rightarrow> if st = Pending_entry then Review_pending_entry
                else if st = In_position then Review_in_position else Review_closed
   | None \<Rightarrow> if halted then Scan_halted else if marketStale then Scan_stale
             else if watchOnly then Scan_watch_only else Scan)"

text \<open>\<open>g.nodes[node]\<close>: the node type makes the key present in a well-typed graph.\<close>

definition allowedActions :: "node_id \<Rightarrow> judgment_graph \<Rightarrow> action list" where
  "allowedActions node g = (case map_of (gr_nodes g) node of Some as \<Rightarrow> as | None \<Rightarrow> [])"

definition edgeFor :: "node_id \<Rightarrow> action \<Rightarrow> judgment_graph \<Rightarrow> model_edge option" where
  "edgeFor node a g = List.find (\<lambda>e. me_from e = node \<and> me_action e = a) (gr_model_edges g)"

definition eventEdgeFor :: "trigger_kind \<Rightarrow> thread_status option \<Rightarrow> judgment_graph \<Rightarrow> event_edge option" where
  "eventEdgeFor ev st g = List.find (\<lambda>e. ee_event e = ev \<and> ee_from e = st) (gr_event_edges g)"

definition guardIdForGate :: "gate_name \<Rightarrow> judgment_graph \<Rightarrow> guard_id option" where
  "guardIdForGate n g = map_option fst (List.find (\<lambda>(i, v). v = n) (gr_guards g))"

definition guardsFromGates :: "gate_name list \<Rightarrow> judgment_graph \<Rightarrow> (guard_id + gate_name) list" where
  "guardsFromGates ns g = List.map (\<lambda>n. case guardIdForGate n g of Some i \<Rightarrow> Inl i | None \<Rightarrow> Inr n) ns"

datatype graph_error = ActionEdges node_id action | NotAllowed node_id string action | DuplicateId string
  | UnknownGuard string guard_id | UnknownNode string node_id

definition node_errors :: "judgment_graph \<Rightarrow> node_id \<times> action list \<Rightarrow> graph_error list" where
  "node_errors g = (\<lambda>(node, allowed).
     let edges = filter (\<lambda>e. me_from e = node) (gr_model_edges g) in
     List.map (ActionEdges node) (filter (\<lambda>a. length (filter (\<lambda>e. me_action e = a) edges) \<noteq> 1) allowed)
   @ List.map (\<lambda>e. NotAllowed node (me_id e) (me_action e)) (filter (\<lambda>e. me_action e \<notin> set allowed) edges))"

fun duplicate_errors :: "string set \<Rightarrow> string list \<Rightarrow> graph_error list" where
  "duplicate_errors ids [] = []"
| "duplicate_errors ids (e # es) = (if e \<in> ids then [DuplicateId e] else []) @ duplicate_errors (insert e ids) es"

definition validateGraph :: "judgment_graph \<Rightarrow> graph_error list" where
  "validateGraph g =
     concat (List.map (node_errors g) (gr_nodes g))
   @ duplicate_errors {} (List.map me_id (gr_model_edges g) @ List.map ee_id (gr_event_edges g))
   @ concat (List.map (\<lambda>e. List.map (UnknownGuard (me_id e))
        (filter (\<lambda>gd. gd \<notin> fst ` set (gr_guards g)) (me_guards e))) (gr_model_edges g))
   @ List.map (\<lambda>e. UnknownNode (ee_id e) (ee_to e))
        (filter (\<lambda>e. ee_to e \<notin> fst ` set (gr_nodes g)) (gr_event_edges g))"

section \<open>What validation means\<close>

lemma duplicate_errors_Nil: "duplicate_errors ids es = [] \<longleftrightarrow> distinct es \<and> set es \<inter> ids = {}"
  by (induction es arbitrary: ids) auto

lemma node_errors_Nil:
  "node_errors g (node, allowed) = [] \<longleftrightarrow>
     (\<forall>a\<in>set allowed. length (filter (\<lambda>e. me_from e = node \<and> me_action e = a) (gr_model_edges g)) = 1)
   \<and> (\<forall>e\<in>set (gr_model_edges g). me_from e = node \<longrightarrow> me_action e \<in> set allowed)"
  by (auto simp: node_errors_def filter_empty_conv Let_def conj_commute)

lemma find_Some_iff_ex: "(List.find P xs \<noteq> None) \<longleftrightarrow> (\<exists>x\<in>set xs. P x)"
  by (auto simp: find_None_iff)

lemma edgeFor_SomeD:
  "edgeFor node a g = Some e \<Longrightarrow> e \<in> set (gr_model_edges g) \<and> me_from e = node \<and> me_action e = a"
  by (auto simp: edgeFor_def find_Some_iff)

text \<open>A validated graph decides every action of every node it lists: an action is allowed exactly when an edge
  carries it, and then one edge does.\<close>

lemma validated_edges:
  assumes "validateGraph g = []" "map_of (gr_nodes g) node = Some allowed"
  shows "a \<in> set (allowedActions node g) \<longleftrightarrow> edgeFor node a g \<noteq> None"
    and "a \<in> set (allowedActions node g) \<Longrightarrow>
       length (filter (\<lambda>e. me_from e = node \<and> me_action e = a) (gr_model_edges g)) = 1"
proof -
  have "node_errors g (node, allowed) = []"
    using assms map_of_SomeD [OF assms(2)] by (auto simp: validateGraph_def)
  note n = this [unfolded node_errors_Nil]
  have al: "allowedActions node g = allowed" using assms(2) by (simp add: allowedActions_def)
  show one: "length (filter (\<lambda>e. me_from e = node \<and> me_action e = a) (gr_model_edges g)) = 1"
    if "a \<in> set (allowedActions node g)" using n that al by blast
  show "a \<in> set (allowedActions node g) \<longleftrightarrow> edgeFor node a g \<noteq> None"
  proof
    assume "a \<in> set (allowedActions node g)"
    then have "filter (\<lambda>e. me_from e = node \<and> me_action e = a) (gr_model_edges g) \<noteq> []" using one by force
    then show "edgeFor node a g \<noteq> None" by (auto simp: edgeFor_def find_None_iff filter_empty_conv)
  next
    assume "edgeFor node a g \<noteq> None"
    then show "a \<in> set (allowedActions node g)" using n al edgeFor_SomeD by force
  qed
qed

lemma validated_ids:
  assumes "validateGraph g = []"
  shows "distinct (List.map me_id (gr_model_edges g) @ List.map ee_id (gr_event_edges g))"
  using assms by (simp add: validateGraph_def duplicate_errors_Nil)

lemma ids_distinct: "distinct (List.map me_id MODEL_EDGES @ List.map ee_id EVENT_EDGES)"
  by code_simp

lemma node_errors_graph: "concat (List.map (node_errors JUDGMENT_GRAPH) (gr_nodes JUDGMENT_GRAPH)) = []"
  by code_simp

lemma guards_known: "list_all (\<lambda>e. list_all (\<lambda>gd. gd \<in> set (List.map fst GUARDS)) (me_guards e)) MODEL_EDGES"
  by code_simp

lemma targets_known: "list_all (\<lambda>e. ee_to e \<in> set (List.map fst (gr_nodes JUDGMENT_GRAPH))) EVENT_EDGES"
  by code_simp

lemma graph_valid [simp]: "validateGraph JUDGMENT_GRAPH = []"
proof -
  have "gr_model_edges JUDGMENT_GRAPH = MODEL_EDGES" "gr_event_edges JUDGMENT_GRAPH = EVENT_EDGES"
    "gr_guards JUDGMENT_GRAPH = GUARDS"
    by (simp_all add: JUDGMENT_GRAPH_def)
  then show ?thesis
    using ids_distinct guards_known targets_known
    by (simp add: validateGraph_def node_errors_graph duplicate_errors_Nil list_all_iff filter_empty_conv)
qed

lemma graph_nodes_total: "map_of (gr_nodes JUDGMENT_GRAPH) node \<noteq> None"
  by (cases node) (simp_all add: JUDGMENT_GRAPH_def)

lemmas graph_simps = JUDGMENT_GRAPH_def allowedActions_def edgeFor_def eventEdgeFor_def MODEL_EDGES_def
  EVENT_EDGES_def SCAN_EVENTS_def REVIEW_EVENTS_def edge_def event_edge_of_def OPEN_GUARDS_def

lemma allowed_iff_edge: "a \<in> set (allowedActions node JUDGMENT_GRAPH) \<longleftrightarrow> edgeFor node a JUDGMENT_GRAPH \<noteq> None"
  using validated_edges(1) [OF graph_valid] graph_nodes_total [of node] by blast

lemma edges_open:
  "\<forall>e\<in>set (gr_model_edges JUDGMENT_GRAPH). me_effect e = Eff_open_thread \<longleftrightarrow> me_from e = Scan \<and> me_action e = PROPOSE"
  by (simp add: JUDGMENT_GRAPH_def MODEL_EDGES_def edge_def)

lemma edge_effect_open:
  "edgeFor node a JUDGMENT_GRAPH = Some e \<Longrightarrow> me_effect e = Eff_open_thread \<longleftrightarrow> node = Scan \<and> a = PROPOSE"
  using edges_open edgeFor_SomeD by blast

lemma nodeFor_Scan_iff: "nodeFor t h s w = Scan \<longleftrightarrow> t = None \<and> \<not> h \<and> \<not> s \<and> \<not> w"
  by (auto simp: nodeFor_def split: option.splits if_splits)

end
