(* ===== verification/Threads.thy ===== *)
theory Threads imports Graph begin

text \<open>
  Strategy threads (\<open>threads.ts\<close>): the plan for one symbol, whose status is derived again from exchange
  facts on every poll. Every thread function of that file is here, with \<open>reconcileThread\<close> branch by branch.
  The digest behind a client order id is a parameter.
\<close>

section \<open>Creation\<close>

record new_thread_input =
  ni_id :: string
  ni_backend :: "backend option"
  ni_symbol :: string
  ni_side :: direction
  ni_source :: thread_source
  ni_timeframe :: string
  ni_thesis :: string
  ni_invalidation_text :: "string option"
  ni_watch_conditions :: "string list"
  ni_entry :: thread_entry
  ni_stop_price :: "string option"
  ni_take_profits :: "string list"
  ni_qty :: string
  ni_margin_usdt :: "string option"
  ni_leverage :: jsnum
  ni_margin_mode :: margin_mode
  ni_strategy_id :: "string option"
  ni_now :: int

definition newThread :: "new_thread_input \<Rightarrow> thread" where
  "newThread i = \<lparr>
     t_id = ni_id i, t_backend = ni_backend i, t_strategy_id = ni_strategy_id i, t_exit_price = None,
     t_symbol = ni_symbol i, t_side = ni_side i, t_status = Pending_entry, t_source = ni_source i,
     t_timeframe = ni_timeframe i, t_thesis = ni_thesis i, t_invalidation_text = ni_invalidation_text i,
     t_watch_conditions = ni_watch_conditions i, t_entry = ni_entry i, t_stop_price = ni_stop_price i,
     t_take_profits = ni_take_profits i, t_qty = ni_qty i, t_margin_usdt = ni_margin_usdt i,
     t_leverage = ni_leverage i, t_margin_mode = ni_margin_mode i, t_entry_client_order_id = None,
     t_protection_client_order_ids = [], t_filled_avg_price = None, t_realized_pnl = None,
     t_close_reason = None, t_attention = None, t_entry_lookup_misses = 0, t_entry_submitting_since = None,
     t_entry_submitted_at = None, t_leg_seq = 0, t_episode_ids = [], t_intent_ids = [],
     t_created_at = ni_now i, t_updated_at = ni_now i, t_opened_at = None, t_closed_at = None, t_version = 1\<rparr>"

definition OPEN_STATUSES :: "thread_status list" where
  "OPEN_STATUSES = [Pending_entry, In_position]"

definition isOpen :: "thread \<Rightarrow> bool" where
  "isOpen t = (t_status t \<in> set OPEN_STATUSES)"

section \<open>Reconciliation\<close>

record order_status_view =
  os_status :: string
  os_avg_price :: "string option"
  os_executed_qty :: string

text \<open>The three outcomes of asking for the entry order: not asked, not found, found.\<close>

datatype entry_lookup = Unqueried | NotFound | Found order_status_view

record thread_facts =
  f_now :: int
  f_position :: "position_view option"
  f_entry_order :: entry_lookup
  f_open_orders :: "open_order_view list"
  f_mark :: "string option"

datatype event_kind = Ev_entry_filled | Ev_closed | Ev_attention | Ev_attention_cleared | Ev_canceled

datatype event_message = M_entry_filled bool string | M_external_position | M_reason close_reason
  | M_order_unknown | M_order_found | M_stop_missing | M_stop_back

record reconcile_result =
  r_next :: thread
  r_changed :: bool
  r_events :: "(event_kind \<times> event_message) list"

definition ATTRIBUTION_GRACE_MS :: int where "ATTRIBUTION_GRACE_MS = 45000"

definition withinSubmitGrace :: "thread \<Rightarrow> int \<Rightarrow> bool" where
  "withinSubmitGrace t now = (case t_entry_submitted_at t of None \<Rightarrow> False
     | Some s \<Rightarrow> 0 \<le> now - s \<and> now - s < ATTRIBUTION_GRACE_MS)"

definition bump :: "thread \<Rightarrow> thread_facts \<Rightarrow> thread \<Rightarrow> thread" where
  "bump t f next = next\<lparr>t_version := t_version t + 1, t_updated_at := f_now f\<rparr>"

definition unchanged :: "thread \<Rightarrow> reconcile_result" where
  "unchanged t = \<lparr>r_next = t, r_changed = False, r_events = []\<rparr>"

definition changed :: "thread \<Rightarrow> (event_kind \<times> event_message) list \<Rightarrow> reconcile_result" where
  "changed t es = \<lparr>r_next = t, r_changed = True, r_events = es\<rparr>"

definition posMatches :: "thread \<Rightarrow> thread_facts \<Rightarrow> bool" where
  "posMatches t f = (case f_position f of None \<Rightarrow> False | Some p \<Rightarrow> pv_side p = t_side t)"

text \<open>\<open>t.entry_client_order_id\<close> in a condition: present and not the empty string.\<close>

definition has_entry_cid :: "thread \<Rightarrow> bool" where
  "has_entry_cid t = (case t_entry_client_order_id t of None \<Rightarrow> False | Some s \<Rightarrow> s \<noteq> [])"

definition looked_up :: "thread_facts \<Rightarrow> order_status_view option" where
  "looked_up f = (case f_entry_order f of Found v \<Rightarrow> Some v | _ \<Rightarrow> None)"

definition entry_fill :: "thread \<Rightarrow> thread_facts \<Rightarrow> order_status_view \<Rightarrow> position_view \<Rightarrow> reconcile_result" where
  "entry_fill t f order pos = (
     let partial = (os_status order = ''PARTIALLY_FILLED'');
         price = (case os_avg_price order of Some p \<Rightarrow> p | None \<Rightarrow> pv_entry_price pos);
         qty = (if partial \<and> 0 < js_number (os_executed_qty order) then os_executed_qty order else t_qty t)
     in changed (bump t f (t\<lparr>t_status := In_position, t_opened_at := Some (f_now f), t_filled_avg_price := Some price,
            t_qty := qty, t_attention := (if partial then Some ''ENTRY_REMAINDER'' else None)\<rparr>))
          [(Ev_entry_filled, M_entry_filled partial price)])"

definition reconcile_entry_order :: "thread \<Rightarrow> thread_facts \<Rightarrow> reconcile_result" where
  "reconcile_entry_order t f = (
     let order = looked_up f; st = (case order of Some v \<Rightarrow> os_status v | None \<Rightarrow> ''GONE'') in
     if st \<in> {''CANCELED'', ''EXPIRED'', ''REJECTED''} \<and> \<not> posMatches t f then
       (let why = (case t_close_reason t of Some r \<Rightarrow> r | None \<Rightarrow> CR_entry_order st) in
        changed (bump t f (t\<lparr>t_status := Canceled, t_closed_at := Some (f_now f), t_close_reason := Some why,
          t_attention := None\<rparr>)) [(Ev_canceled, M_reason why)])
     else if st = ''GONE'' then
       (if withinSubmitGrace t (f_now f) then unchanged t
        else let n = t\<lparr>t_entry_lookup_misses := t_entry_lookup_misses t + 1\<rparr> in
          if t_attention t \<noteq> Some ''ORDER_UNKNOWN''
          then changed (bump t f (n\<lparr>t_attention := Some ''ORDER_UNKNOWN''\<rparr>)) [(Ev_attention, M_order_unknown)]
          else changed (bump t f n) [])
     else if t_attention t = Some ''ORDER_UNKNOWN'' \<and> order \<noteq> None then
       changed (bump t f (t\<lparr>t_attention := None, t_entry_lookup_misses := 0\<rparr>)) [(Ev_attention_cleared, M_order_found)]
     else unchanged t)"

definition filled :: "thread_facts \<Rightarrow> bool" where
  "filled f = (case looked_up f of None \<Rightarrow> False
     | Some v \<Rightarrow> os_status v = ''FILLED'' \<or> os_status v = ''PARTIALLY_FILLED'')"

definition reconcile_unfilled :: "thread \<Rightarrow> thread_facts \<Rightarrow> reconcile_result" where
  "reconcile_unfilled t f = (
     if \<not> filled f \<and> f_position f \<noteq> None \<and> has_entry_cid t then
       (if posMatches t f \<and> withinSubmitGrace t (f_now f) then unchanged t
        else if t_attention t \<noteq> Some ''EXTERNAL_POSITION'' then
          changed (bump t f (t\<lparr>t_attention := Some ''EXTERNAL_POSITION''\<rparr>)) [(Ev_attention, M_external_position)]
        else unchanged t)
     else if f_entry_order f \<noteq> Unqueried \<and> has_entry_cid t then reconcile_entry_order t f
     else unchanged t)"

definition reconcile_pending :: "thread \<Rightarrow> thread_facts \<Rightarrow> reconcile_result" where
  "reconcile_pending t f = (case (looked_up f, f_position f) of
       (Some v, Some p) \<Rightarrow> if filled f \<and> posMatches t f then entry_fill t f v p else reconcile_unfilled t f
     | _ \<Rightarrow> reconcile_unfilled t f)"

text \<open>A stop of ours on the exchange: reduce-only, on the closing side, and either one we placed or one within
  half a percent of the wanted stop.\<close>

definition is_our_stop :: "thread \<Rightarrow> open_order_view \<Rightarrow> bool" where
  "is_our_stop t ord = (
     let want = js_number (case t_stop_price t of Some p \<Rightarrow> p | None \<Rightarrow> ''0'') in
     ov_reduce_only ord \<and> (ov_type ord = ''STOP_MARKET'' \<or> ov_type ord = ''STOP'')
   \<and> ov_side ord = (if t_side t = Long then ''SELL'' else ''BUY'')
   \<and> (ov_client_order_id ord \<in> set (t_protection_client_order_ids t)
      \<or> (0 < want \<and> (case ov_stop_price ord of None \<Rightarrow> False
           | Some sp \<Rightarrow> \<bar>js_number sp - want\<bar> / want < lit (5/1000)))))"

definition reconcile_position :: "thread \<Rightarrow> thread_facts \<Rightarrow> reconcile_result" where
  "reconcile_position t f = (
     if \<not> posMatches t f then
       (let why = (case t_close_reason t of Some r \<Rightarrow> r | None \<Rightarrow> CR_exchange_closed) in
        changed (bump t f (t\<lparr>t_status := Closed, t_closed_at := Some (f_now f), t_close_reason := Some why,
          t_attention := None\<rparr>)) [(Ev_closed, M_reason why)])
     else let hasStop = list_ex (is_our_stop t) (f_open_orders f); wantStop = (t_stop_price t \<noteq> None) in
       if t_attention t \<in> {Some ''HALT_INCOMPLETE'', Some ''ENTRY_REMAINDER'', Some ''CLOSE_FAILED''} then unchanged t
       else let att = (if wantStop \<and> \<not> hasStop then Some ''PROTECTION_MISSING'' else None) in
         if att \<noteq> t_attention t then
           changed (bump t f (t\<lparr>t_attention := att\<rparr>))
             [if att \<noteq> None then (Ev_attention, M_stop_missing) else (Ev_attention_cleared, M_stop_back)]
         else unchanged t)"

definition reconcileThread :: "thread \<Rightarrow> thread_facts \<Rightarrow> reconcile_result" where
  "reconcileThread t f = (
     if t_status t = Pending_entry then reconcile_pending t f
     else if t_status t = In_position then reconcile_position t f
     else unchanged t)"

section \<open>Reviews\<close>

definition allowedReviewActions :: "thread \<Rightarrow> action list" where
  "allowedReviewActions t = allowedActions (nodeFor (Some (t_status t)) False False False) JUDGMENT_GRAPH"

record review_patch =
  rp_thesis :: string
  rp_invalidation_text :: "string option"
  rp_watch_conditions :: "string list"
  rp_close_reason :: "close_reason option"

datatype review_reason = RR_not_accepted thread_status action | RR_wait_entry | RR_keep | RR_cancel_entry
  | RR_close_invalid | RR_exit | RR_halve | RR_not_review string effect

record review_decision =
  rd_accepted :: bool
  rd_reason :: review_reason
  rd_effect :: effect
  rd_patch :: "review_patch option"
  rd_edge :: "string option"

definition review_patch_of :: "thread \<Rightarrow> judgement \<Rightarrow> review_patch" where
  "review_patch_of t j = \<lparr>
     rp_thesis = (if j_thesis j \<noteq> [] then j_thesis j else t_thesis t),
     rp_invalidation_text = (case j_invalidation j of Some s \<Rightarrow> Some s | None \<Rightarrow> t_invalidation_text t),
     rp_watch_conditions = (if j_watch_conditions j \<noteq> [] then j_watch_conditions j else t_watch_conditions t),
     rp_close_reason = None\<rparr>"

definition decide :: "bool \<Rightarrow> review_reason \<Rightarrow> effect \<Rightarrow> review_patch option \<Rightarrow> string option \<Rightarrow> review_decision" where
  "decide a r e pa ed = \<lparr>rd_accepted = a, rd_reason = r, rd_effect = e, rd_patch = pa, rd_edge = ed\<rparr>"

definition reduceReview :: "thread \<Rightarrow> judgement \<Rightarrow> review_decision" where
  "reduceReview t j = (
     let patch = review_patch_of t j in
     case edgeFor (nodeFor (Some (t_status t)) False False False) (j_action j) JUDGMENT_GRAPH of
       None \<Rightarrow> decide False (RR_not_accepted (t_status t) (j_action j)) Eff_none None None
     | Some e \<Rightarrow> (case me_effect e of
         Eff_none \<Rightarrow> decide True (if t_status t = Pending_entry then RR_wait_entry else RR_keep) Eff_none
           (Some patch) (Some (me_id e))
       | Eff_cancel_entry \<Rightarrow> decide True RR_cancel_entry Eff_cancel_entry
           (Some (patch\<lparr>rp_close_reason := Some CR_review_invalidated\<rparr>)) (Some (me_id e))
       | Eff_close \<Rightarrow> if j_action j = INVALIDATE
           then decide True RR_close_invalid Eff_close
             (Some (patch\<lparr>rp_close_reason := Some CR_review_invalidated\<rparr>)) (Some (me_id e))
           else decide True RR_exit Eff_close
             (Some (patch\<lparr>rp_close_reason := Some CR_review_exit\<rparr>)) (Some (me_id e))
       | Eff_reduce_half \<Rightarrow> decide True RR_halve Eff_reduce_half (Some patch) (Some (me_id e))
       | _ \<Rightarrow> decide False (RR_not_review (me_id e) (me_effect e)) Eff_none None (Some (me_id e))))"

section \<open>Opening limits and order ids\<close>

datatype opening_blocker = OB_has_thread string | OB_max_threads jsnum | OB_max_opens jsnum | OB_daily_loss string

definition openingBlockers :: "thread list \<Rightarrow> workflow \<Rightarrow> string \<Rightarrow> int \<Rightarrow> bool \<Rightarrow> opening_blocker list" where
  "openingBlockers threads w symbol opensToday dailyLossHit = (
     let opn = filter isOpen threads in
       (if list_ex (\<lambda>t. t_symbol t = symbol) opn then [OB_has_thread symbol] else [])
     @ (if w_max_open_threads w \<le> of_count (int (length opn)) then [OB_max_threads (w_max_open_threads w)] else [])
     @ (if w_max_opens_per_day w \<le> of_count opensToday then [OB_max_opens (w_max_opens_per_day w)] else [])
     @ (if dailyLossHit then [OB_daily_loss (w_daily_loss_stop_pct w)] else []))"

datatype leg = LegEntry | LegStop | LegTp | LegClose | LegReduce

fun leg_char :: "leg \<Rightarrow> char" where
  "leg_char LegEntry = CHR ''e''"
| "leg_char LegStop = CHR ''s''"
| "leg_char LegTp = CHR ''t''"
| "leg_char LegClose = CHR ''x''"
| "leg_char LegReduce = CHR ''r''"

text \<open>\<open>sha1\<close> stands for the hexadecimal SHA-1 digest of the runtime's crypto library.\<close>

definition threadClientPrefix :: "(string \<Rightarrow> string) \<Rightarrow> string \<Rightarrow> string" where
  "threadClientPrefix sha1 tid = ''tgd-'' @ take 12 (sha1 tid)"

definition nextLegCid :: "(string \<Rightarrow> string) \<Rightarrow> thread \<Rightarrow> leg \<Rightarrow> string \<times> thread" where
  "nextLegCid sha1 t l = (let sq = t_leg_seq t + 1 in
     (threadClientPrefix sha1 (t_id t) @ ''-'' @ [leg_char l] @ int_str sq, t\<lparr>t_leg_seq := sq\<rparr>))"

section \<open>Status only moves forward\<close>

definition thread_edges :: "(thread_status \<times> thread_status) set" where
  "thread_edges = {(Pending_entry, In_position), (Pending_entry, Canceled), (In_position, Closed)}"

lemmas reconcile_defs = reconcileThread_def reconcile_pending_def reconcile_unfilled_def reconcile_position_def
  reconcile_entry_order_def entry_fill_def unchanged_def changed_def bump_def Let_def

lemma unchanged_sel [simp]: "r_next (unchanged t) = t" "r_changed (unchanged t) = False" "r_events (unchanged t) = []"
  by (simp_all add: unchanged_def)

lemma changed_sel [simp]: "r_next (changed t es) = t" "r_changed (changed t es) = True" "r_events (changed t es) = es"
  by (simp_all add: changed_def)

text \<open>What a pass may do to a thread, one case per kind of outcome.\<close>

definition may_move :: "thread \<Rightarrow> thread_facts \<Rightarrow> thread_status \<Rightarrow> bool" where
  "may_move t f q = (
     q = t_status t \<and> isOpen t
   \<or> t_status t = Pending_entry \<and> q = In_position \<and> filled f \<and> posMatches t f
   \<or> t_status t = Pending_entry \<and> q = Canceled \<and> \<not> posMatches t f
      \<and> (\<exists>v. f_entry_order f = Found v \<and> os_status v \<in> {''CANCELED'', ''EXPIRED'', ''REJECTED''})
   \<or> t_status t = In_position \<and> q = Closed \<and> \<not> posMatches t f)"

definition same_identity :: "thread \<Rightarrow> thread \<Rightarrow> bool" where
  "same_identity t n = (t_id n = t_id t \<and> t_symbol n = t_symbol t \<and> t_side n = t_side t \<and> t_stop_price n = t_stop_price t
     \<and> t_entry_client_order_id n = t_entry_client_order_id t
     \<and> t_protection_client_order_ids n = t_protection_client_order_ids t \<and> t_leg_seq n = t_leg_seq t)"

definition reconcile_case :: "thread \<Rightarrow> thread_facts \<Rightarrow> reconcile_result \<Rightarrow> bool" where
  "reconcile_case t f r = (same_identity t (r_next r) \<and> (
     r = unchanged t
   \<or> (r_changed r \<and> t_version (r_next r) = t_version t + 1 \<and> t_updated_at (r_next r) = f_now f
      \<and> may_move t f (t_status (r_next r)))))"

lemma case_unchanged: "reconcile_case t f (unchanged t)"
  by (simp add: reconcile_case_def same_identity_def)

lemma case_changed:
  "may_move t f (t_status n) \<Longrightarrow> same_identity t n \<Longrightarrow> reconcile_case t f (changed (bump t f n) es)"
  by (simp add: reconcile_case_def same_identity_def bump_def)

lemma may_stay: "isOpen t \<Longrightarrow> may_move t f (t_status t)"
  by (simp add: may_move_def)

lemma isOpenI: "t_status t = Pending_entry \<Longrightarrow> isOpen t" "t_status t = In_position \<Longrightarrow> isOpen t"
  by (simp_all add: isOpen_def OPEN_STATUSES_def)

lemma case_entry_fill:
  assumes "t_status t = Pending_entry" "filled f" "posMatches t f"
  shows "reconcile_case t f (entry_fill t f v p)"
  unfolding entry_fill_def Let_def
  by (rule case_changed) (use assms in \<open>simp_all add: may_move_def same_identity_def\<close>)

lemma case_entry_order:
  assumes "t_status t = Pending_entry"
  shows "reconcile_case t f (reconcile_entry_order t f)"
proof (cases "f_entry_order f")
  case (Found v)
  show ?thesis
    unfolding reconcile_entry_order_def Let_def looked_up_def Found
    using assms isOpenI(1) [OF assms] Found
    by (auto intro!: case_unchanged case_changed simp: may_move_def same_identity_def)
qed (use assms isOpenI(1) [OF assms] in \<open>auto simp: reconcile_entry_order_def looked_up_def Let_def may_move_def same_identity_def
    intro!: case_unchanged case_changed\<close>)

lemma case_unfilled:
  assumes "t_status t = Pending_entry"
  shows "reconcile_case t f (reconcile_unfilled t f)"
  unfolding reconcile_unfilled_def
  using assms case_entry_order [OF assms, of f] isOpenI(1) [OF assms]
  by (auto intro!: case_unchanged case_changed simp: may_move_def same_identity_def)

lemma case_pending:
  assumes "t_status t = Pending_entry"
  shows "reconcile_case t f (reconcile_pending t f)"
  unfolding reconcile_pending_def
  using case_unfilled [OF assms] case_entry_fill [OF assms] by (auto split: option.splits)

lemma case_position:
  assumes "t_status t = In_position"
  shows "reconcile_case t f (reconcile_position t f)"
proof (cases "posMatches t f")
  case False
  then show ?thesis unfolding reconcile_position_def Let_def
    by (simp, intro case_changed) (use assms in \<open>simp_all add: may_move_def same_identity_def\<close>)
next
  case True
  have "reconcile_case t f (changed (bump t f (t\<lparr>t_attention := a\<rparr>)) es)" for a es
    by (rule case_changed) (use may_stay isOpenI(2) [OF assms] in \<open>simp_all add: same_identity_def\<close>)
  then show ?thesis unfolding reconcile_position_def Let_def
    by (simp only: True not_True_eq_False if_False case_unchanged split: if_split) simp
qed

lemma case_reconcile: "reconcile_case t f (reconcileThread t f)"
  unfolding reconcileThread_def using case_pending [of t f] case_position [of t f] case_unchanged [of t f] by simp

interpretation threads: status_machine "\<lambda>t f. r_next (reconcileThread t f)" t_status thread_edges
proof
  fix t f
  show "t_status (r_next (reconcileThread t f)) = t_status t
      \<or> (t_status t, t_status (r_next (reconcileThread t f))) \<in> thread_edges"
    using case_reconcile [of t f] by (auto simp: reconcile_case_def may_move_def thread_edges_def)
qed

lemma thread_edges_from:
  "(q, q') \<in> thread_edges \<longleftrightarrow> q = Pending_entry \<and> q' \<in> {In_position, Canceled} \<or> q = In_position \<and> q' = Closed"
  by (auto simp: thread_edges_def)

lemma thread_path: "(q, q') \<in> thread_edges\<^sup>* \<longleftrightarrow>
  q = q' \<or> q = Pending_entry \<and> q' \<in> {In_position, Canceled, Closed} \<or> q = In_position \<and> q' = Closed"
proof
  assume "(q, q') \<in> thread_edges\<^sup>*"
  then show "q = q' \<or> q = Pending_entry \<and> q' \<in> {In_position, Canceled, Closed} \<or> q = In_position \<and> q' = Closed"
    by (induction rule: rtrancl_induct) (auto simp: thread_edges_from)
next
  have "(Pending_entry, In_position) \<in> thread_edges" "(Pending_entry, Canceled) \<in> thread_edges"
    "(In_position, Closed) \<in> thread_edges" by (simp_all add: thread_edges_def)
  moreover assume "q = q' \<or> q = Pending_entry \<and> q' \<in> {In_position, Canceled, Closed} \<or> q = In_position \<and> q' = Closed"
  ultimately show "(q, q') \<in> thread_edges\<^sup>*" by (auto intro: rtrancl_trans)
qed

lemma reconcile_identity: "same_identity t (r_next (reconcileThread t f))"
  using case_reconcile [of t f] by (simp add: reconcile_case_def)

section \<open>Properties\<close>

fun mint :: "(string \<Rightarrow> string) \<Rightarrow> thread \<Rightarrow> leg list \<Rightarrow> string list" where
  "mint sha1 t [] = []"
| "mint sha1 t (l # ls) = (let (cid, t') = nextLegCid sha1 t l in cid # mint sha1 t' ls)"

lemma nextLegCid_inject:
  assumes "0 \<le> t_leg_seq t" "0 \<le> t_leg_seq u" "12 \<le> length (sha1 (t_id t))" "12 \<le> length (sha1 (t_id u))"
    and "fst (nextLegCid sha1 t l) = fst (nextLegCid sha1 u k)"
  shows "take 12 (sha1 (t_id t)) = take 12 (sha1 (t_id u)) \<and> l = k \<and> t_leg_seq t = t_leg_seq u"
proof -
  have "take 12 (sha1 (t_id t)) @ CHR ''-'' # leg_char l # nat_str (t_leg_seq t + 1) =
    take 12 (sha1 (t_id u)) @ CHR ''-'' # leg_char k # nat_str (t_leg_seq u + 1)"
    using assms by (simp add: nextLegCid_def threadClientPrefix_def int_str_def Let_def)
  then have "take 12 (sha1 (t_id t)) = take 12 (sha1 (t_id u))" "leg_char l = leg_char k"
    "nat_str (t_leg_seq t + 1) = nat_str (t_leg_seq u + 1)"
    using assms(3,4) by (simp_all add: append_eq_append_conv)
  moreover have "leg_char l = leg_char k \<Longrightarrow> l = k" by (cases l; cases k) simp_all
  ultimately show ?thesis using assms(1,2) nat_str_inject by auto
qed

lemma mint_later:
  assumes "0 \<le> t_leg_seq t" "12 \<le> length (sha1 (t_id t))" "c \<in> set (mint sha1 t ls)"
  shows "\<exists>u l. c = fst (nextLegCid sha1 u l) \<and> t_id u = t_id t \<and> t_leg_seq t \<le> t_leg_seq u"
  using assms
proof (induction ls arbitrary: t)
  case (Cons l ls)
  let ?t = "t\<lparr>t_leg_seq := t_leg_seq t + 1\<rparr>"
  have m: "mint sha1 t (l # ls) = fst (nextLegCid sha1 t l) # mint sha1 ?t ls"
    by (simp add: nextLegCid_def Let_def)
  show ?case
  proof (cases "c = fst (nextLegCid sha1 t l)")
    case False
    then have "c \<in> set (mint sha1 ?t ls)" using Cons.prems(3) unfolding m by simp
    then obtain u l' where "c = fst (nextLegCid sha1 u l')" "t_id u = t_id ?t" "t_leg_seq ?t \<le> t_leg_seq u"
      using Cons.IH [of ?t] Cons.prems by auto
    then show ?thesis by (intro exI [of _ u] exI [of _ l']) simp
  qed auto
qed simp

text \<open>C8 Over any sequence of reconciliation passes a thread's status only moves along the life of an order:
  a pending entry becomes a position or is canceled, a position is closed, and a finished thread (closed,
  canceled or invalidated) never changes status again.\<close>

theorem thread_status_path:
  "(t_status t, t_status (foldl (\<lambda>t f. r_next (reconcileThread t f)) t fs)) \<in>
    Id \<union> {(Pending_entry, In_position), (Pending_entry, Canceled), (Pending_entry, Closed), (In_position, Closed)}"
  using threads.run_path [of t fs] by (auto simp: thread_path)


text \<open>A pass that reports a change raises the version by exactly one, stamps the time of the facts and leaves
  the thread's identity, side, stop, order ids and leg counter alone; a pass that reports none returns the
  thread as it was, with no events.\<close>

theorem thread_version:
  "let r = reconcileThread t f; n = r_next r in
    (r_changed r = False \<and> n = t \<and> r_events r = []) \<or>
    (r_changed r \<and> t_version n = t_version t + 1 \<and> t_updated_at n = f_now f
      \<and> (t_id n, t_symbol n, t_side n, t_stop_price n, t_leg_seq n) = (t_id t, t_symbol t, t_side t, t_stop_price t, t_leg_seq t)
      \<and> t_entry_client_order_id n = t_entry_client_order_id t
      \<and> t_protection_client_order_ids n = t_protection_client_order_ids t)"
  using case_reconcile [of t f] by (auto simp: reconcile_case_def same_identity_def Let_def)

text \<open>C10 An entry order the exchange cannot find is never taken for a canceled one: with no position, outside the
  45-second grace after submission, the pass keeps the thread pending, counts the miss and raises
  ORDER_UNKNOWN, whatever the number of misses before.\<close>

theorem thread_lookup_miss:
  assumes "t_status t = Pending_entry" "f_entry_order f = NotFound" "f_position f = None" "has_entry_cid t"
    and "withinSubmitGrace t (f_now f) = False"
  shows "let n = r_next (reconcileThread t f) in t_status n = Pending_entry \<and> t_attention n = Some ''ORDER_UNKNOWN''
    \<and> t_entry_lookup_misses n = t_entry_lookup_misses t + 1 \<and> t_version n = t_version t + 1"
  using assms by (simp add: reconcileThread_def reconcile_pending_def reconcile_unfilled_def reconcile_entry_order_def
      looked_up_def filled_def posMatches_def bump_def Let_def)

definition example_thread :: thread where
  "example_thread = (newThread \<lparr>ni_id = ''thr-1'', ni_backend = Some PaperB, ni_symbol = ''BTCUSDT'', ni_side = Long,
     ni_source = SrcAgent, ni_timeframe = ''15m'', ni_thesis = ''breakout'', ni_invalidation_text = None,
     ni_watch_conditions = [], ni_entry = \<lparr>en_type = Limit, en_price = Some ''100'', en_zone = None\<rparr>,
     ni_stop_price = Some ''95'', ni_take_profits = [''110''], ni_qty = ''1'', ni_margin_usdt = None, ni_leverage = Fin 3,
     ni_margin_mode = Cross, ni_strategy_id = None, ni_now = 1000\<rparr>)\<lparr>t_entry_client_order_id := Some ''tgd-1-e1''\<rparr>"

definition example_facts :: thread_facts where
  "example_facts = \<lparr>f_now = 60000, f_position = None, f_entry_order = NotFound, f_open_orders = [], f_mark = None\<rparr>"

theorem thread_lookup_miss_witness:
  "t_attention (r_next (reconcileThread example_thread example_facts)) = Some ''ORDER_UNKNOWN''"
  using thread_lookup_miss [of example_thread example_facts]
  by (simp add: example_thread_def example_facts_def newThread_def has_entry_cid_def withinSubmitGrace_def Let_def)

text \<open>Every client order id minted for a thread is new: over any sequence of legs the ids are pairwise
  different, for every digest function whose output has at least twelve characters.\<close>

theorem leg_cids_distinct:
  assumes "0 \<le> t_leg_seq t" "12 \<le> length (sha1 (t_id t))"
  shows "distinct (mint sha1 t ls)"
  using assms
proof (induction ls arbitrary: t)
  case (Cons l ls)
  let ?t = "t\<lparr>t_leg_seq := t_leg_seq t + 1\<rparr>"
  have m: "mint sha1 t (l # ls) = fst (nextLegCid sha1 t l) # mint sha1 ?t ls"
    by (simp add: nextLegCid_def Let_def)
  have "fst (nextLegCid sha1 t l) \<notin> set (mint sha1 ?t ls)"
  proof
    assume "fst (nextLegCid sha1 t l) \<in> set (mint sha1 ?t ls)"
    then obtain u k where "fst (nextLegCid sha1 t l) = fst (nextLegCid sha1 u k)" "t_id u = t_id t"
      "t_leg_seq t + 1 \<le> t_leg_seq u"
      using mint_later [of ?t sha1 "fst (nextLegCid sha1 t l)" ls] Cons.prems by auto
    then show False using nextLegCid_inject [of t u sha1 l k] Cons.prems by auto
  qed
  moreover have "distinct (mint sha1 ?t ls)" by (rule Cons.IH) (use Cons.prems in simp_all)
  ultimately show ?case unfolding m by simp
qed simp

theorem leg_cids_distinct_witness:
  "distinct (mint (\<lambda>s. ''0123456789abcdef'' @ s) example_thread [LegEntry, LegStop, LegTp, LegStop])"
  by (rule leg_cids_distinct) (simp_all add: example_thread_def newThread_def)

text \<open>A review is accepted exactly for the actions the judgment graph allows at the thread's status, with the
  effect the graph gives them: hold changes nothing, invalidating a pending entry cancels it, invalidating or
  exiting a position closes it, reducing halves it; a finished thread accepts nothing and gets no patch.\<close>

theorem review_follows_graph:
  "let d = reduceReview t j in
    rd_accepted d = (j_action j \<in> set (allowedReviewActions t))
    \<and> rd_accepted d = ((t_status t = Pending_entry \<and> j_action j \<in> {HOLD, INVALIDATE})
        \<or> (t_status t = In_position \<and> j_action j \<in> {HOLD, REDUCE, EXIT, INVALIDATE}))
    \<and> rd_effect d = (if rd_accepted d = False then Eff_none
        else if j_action j = HOLD then Eff_none
        else if j_action j = REDUCE then Eff_reduce_half
        else if t_status t = Pending_entry then Eff_cancel_entry else Eff_close)
    \<and> (rd_patch d = None) = (rd_accepted d = False)"
  by (cases "t_status t"; cases "j_action j")
    (simp_all add: reduceReview_def allowedReviewActions_def nodeFor_def graph_simps decide_def Let_def)

text \<open>C11 The opening limits hold: when no blocker is reported for a symbol, opening a thread on it keeps at most one
  open thread per symbol and keeps the number of open threads within the workflow's maximum.\<close>

theorem opening_limits:
  assumes "openingBlockers ts w symb opens dailyLoss = []"
    and "w_max_open_threads w = Fin (of_int m)" "\<bar>m\<bar> < 2 ^ 53"
    and "distinct (List.map t_symbol (filter isOpen ts))" "ni_symbol i = symb"
  shows "let ts' = newThread i # ts in distinct (List.map t_symbol (filter isOpen ts'))
    \<and> int (length (filter isOpen ts')) \<le> m \<and> dailyLoss = False"
proof -
  have "Fin (of_int m) \<le> of_count (int (length (filter isOpen ts))) \<longleftrightarrow> m \<le> int (length (filter isOpen ts))"
    by (rule count_ge_iff [OF assms(3)])
  then show ?thesis using assms
    by (auto simp: openingBlockers_def Let_def list_ex_iff newThread_def isOpen_def OPEN_STATUSES_def split: if_splits)
qed

theorem opening_limits_witness:
  "distinct (List.map t_symbol (filter isOpen (newThread (undefined\<lparr>ni_symbol := ''ETHUSDT''\<rparr>) # [example_thread])))"
proof -
  have e: "isOpen example_thread" "t_symbol example_thread = ''BTCUSDT''"
    by (simp_all add: example_thread_def newThread_def isOpen_def OPEN_STATUSES_def)
  have "of_count 1 = Fin 1" by simp
  then show ?thesis
    using opening_limits [of "[example_thread]" "undefined\<lparr>w_max_open_threads := Fin (of_int 3), w_max_opens_per_day := Fin 4\<rparr>"
        "''ETHUSDT''" 1 False 3 "undefined\<lparr>ni_symbol := ''ETHUSDT''\<rparr>"] e
    by (simp add: openingBlockers_def Let_def)
qed

end
