(* ===== verification/Confirm.thy ===== *)
theory Confirm imports DemoTypes begin

text \<open>
  Human confirmation (\<open>confirm.ts\<close>): the store of one-time tokens bound to a target and a content
  fingerprint, and the split of a chat workflow patch into keys that take effect, keys that are only
  proposed and keys that are refused. The clock readings and the random nonce of each call are
  arguments; the digest and the JSON printer behind a fingerprint are parameters.
\<close>

section \<open>Tokens\<close>

datatype confirm_kind = CK_intent | CK_workflow_proposal

record confirm_token =
  ct_nonce :: string
  ct_kind :: confirm_kind
  ct_target_id :: string
  ct_fingerprint :: string
  ct_issued_at :: int
  ct_expires_at :: int

definition CONFIRM_TTL_MS :: int where "CONFIRM_TTL_MS = 120000"

definition fingerprintOf :: "(string \<Rightarrow> string) \<Rightarrow> (json \<Rightarrow> string) \<Rightarrow> json \<Rightarrow> string" where
  "fingerprintOf sha256 stringify v = take 24 (sha256 (stringify v))"

text \<open>The token map, an insertion-ordered map by nonce.\<close>

type_synonym tokens = "(string \<times> confirm_token) list"

definition sweep :: "int \<Rightarrow> tokens \<Rightarrow> tokens" where
  "sweep now m = filter (\<lambda>(_, t). \<not> ct_expires_at t \<le> now) m"

text \<open>The clock is read three times while a token is issued.\<close>

definition issue :: "int \<times> int \<times> int \<Rightarrow> string \<Rightarrow> tokens \<Rightarrow> confirm_kind \<Rightarrow> string \<Rightarrow> string \<Rightarrow> confirm_token \<times> tokens" where
  "issue = (\<lambda>(n1, n2, n3) nonce m kind target fp.
     let t = \<lparr>ct_nonce = nonce, ct_kind = kind, ct_target_id = target, ct_fingerprint = fp, ct_issued_at = n2,
           ct_expires_at = n3 + CONFIRM_TTL_MS\<rparr>
     in (t, map_set (sweep n1 m) nonce t))"

datatype confirm_error = Confirm_required | Confirm_unknown | Confirm_expired | Confirm_mismatch_target
  | Confirm_mismatch_content

definition consume :: "int \<times> int \<Rightarrow> tokens \<Rightarrow> string option \<Rightarrow> confirm_kind \<Rightarrow> string \<Rightarrow> string \<Rightarrow> (confirm_error + unit) \<times> tokens" where
  "consume = (\<lambda>(n1, n2) m nonce kind target fp. (case nonce of
     None \<Rightarrow> (Inl Confirm_required, m)
   | Some k \<Rightarrow> if k = [] then (Inl Confirm_required, m)
     else let found = map_of m k; m' = sweep n1 m in (case found of
       None \<Rightarrow> (Inl Confirm_unknown, m')
     | Some t \<Rightarrow> if ct_expires_at t \<le> n2 then (Inl Confirm_expired, map_delete m' k)
         else if ct_kind t \<noteq> kind \<or> ct_target_id t \<noteq> target then (Inl Confirm_mismatch_target, m')
         else if ct_fingerprint t \<noteq> fp then (Inl Confirm_mismatch_content, m')
         else (Inr (), map_delete m' k))))"

section \<open>Workflow patches from the chat\<close>

definition DIRECT_WORKFLOW_KEYS :: "string list" where
  "DIRECT_WORKFLOW_KEYS = [''narrate'', ''info_every_ms'', ''heartbeat_every_ms'', ''review_every_close'', ''scan_mode'',
     ''fast_move_pct'']"

definition PROPOSAL_WORKFLOW_KEYS :: "string list" where
  "PROPOSAL_WORKFLOW_KEYS = [''watchlist'', ''watch_only'', ''timeframe'', ''playbook_text'', ''brain'', ''brain_model'',
     ''cheap_brain'', ''cheap_brain_model'']"

record split_patch =
  sp_direct :: "(string \<times> json) list"
  sp_proposal :: "(string \<times> json) list"
  sp_refused :: "string list"

text \<open>The entries of an object have distinct keys, so each goes to a fresh place of its part.\<close>

fun splitWorkflowPatch :: "(string \<times> json) list \<Rightarrow> split_patch" where
  "splitWorkflowPatch [] = \<lparr>sp_direct = [], sp_proposal = [], sp_refused = []\<rparr>"
| "splitWorkflowPatch ((k, v) # kvs) = (let r = splitWorkflowPatch kvs in
     if k \<in> set DIRECT_WORKFLOW_KEYS then r\<lparr>sp_direct := (k, v) # sp_direct r\<rparr>
     else if k \<in> set PROPOSAL_WORKFLOW_KEYS then r\<lparr>sp_proposal := (k, v) # sp_proposal r\<rparr>
     else if k = ''paused'' then
       (if v = JBool True then r\<lparr>sp_direct := (k, v) # sp_direct r\<rparr> else r\<lparr>sp_proposal := (k, v) # sp_proposal r\<rparr>)
     else r\<lparr>sp_refused := k # sp_refused r\<rparr>)"

datatype proposal_status = PS_pending | PS_applied | PS_rejected | PS_expired

record workflow_proposal =
  wp_id :: string
  wp_created_at :: int
  wp_expires_at :: int
  wp_status :: proposal_status
  wp_session_id :: "string option"
  wp_patch :: "(string \<times> json) list"
  wp_before :: "(string \<times> json) list"
  wp_after :: "(string \<times> json) list"
  wp_errors :: "string list"
  wp_resolved_at :: "int option"

definition PROPOSAL_TTL_MS :: int where "PROPOSAL_TTL_MS = 30 * 60000"

section \<open>The store as a one-shot store\<close>

datatype confirm_call = Issue "int \<times> int \<times> int" string confirm_kind string string
  | Consume "int \<times> int" "string option" confirm_kind string string

fun confirm_step :: "tokens \<Rightarrow> confirm_call \<Rightarrow> tokens" where
  "confirm_step m (Issue ns nonce kind target fp) = snd (issue ns nonce m kind target fp)"
| "confirm_step m (Consume ns nonce kind target fp) = snd (consume ns m nonce kind target fp)"

fun confirm_issues :: "confirm_call \<Rightarrow> string \<Rightarrow> bool" where
  "confirm_issues (Issue _ nonce _ _ _) k = (nonce = k)"
| "confirm_issues (Consume _ _ _ _ _) k = False"

fun confirm_spends :: "tokens \<Rightarrow> confirm_call \<Rightarrow> string \<Rightarrow> bool" where
  "confirm_spends m (Issue _ _ _ _ _) k = False"
| "confirm_spends m (Consume ns nonce kind target fp) k =
     (nonce = Some k \<and> fst (consume ns m nonce kind target fp) = Inr ())"

definition stored :: "tokens \<Rightarrow> string \<Rightarrow> bool" where
  "stored m k = (map_of m k \<noteq> None)"

lemma stored_sweep: "stored (sweep n m) k \<Longrightarrow> stored m k"
  unfolding stored_def sweep_def by (induction m) (auto split: if_splits)

lemma stored_delete: "stored (map_delete m k) j \<longleftrightarrow> j \<noteq> k \<and> stored m j"
  by (simp add: stored_def map_of_delete)

lemma consume_ok_iff: "fst (consume (n1, n2) m nonce kind target fp) = Inr () \<longleftrightarrow>
  (\<exists>k t. nonce = Some k \<and> k \<noteq> [] \<and> map_of m k = Some t \<and> n2 < ct_expires_at t \<and> ct_kind t = kind
     \<and> ct_target_id t = target \<and> ct_fingerprint t = fp)"
  by (auto simp: consume_def Let_def split: option.splits if_splits)

lemma consume_ok_store: "fst (consume (n1, n2) m (Some k) kind target fp) = Inr () \<Longrightarrow>
  snd (consume (n1, n2) m (Some k) kind target fp) = map_delete (sweep n1 m) k"
  by (auto simp: consume_def Let_def split: option.splits if_splits)

lemma consume_store_sub: "stored (snd (consume ns m nonce kind target fp)) j \<Longrightarrow> stored m j"
  by (auto simp: consume_def Let_def stored_delete dest: stored_sweep split: option.splits if_splits prod.splits)

lemma issue_store: "stored (snd (issue ns nonce m kind target fp)) j \<Longrightarrow> stored m j \<or> j = nonce"
proof (cases ns)
  case (fields a b c)
  assume "stored (snd (issue ns nonce m kind target fp)) j"
  then have "stored (sweep a m) j \<or> j = nonce"
    by (auto simp: fields issue_def Let_def stored_def map_of_set split: if_splits)
  then show ?thesis using stored_sweep by blast
qed

interpretation confirm: one_shot confirm_step stored confirm_issues confirm_spends
proof
  fix m e k
  show "stored m k" if "confirm_spends m e k"
    using that by (cases e) (auto simp: consume_ok_iff stored_def split: prod.splits)
  show "\<not> stored (confirm_step m e) k" if "confirm_spends m e k"
    using that by (cases e) (auto simp: consume_ok_store stored_delete)
  show "stored m k \<or> confirm_issues e k" if "stored (confirm_step m e) k"
    using that consume_store_sub issue_store by (cases e) fastforce+
qed

section \<open>Properties\<close>

text \<open>The successful consumptions of a nonce in a run of the store.\<close>

fun successes :: "tokens \<Rightarrow> confirm_call list \<Rightarrow> string \<Rightarrow> nat" where
  "successes m [] k = 0"
| "successes m (e # es) k = (if confirm_spends m e k then 1 else 0) + successes (confirm_step m e) es k"

lemma successes_spent: "successes m es k = confirm.spent m es k"
  by (induction es arbitrary: m) simp_all

lemma map_of_sweep:
  assumes "distinct (List.map fst m)"
  shows "map_of (sweep n m) k = (case map_of m k of Some t \<Rightarrow> if ct_expires_at t \<le> n then None else Some t | None \<Rightarrow> None)"
  using assms unfolding sweep_def
  by (induction m) (auto split: option.splits simp: map_of_eq_None_iff dest: map_of_SomeD)

lemma keys_disjoint:
  "k \<in> set DIRECT_WORKFLOW_KEYS \<Longrightarrow> k \<notin> set PROPOSAL_WORKFLOW_KEYS \<and> k \<noteq> ''paused''"
  "k \<in> set PROPOSAL_WORKFLOW_KEYS \<Longrightarrow> k \<noteq> ''paused''"
proof -
  have "list_all (\<lambda>k. k \<notin> set PROPOSAL_WORKFLOW_KEYS \<and> k \<noteq> ''paused'') DIRECT_WORKFLOW_KEYS"
    "list_all (\<lambda>k. k \<noteq> ''paused'') PROPOSAL_WORKFLOW_KEYS" by code_simp+
  then show "k \<in> set DIRECT_WORKFLOW_KEYS \<Longrightarrow> k \<notin> set PROPOSAL_WORKFLOW_KEYS \<and> k \<noteq> ''paused''"
    "k \<in> set PROPOSAL_WORKFLOW_KEYS \<Longrightarrow> k \<noteq> ''paused''" by (auto simp: list_all_iff)
qed

lemma split_direct: "(k, v) \<in> set (sp_direct (splitWorkflowPatch p)) \<longleftrightarrow>
    (k, v) \<in> set p \<and> (k \<in> set DIRECT_WORKFLOW_KEYS \<or> k = ''paused'' \<and> v = JBool True)"
  using keys_disjoint by (induction p rule: splitWorkflowPatch.induct) (auto simp: Let_def)

lemma split_proposal: "(k, v) \<in> set (sp_proposal (splitWorkflowPatch p)) \<longleftrightarrow>
    (k, v) \<in> set p \<and> (k \<in> set PROPOSAL_WORKFLOW_KEYS \<or> k = ''paused'' \<and> v \<noteq> JBool True)"
  using keys_disjoint by (induction p rule: splitWorkflowPatch.induct) (auto simp: Let_def)

text \<open>C12 Confirmation tokens are one-shot: over any run of issuing and consuming from an empty store, a nonce is
  consumed successfully at most as often as it was issued, whatever the clock readings, targets and contents.\<close>

theorem confirm_one_shot:
  "successes [] es k \<le> length (filter (\<lambda>e. confirm_issues e k) es)"
  using confirm.spent_le_issued [of "[]" es k] by (simp add: successes_spent stored_def)

text \<open>C13 A confirmation succeeds exactly for a non-empty nonce whose token is stored, unexpired, and bound to the
  same kind of action, the same target and the same content fingerprint.\<close>

theorem confirm_binding:
  "(fst (consume (n1, n2) m nonce kind target fp) = Inr ()) =
    (\<exists>k t. nonce = Some k \<and> k \<noteq> [] \<and> map_of m k = Some t \<and> n2 < ct_expires_at t \<and> ct_kind t = kind
      \<and> ct_target_id t = target \<and> ct_fingerprint t = fp)"
  by (rule consume_ok_iff)

text \<open>A failed confirmation consumes nothing: every token that has not expired at the clock readings of the call
  is still stored, unchanged, after a call that does not succeed.\<close>

theorem confirm_failure_keeps:
  assumes "distinct (List.map fst m)" "fst (consume (n1, n2) m nonce kind target fp) = Inl err"
    and "map_of m k = Some t" "n1 < ct_expires_at t" "n2 < ct_expires_at t"
  shows "map_of (snd (consume (n1, n2) m nonce kind target fp)) k = Some t"
proof -
  have k: "map_of (sweep n1 m) k = Some t" using assms(3,4) map_of_sweep [OF assms(1), of n1 k] by simp
  show ?thesis
  proof (cases "nonce = Some k \<and> k \<noteq> []")
    case True
    then show ?thesis using assms(2,3,5) k by (auto simp: consume_def Let_def split: if_splits)
  next
    case False
    then show ?thesis using assms(3) k
      by (auto simp: consume_def Let_def map_of_delete split: option.split)
  qed
qed

definition example_store :: tokens where
  "example_store = snd (issue (0, 0, 0) ''a1'' [] CK_intent ''int-1'' ''fp'')"

theorem confirm_failure_keeps_witness:
  "stored (snd (consume (5, 5) example_store (Some ''a1'') CK_intent ''int-2'' ''fp'')) ''a1''"
proof -
  let ?t = "\<lparr>ct_nonce = ''a1'', ct_kind = CK_intent, ct_target_id = ''int-1'', ct_fingerprint = ''fp'', ct_issued_at = 0,
    ct_expires_at = 120000\<rparr>"
  have st: "example_store = [(''a1'', ?t)]"
    by (simp add: example_store_def issue_def sweep_def CONFIRM_TTL_MS_def Let_def)
  have c: "fst (consume (5, 5) example_store (Some ''a1'') CK_intent ''int-2'' ''fp'') = Inl Confirm_mismatch_target"
    unfolding st by (simp add: consume_def Let_def)
  have d: "distinct (List.map fst example_store)" "map_of example_store ''a1'' = Some ?t" unfolding st by simp_all
  show ?thesis using confirm_failure_keeps [OF d(1) c d(2)] by (simp add: stored_def)
qed

end
