(* ===== verification/Gates.thy ===== *)
theory Gates imports Graph begin

text \<open>
  Code-side gates and position sizing (\<open>gates.ts\<close>): the checks an opening judgment has to pass and the
  quantity computed from equity, stop distance, exchange minima and liquidity. All arithmetic is double
  arithmetic on numbers read from decimal strings.
\<close>

section \<open>Gates\<close>

record gate_config =
  gc_risk_pct :: jsnum
  gc_max_notional_multiple :: jsnum
  gc_max_opens_per_day :: jsnum
  gc_min_stop_pct :: jsnum
  gc_max_stop_pct :: jsnum

definition DEFAULT_GATES :: gate_config where
  "DEFAULT_GATES = \<lparr>gc_risk_pct = lit (5/10), gc_max_notional_multiple = Fin 3, gc_max_opens_per_day = Fin 2,
     gc_min_stop_pct = lit (3/10), gc_max_stop_pct = Fin 5\<rparr>"

record gate_context =
  gx_halted :: bool
  gx_paused :: bool
  gx_account :: account_view
  gx_market :: market_view
  gx_opens_today :: int
  gx_stale_refs :: "string set"
  gx_now :: "int option"

definition MARKET_STALE_MS :: int where "MARKET_STALE_MS = 3 * 60000"

datatype gate_reason = GR_halted | GR_not_triggered | GR_paused | GR_running | GR_na | GR_snapshot_old jsnum
  | GR_cites_stale | GR_fresh | GR_has_position | GR_no_position | GR_opens int jsnum | GR_stop_side_ok direction
  | GR_stop_wrong string string | GR_stop_dist string jsnum jsnum | GR_pass | GR_tp_wrong string
  | GR_confidence string | GR_no_add

record gate_result =
  g_name :: gate_name
  g_passed :: bool
  g_reason :: gate_reason

definition gate :: "gate_name \<Rightarrow> bool \<Rightarrow> gate_reason \<Rightarrow> gate_result" where
  "gate n p r = \<lparr>g_name = n, g_passed = p, g_reason = r\<rparr>"

definition is_opening :: "judgement \<Rightarrow> bool" where
  "is_opening j = (j_action j = PROPOSE \<or> j_action j = ADD)"

text \<open>\<open>x && x.length\<close> on an optional string: present and not empty.\<close>

definition given :: "string option \<Rightarrow> bool" where
  "given s = (case s of None \<Rightarrow> False | Some t \<Rightarrow> t \<noteq> [])"

definition limit_of :: "proposal \<Rightarrow> jsnum option" where
  "limit_of p = (case p_limit_price p of None \<Rightarrow> None
     | Some s \<Rightarrow> if p_entry p = Limit \<and> s \<noteq> [] then Some (js_number s) else None)"

definition gate_ref :: "proposal \<Rightarrow> jsnum \<Rightarrow> jsnum" where
  "gate_ref p mark = (case limit_of p of None \<Rightarrow> mark
     | Some l \<Rightarrow> if p_direction p = Long then js_min l mark else js_max l mark)"

definition stop_dist_pct :: "jsnum \<Rightarrow> jsnum \<Rightarrow> jsnum" where
  "stop_dist_pct ref stop = (\<bar>ref - stop\<bar> / ref) * Fin 100"

definition proposal_gates :: "proposal \<Rightarrow> gate_context \<Rightarrow> gate_config \<Rightarrow> gate_result list" where
  "proposal_gates p ctx cfg = (
     let mark = js_number (mv_mark (gx_market ctx)); stop = js_number (p_stop_price p);
         ref = gate_ref p mark; dist = stop_dist_pct ref stop;
         sideOk = (if p_direction p = Long then stop < ref else ref < stop)
     in [gate N_stop_side sideOk (if sideOk then GR_stop_side_ok (p_direction p) else GR_stop_wrong (p_stop_price p) (to_fixed 1 ref)),
         gate N_stop_distance (gc_min_stop_pct cfg \<le> dist \<and> dist \<le> gc_max_stop_pct cfg)
           (GR_stop_dist (to_fixed 2 dist) (gc_min_stop_pct cfg) (gc_max_stop_pct cfg))]
      @ (case p_take_profit_price p of None \<Rightarrow> []
         | Some s \<Rightarrow> if s = [] then []
             else let tp = js_number s; tpOk = (if p_direction p = Long then ref < tp else tp < ref)
                  in [gate N_tp_side tpOk (if tpOk then GR_pass else GR_tp_wrong s)]))"

definition snapshot_age :: "gate_context \<Rightarrow> int" where
  "snapshot_age ctx = (case gx_now ctx of Some n \<Rightarrow> n - mv_as_of (gx_market ctx) | None \<Rightarrow> 0)"

definition evaluateGates :: "judgement \<Rightarrow> gate_context \<Rightarrow> gate_config \<Rightarrow> gate_result list" where
  "evaluateGates j ctx cfg = (
     let opn = is_opening j; age = snapshot_age ctx; snapshotStale = MARKET_STALE_MS < age;
         citesStale = list_ex (\<lambda>r. r \<in> gx_stale_refs ctx) (j_evidence_refs j)
     in [gate N_halt (\<not> (gx_halted ctx \<and> opn)) (if gx_halted ctx then GR_halted else GR_not_triggered),
         gate N_paused (\<not> (gx_paused ctx \<and> opn)) (if gx_paused ctx then GR_paused else GR_running),
         gate N_fresh_evidence (\<not> (opn \<and> (citesStale \<or> snapshotStale)))
           (if \<not> opn then GR_na else if snapshotStale then GR_snapshot_old (js_round (of_count age / Fin 1000))
            else if citesStale then GR_cites_stale else GR_fresh)]
      @ (if j_action j = PROPOSE then
           [gate N_no_position (av_positions (gx_account ctx) = [])
              (if av_positions (gx_account ctx) \<noteq> [] then GR_has_position else GR_no_position),
            gate N_daily_open_cap (of_count (gx_opens_today ctx) < gc_max_opens_per_day cfg)
              (GR_opens (gx_opens_today ctx) (gc_max_opens_per_day cfg))]
         @ (case j_proposal j of None \<Rightarrow> [] | Some p \<Rightarrow> proposal_gates p ctx cfg)
         @ [gate N_confidence_floor (lit (4/10) \<le> j_confidence j) (GR_confidence (to_fixed 2 (j_confidence j)))]
         else [])
      @ (if j_action j = ADD then [gate N_no_add False GR_no_add] else []))"

definition passes :: "gate_result list \<Rightarrow> bool" where
  "passes gs = list_all g_passed gs"

section \<open>Sizing\<close>

record symbol_rules =
  sr_step_size :: string
  sr_tick_size :: string
  sr_min_qty :: string
  sr_min_notional :: string

text \<open>\<open>(step.split('.')[1] ?? '').replace(/0+$/, '').length\<close>: significant decimals of a step.\<close>

definition step_decimals :: "string \<Rightarrow> nat" where
  "step_decimals s = (let r = dropWhile (\<lambda>c. c \<noteq> CHR ''.'') s;
      frac = (if r = [] then [] else takeWhile (\<lambda>c. c \<noteq> CHR ''.'') (tl r))
    in length (dropWhile (\<lambda>c. c = CHR ''0'') (rev frac)))"

definition floorToStep :: "jsnum \<Rightarrow> string \<Rightarrow> string" where
  "floorToStep qty step = (let s = js_number step in
     if \<not> Fin 0 < s then num_str qty
     else to_fixed (step_decimals step) (js_floor (qty / s + lit (1/10^9)) * s))"

datatype sizing_note = SN_notional_capped jsnum | SN_min_notional jsnum string | SN_liquidity | SN_below_min_qty
  | SN_below_min_notional | SN_over_max_notional jsnum string | SN_bad_data | SN_risk string string jsnum jsnum string
  | SN_default string string string

record sizing =
  sz_equity :: string
  sz_risk_pct :: string
  sz_risk_usdt :: string
  sz_stop_distance :: string
  sz_raw_qty :: string
  sz_step_size :: string
  sz_note :: "sizing_note list"

record sizing_options =
  so_liquidity_notional_cap :: "jsnum option"
  so_fixed_qty :: "string option"

definition no_options :: sizing_options where
  "no_options = \<lparr>so_liquidity_notional_cap = None, so_fixed_qty = None\<rparr>"

definition or_zero :: "string \<Rightarrow> jsnum" where
  "or_zero s = js_number (if s = [] then ''0'' else s)"

text \<open>The inputs of the sizing computation, read once.\<close>

record sizing_refs =
  q_symbol :: string
  q_equity :: jsnum
  q_ref :: jsnum
  q_notional_ref :: jsnum
  q_minimum_ref :: jsnum
  q_stop_dist :: jsnum
  q_risk :: jsnum
  q_max_notional :: jsnum
  q_min_notional :: jsnum
  q_liquidity :: jsnum

definition sizing_refs_of ::
  "proposal \<Rightarrow> account_view \<Rightarrow> market_view \<Rightarrow> symbol_rules \<Rightarrow> gate_config \<Rightarrow> sizing_options \<Rightarrow> sizing_refs" where
  "sizing_refs_of p account market rules cfg opts = (
     let equity = js_number (av_equity account); mark = js_number (mv_mark market);
         ref = (case limit_of p of None \<Rightarrow> mark | Some l \<Rightarrow> if p_direction p = Long then js_max l mark else js_min l mark)
     in \<lparr>q_symbol = mv_symbol market, q_equity = equity, q_ref = ref,
         q_notional_ref = (case limit_of p of None \<Rightarrow> mark | Some l \<Rightarrow> js_max l mark),
         q_minimum_ref = (case limit_of p of None \<Rightarrow> mark | Some l \<Rightarrow> js_min l mark),
         q_stop_dist = \<bar>ref - js_number (p_stop_price p)\<bar>,
         q_risk = equity * gc_risk_pct cfg / Fin 100,
         q_max_notional = equity * gc_max_notional_multiple cfg,
         q_min_notional = or_zero (sr_min_notional rules),
         q_liquidity = (case so_liquidity_notional_cap opts of None \<Rightarrow> PInf | Some c \<Rightarrow> c)\<rparr>)"

text \<open>The raw quantity: risk over stop distance, capped by notional, raised to the exchange minimum, capped by
  liquidity, in that order.\<close>

definition raw_quantity :: "sizing_refs \<Rightarrow> gate_config \<Rightarrow> jsnum \<times> sizing_note list" where
  "raw_quantity r cfg = (
     let q0 = (if Fin 0 < q_stop_dist r then q_risk r / q_stop_dist r else Fin 0);
         (q1, n1) = (if q_max_notional r < q0 * q_notional_ref r
            then (q_max_notional r / q_notional_ref r, [SN_notional_capped (gc_max_notional_multiple cfg)]) else (q0, []));
         (q2, n2) = (if Fin 0 < q_min_notional r \<and> q1 * q_minimum_ref r < q_min_notional r
            then (let q = q_min_notional r * lit (102/100) / q_minimum_ref r
                  in (q, n1 @ [SN_min_notional (q_min_notional r) (to_fixed 2 (q * q_stop_dist r))])) else (q1, n1))
     in if q_liquidity r < q2 * q_notional_ref r
        then (js_max (Fin 0) (q_liquidity r) / q_notional_ref r, n2 @ [SN_liquidity]) else (q2, n2))"

definition stepped_quantity :: "sizing_refs \<Rightarrow> jsnum \<Rightarrow> symbol_rules \<Rightarrow> sizing_options \<Rightarrow> string" where
  "stepped_quantity r raw rules opts = (
     let qty = floorToStep raw (sr_step_size rules);
         qty' = (if Fin 0 < q_min_notional r \<and> js_number qty * q_minimum_ref r < q_min_notional r
           then (let s = js_number (sr_step_size rules); step = (if num_truthy s then s else Fin 0)
                 in to_fixed (step_decimals (sr_step_size rules)) (js_number qty + step)) else qty)
     in case so_fixed_qty opts of Some f \<Rightarrow> f | None \<Rightarrow> qty')"

text \<open>The checks on the final quantity, each one skipped once an earlier one refused.\<close>

definition sizing_verdict :: "sizing_refs \<Rightarrow> jsnum \<Rightarrow> symbol_rules \<Rightarrow> gate_config \<Rightarrow> bool \<times> sizing_note list" where
  "sizing_verdict r q rules cfg = (
     let ok0 = (or_zero (sr_min_qty rules) \<le> q \<and> Fin 0 < q); n0 = (if ok0 then [] else [SN_below_min_qty]);
         bad1 = (ok0 \<and> q * q_minimum_ref r < q_min_notional r); ok1 = (ok0 \<and> \<not> bad1);
         n1 = (if bad1 then n0 @ [SN_below_min_notional] else n0);
         bad2 = (ok1 \<and> q_max_notional r * lit (10001/10000) < q * q_notional_ref r); ok2 = (ok1 \<and> \<not> bad2);
         n2 = (if bad2 then n1 @ [SN_over_max_notional (q_min_notional r) (to_fixed 2 (q_max_notional r))] else n1);
         bad3 = (ok2 \<and> (\<not> is_fin q \<or> \<not> is_fin (q_risk r) \<or> \<not> Fin 0 < q_equity r \<or> \<not> Fin 0 < q_stop_dist r
            \<or> \<not> Fin 0 < q_ref r \<or> \<not> Fin 0 < q_liquidity r \<or> q_liquidity r < q * q_notional_ref r));
         ok3 = (ok2 \<and> \<not> bad3); n3 = (if bad3 then n2 @ [SN_bad_data] else n2);
         bad4 = (ok3 \<and> q_risk r * lit (105/100) + lit (1/10^9) < q * q_stop_dist r);
         actual = q * q_stop_dist r;
         needed = js_ceil (actual * Fin 100 / gc_risk_pct cfg * Fin 100 - lit (1/10^9)) / Fin 100
     in (ok3 \<and> \<not> bad4,
         if bad4 then n3 @ [SN_risk (to_fixed 2 actual) (to_fixed 2 (q_risk r)) needed (gc_risk_pct cfg) (q_symbol r)] else n3))"

text \<open>The proposal is dereferenced without a check: on a judgment without one the code throws, here None.\<close>

definition computeSizing ::
  "judgement \<Rightarrow> account_view \<Rightarrow> market_view \<Rightarrow> symbol_rules \<Rightarrow> gate_config \<Rightarrow> sizing_options \<Rightarrow> (string \<times> sizing \<times> bool) option" where
  "computeSizing j account market rules cfg opts = (case j_proposal j of None \<Rightarrow> None | Some p \<Rightarrow>
     (let r = sizing_refs_of p account market rules cfg opts; (raw, notes) = raw_quantity r cfg;
          qty = stepped_quantity r raw rules opts;
          (ok, more) = sizing_verdict r (js_number qty) rules cfg; notes' = notes @ more
      in Some (qty, \<lparr>sz_equity = to_fixed 2 (q_equity r), sz_risk_pct = num_str (gc_risk_pct cfg),
           sz_risk_usdt = to_fixed 2 (q_risk r), sz_stop_distance = to_fixed 2 (q_stop_dist r),
           sz_raw_qty = to_fixed 6 raw, sz_step_size = sr_step_size rules,
           sz_note = (if notes' = [] then [SN_default (to_fixed 2 (q_risk r)) (to_fixed 2 (q_stop_dist r)) (to_fixed 4 raw)]
             else notes')\<rparr>, ok)))"

section \<open>Facts\<close>

lemma pos_mul_not_NaN: "Fin 0 < a \<Longrightarrow> is_fin a \<Longrightarrow> b \<noteq> NaN \<Longrightarrow> a * b \<noteq> NaN"
  by (cases a; cases b) auto

lemma pos_mul_not_NaN': "Fin 0 < a \<Longrightarrow> Fin 0 < b \<Longrightarrow> a * b \<noteq> NaN"
  by (cases a; cases b) auto

lemma not_less_le: "\<not> b < a \<Longrightarrow> a \<noteq> NaN \<Longrightarrow> b \<noteq> NaN \<Longrightarrow> a \<le> (b :: jsnum)"
  by (simp add: js_not_less)

lemma add_not_NaN: "is_fin a \<Longrightarrow> is_fin b \<Longrightarrow> a + b \<noteq> NaN"
  by (cases a; cases b) auto

lemma fin_mul_not_NaN: "is_fin a \<Longrightarrow> is_fin b \<Longrightarrow> a * b \<noteq> NaN"
  by (cases a; cases b) auto

lemma lit_fin: "\<bar>x\<bar> \<le> 1000 \<Longrightarrow> is_fin (lit x)"
proof -
  assume "\<bar>x\<bar> \<le> 1000"
  moreover have "dbl (Fin 1000)" "dbl (Fin (- 1000))" using dbl_int [of 1000] dbl_int [of "- 1000"] by simp_all
  ultimately have "lit x \<le> Fin 1000" "Fin (- 1000) \<le> lit x" by (intro rnd_le rnd_ge; simp)+
  then show "is_fin (lit x)" by (cases "lit x") auto
qed

text \<open>Accepted quantities, before the numbers that were never compared as NaN are ruled out.\<close>

lemma verdict_ok:
  assumes "fst (sizing_verdict r q rules cfg)"
  shows "or_zero (sr_min_qty rules) \<le> q" "Fin 0 < q" "is_fin q" "\<not> q * q_minimum_ref r < q_min_notional r"
    "\<not> q_max_notional r * lit (10001/10000) < q * q_notional_ref r" "is_fin (q_risk r)" "Fin 0 < q_equity r"
    "Fin 0 < q_stop_dist r" "Fin 0 < q_ref r" "Fin 0 < q_liquidity r" "\<not> q_liquidity r < q * q_notional_ref r"
    "\<not> q_risk r * lit (105/100) + lit (1/10^9) < q * q_stop_dist r"
  using assms unfolding sizing_verdict_def Let_def fst_conv by blast+

lemma refs_not_NaN:
  assumes "q_ref (sizing_refs_of p acc mkt rules cfg opts) \<noteq> NaN"
  shows "q_notional_ref (sizing_refs_of p acc mkt rules cfg opts) \<noteq> NaN"
    "q_minimum_ref (sizing_refs_of p acc mkt rules cfg opts) \<noteq> NaN"
  using assms by (auto simp: sizing_refs_of_def Let_def split: option.splits if_splits)

lemma finite_equity:
  assumes "is_fin (e * m / Fin 100)" "Fin 0 < e" "m2 \<noteq> NaN"
  shows "e * m2 \<noteq> NaN"
  using assms by (cases e; cases m; cases m2) (auto split: if_splits)

lemma computeSizing_ok:
  assumes "computeSizing j acc mkt rules cfg opts = Some (qty, sz, True)" "j_proposal j = Some p"
  shows "fst (sizing_verdict (sizing_refs_of p acc mkt rules cfg opts) (js_number qty) rules cfg)"
  using assms by (auto simp: computeSizing_def Let_def split: prod.splits)

lemma js_mul_scaled_not_NaN: "a \<noteq> NaN \<Longrightarrow> 0 < x \<Longrightarrow> a * Fin x \<noteq> NaN"
  by (cases a) auto

lemma lit_10001: "lit (10001/10000) \<noteq> NaN \<and> (\<exists>x. lit (10001/10000) = Fin x \<and> 1 \<le> x)"
proof -
  have "is_fin (lit (10001/10000))" by (rule lit_fin) simp
  then obtain x where x: "lit (10001/10000) = Fin x" by (auto simp: is_fin_iff)
  have "Fin 1 \<le> lit (10001/10000)" by (rule rnd_ge) simp_all
  then show ?thesis using x by simp
qed

section \<open>Properties\<close>


definition example_proposal :: proposal where
  "example_proposal = \<lparr>p_direction = Long, p_entry = Market, p_limit_price = None, p_entry_zone = None,
     p_stop_price = ''95'', p_take_profit_price = Some ''110'', p_take_profits = [''110''], p_rationale = ''r''\<rparr>"

definition example_judgement :: judgement where
  "example_judgement = \<lparr>j_action = PROPOSE, j_direction = Some Long, j_confidence = Fin (1/2), j_headline = ''h'', j_thesis = ''t'',
     j_reasons = [], j_evidence_refs = [''E1''], j_invalidation = None, j_invalidation_price = None, j_target_price = None,
     j_watch_conditions = [], j_proposal = Some example_proposal, j_strategy_id = None\<rparr>"

definition example_account :: account_view where
  "example_account = \<lparr>av_backend = PaperB, av_equity = ''1000'', av_available = ''1000'', av_unrealized_pnl = ''0'',
     av_positions = [], av_open_orders = [], av_as_of = 0\<rparr>"

definition example_market :: market_view where
  "example_market = \<lparr>mv_symbol = ''BTCUSDT'', mv_last = ''100'', mv_mark = ''100'', mv_funding_rate = ''0'',
     mv_next_funding_at = 0, mv_open_interest = ''0'', mv_as_of = 0, mv_klines_tf = ''15m''\<rparr>"

definition example_rules :: symbol_rules where
  "example_rules = \<lparr>sr_step_size = ''0.5'', sr_tick_size = ''0.5'', sr_min_qty = ''0.5'', sr_min_notional = ''5''\<rparr>"

lemma example_sizing:
  "(case computeSizing example_judgement example_account example_market example_rules DEFAULT_GATES no_options of
     Some (qty, _, ok) \<Rightarrow> qty = ''1.0'' \<and> ok | None \<Rightarrow> False)"
  by code_simp



lemma proposal_gate_names:
  "set (List.map g_name (proposal_gates p ctx cfg)) \<subseteq> {N_stop_side, N_stop_distance, N_tp_side}"
  by (auto simp: proposal_gates_def gate_def Let_def split: option.splits if_splits)

lemma gate_names:
  "set (List.map g_name (evaluateGates j ctx cfg)) \<subseteq> {N_halt, N_paused, N_fresh_evidence, N_no_position,
     N_daily_open_cap, N_stop_side, N_stop_distance, N_tp_side, N_confidence_floor, N_no_add}"
  using proposal_gate_names by (fastforce simp: evaluateGates_def gate_def Let_def split: option.splits if_splits)

lemma guard_of_gate:
  "n \<in> {N_halt, N_paused, N_fresh_evidence, N_no_position, N_daily_open_cap, N_stop_side, N_stop_distance, N_tp_side,
     N_confidence_floor} \<Longrightarrow> \<exists>i. guardIdForGate n JUDGMENT_GRAPH = Some i \<and> i \<in> set OPEN_GUARDS"
  "guardIdForGate N_no_add JUDGMENT_GRAPH = Some Gd_no_add"
  by (auto simp: guardIdForGate_def JUDGMENT_GRAPH_def GUARDS_def OPEN_GUARDS_def)

text \<open>Every gate the code evaluates is a guard of the judgment graph: for a proposal, each evaluated gate name maps
  to one of the guards written on the edge that opens a thread.\<close>

theorem gates_are_graph_guards:
  "set (guardsFromGates (List.map g_name (evaluateGates j ctx cfg)) JUDGMENT_GRAPH) \<subseteq>
     Inl ` (set OPEN_GUARDS \<union> (if j_action j = ADD then {Gd_no_add} else {}))"
proof
  fix x
  assume "x \<in> set (guardsFromGates (List.map g_name (evaluateGates j ctx cfg)) JUDGMENT_GRAPH)"
  then obtain n where n: "n \<in> set (List.map g_name (evaluateGates j ctx cfg))"
    "x = (case guardIdForGate n JUDGMENT_GRAPH of Some i \<Rightarrow> Inl i | None \<Rightarrow> Inr n)"
    by (auto simp: guardsFromGates_def)
  show "x \<in> Inl ` (set OPEN_GUARDS \<union> (if j_action j = ADD then {Gd_no_add} else {}))"
  proof (cases "n = N_no_add")
    case True
    have "j_action j = ADD"
      using n(1) True by (auto simp: evaluateGates_def proposal_gates_def gate_def Let_def split: option.splits if_splits)
    then show ?thesis using n True guard_of_gate(2) by simp
  next
    case False
    then obtain i where "guardIdForGate n JUDGMENT_GRAPH = Some i" "i \<in> set OPEN_GUARDS"
      using n(1) gate_names [of j ctx cfg] guard_of_gate(1) [of n] by blast
    then show ?thesis using n(2) by simp
  qed
qed

end
