(* ===== verification/BrainQ.thy ===== *)
theory BrainQ imports DemoTypes "HOL-Library.Multiset" begin

text \<open>
  The brain queue (\<open>queue.ts\<close>): one model call at a time, jobs deduplicated by key, first in first out
  unless a job has priority. A job's body is the environment: its end (return or throw, the code treats them
  alike), its progress reports and the enqueue calls it makes are events of the queue.
\<close>

section \<open>State and operations\<close>

datatype job_kind = Job_scan | Job_review | Job_info | Job_chat | Job_manual

datatype episode_step = St_fetching | St_context | St_thinking | St_validating | St_gating | St_executing | St_done

record job =
  jb_key :: string
  jb_kind :: job_kind
  jb_symbol :: "string option"

record queue_view =
  qv_pending :: nat
  qv_running :: "(job_kind \<times> string option \<times> episode_step option \<times> string option) option"

text \<open>\<open>bq_views\<close> collects what \<open>onChange\<close> was called with, newest last.\<close>

record brain_queue =
  bq_pending :: "job list"
  bq_running :: "job option"
  bq_step :: "episode_step option"
  bq_episode :: "string option"
  bq_views :: "queue_view list"

definition new_queue :: brain_queue where
  "new_queue = \<lparr>bq_pending = [], bq_running = None, bq_step = None, bq_episode = None, bq_views = []\<rparr>"

definition view :: "brain_queue \<Rightarrow> queue_view" where
  "view q = \<lparr>qv_pending = length (bq_pending q),
     qv_running = map_option (\<lambda>j. (jb_kind j, jb_symbol j, bq_step q, bq_episode q)) (bq_running q)\<rparr>"

definition onChange :: "brain_queue \<Rightarrow> brain_queue" where
  "onChange q = q\<lparr>bq_views := bq_views q @ [view q]\<rparr>"

definition progress :: "episode_step option \<Rightarrow> string option \<Rightarrow> brain_queue \<Rightarrow> brain_queue" where
  "progress step ep q = onChange (q\<lparr>bq_step := step,
     bq_episode := (case ep of Some e \<Rightarrow> if e \<noteq> [] then Some e else bq_episode q | None \<Rightarrow> bq_episode q)\<rparr>)"

definition isBusy :: "string \<Rightarrow> brain_queue \<Rightarrow> bool" where
  "isBusy k q = ((case bq_running q of Some j \<Rightarrow> jb_key j = k | None \<Rightarrow> False) \<or> list_ex (\<lambda>j. jb_key j = k) (bq_pending q))"

text \<open>\<open>drain\<close> up to the point where it waits for the job.\<close>

definition drain :: "brain_queue \<Rightarrow> brain_queue" where
  "drain q = (if bq_running q \<noteq> None then q else (case bq_pending q of [] \<Rightarrow> q
     | j # js \<Rightarrow> onChange (q\<lparr>bq_pending := js, bq_running := Some j, bq_step := None, bq_episode := None\<rparr>)))"

definition enqueue :: "job \<Rightarrow> bool \<Rightarrow> brain_queue \<Rightarrow> bool \<times> brain_queue" where
  "enqueue job priority q = (
     if (case bq_running q of Some j \<Rightarrow> jb_key j = jb_key job | None \<Rightarrow> False)
        \<or> list_ex (\<lambda>j. jb_key j = jb_key job) (bq_pending q) then (False, q)
     else (True, drain (onChange (q\<lparr>bq_pending :=
        (if priority then job # bq_pending q else bq_pending q @ [job])\<rparr>))))"

text \<open>The \<open>finally\<close> block, when the running job's promise settles.\<close>

definition finish :: "brain_queue \<Rightarrow> brain_queue" where
  "finish q = drain (onChange (q\<lparr>bq_running := None, bq_step := None, bq_episode := None\<rparr>))"

section \<open>Runs\<close>

text \<open>A finish event can only come from a running job.\<close>

datatype queue_event = Enqueue job bool | Progress "episode_step option" "string option" | Finish

fun queue_step :: "brain_queue \<Rightarrow> queue_event \<Rightarrow> brain_queue" where
  "queue_step q (Enqueue j p) = snd (enqueue j p q)"
| "queue_step q (Progress s e) = progress s e q"
| "queue_step q Finish = (if bq_running q = None then q else finish q)"

definition accepted :: "brain_queue \<Rightarrow> queue_event \<Rightarrow> job list" where
  "accepted q e = (case e of Enqueue j p \<Rightarrow> if fst (enqueue j p q) then [j] else [] | _ \<Rightarrow> [])"

text \<open>The job a step starts: the one running afterwards, when none ran before or the running one just ended.\<close>

definition begun :: "brain_queue \<Rightarrow> queue_event \<Rightarrow> job list" where
  "begun q e = (if bq_running q = None \<or> e = Finish
     then (case bq_running (queue_step q e) of Some j \<Rightarrow> [j] | None \<Rightarrow> []) else [])"

fun accepted_run :: "brain_queue \<Rightarrow> queue_event list \<Rightarrow> job list" where
  "accepted_run q [] = []"
| "accepted_run q (e # es) = accepted q e @ accepted_run (queue_step q e) es"

fun begun_run :: "brain_queue \<Rightarrow> queue_event list \<Rightarrow> job list" where
  "begun_run q [] = []"
| "begun_run q (e # es) = begun q e @ begun_run (queue_step q e) es"

definition idle_empty :: "brain_queue \<Rightarrow> bool" where
  "idle_empty q = (bq_running q = None \<longrightarrow> bq_pending q = [])"

definition queue_keys :: "brain_queue \<Rightarrow> string list" where
  "queue_keys q = List.map jb_key ((case bq_running q of Some j \<Rightarrow> [j] | None \<Rightarrow> []) @ bq_pending q)"

lemmas queue_defs = enqueue_def finish_def progress_def drain_def onChange_def Let_def

lemma onChange_sel [simp]: "bq_pending (onChange q) = bq_pending q" "bq_running (onChange q) = bq_running q"
  "bq_step (onChange q) = bq_step q" "bq_episode (onChange q) = bq_episode q"
  by (simp_all add: onChange_def)

lemma drain_idle_empty: "idle_empty (drain q)"
  by (simp add: idle_empty_def drain_def split: list.split)

lemma step_idle_empty: "idle_empty q \<Longrightarrow> idle_empty (queue_step q e)"
  by (cases e) (auto simp: enqueue_def finish_def drain_idle_empty, auto simp: idle_empty_def progress_def)

lemma drain_keys: "queue_keys (drain q) = queue_keys q"
  by (auto simp: queue_keys_def drain_def split: list.split option.split)

lemma step_distinct: "distinct (queue_keys q) \<Longrightarrow> distinct (queue_keys (queue_step q e))"
proof (cases e)
  case (Enqueue j p)
  assume "distinct (queue_keys q)"
  then show ?thesis
    by (auto simp: Enqueue enqueue_def drain_keys) (auto simp: queue_keys_def list_ex_iff split: option.splits)
next
  case (Progress s x)
  assume "distinct (queue_keys q)"
  then show ?thesis by (simp add: Progress progress_def queue_keys_def)
next
  case Finish
  assume "distinct (queue_keys q)"
  then show ?thesis by (auto simp: Finish finish_def drain_keys) (auto simp: queue_keys_def split: option.splits)
qed

text \<open>One step moves jobs from the accepted ones through the pending list to the started ones.\<close>

lemma step_order:
  assumes "idle_empty q" "\<And>j p. e = Enqueue j p \<Longrightarrow> \<not> p"
  shows "begun q e @ bq_pending (queue_step q e) = bq_pending q @ accepted q e"
proof (cases e)
  case (Enqueue j p)
  then show ?thesis using assms
    by (cases "bq_running q")
      (auto simp: begun_def accepted_def enqueue_def drain_def idle_empty_def split: list.split)
next
  case Finish
  then show ?thesis by (auto simp: begun_def accepted_def finish_def drain_def split: list.split option.split)
qed (use assms in \<open>auto simp: begun_def accepted_def progress_def idle_empty_def split: option.split\<close>)

lemma step_conserves:
  assumes "idle_empty q"
  shows "mset (begun q e) + mset (bq_pending (queue_step q e)) = mset (bq_pending q) + mset (accepted q e)"
proof (cases e)
  case (Enqueue j p)
  then show ?thesis using assms
    by (cases "bq_running q"; cases p)
      (auto simp: begun_def accepted_def enqueue_def drain_def idle_empty_def split: list.split)
next
  case Finish
  then show ?thesis by (auto simp: begun_def accepted_def finish_def drain_def split: list.split option.split)
qed (use assms in \<open>auto simp: begun_def accepted_def progress_def idle_empty_def split: option.split\<close>)

lemma reachable_idle_empty: "idle_empty (foldl queue_step new_queue es)"
proof -
  have "idle_empty q \<Longrightarrow> idle_empty (foldl queue_step q es)" for q
    by (induction es arbitrary: q) (simp_all add: step_idle_empty)
  then show ?thesis by (simp add: idle_empty_def new_queue_def)
qed

section \<open>Properties\<close>

text \<open>At any time no two jobs of the queue, running or pending, share a key, and jobs only wait while another
  one runs.\<close>

theorem queue_keys_unique:
  "distinct (queue_keys (foldl queue_step new_queue es)) \<and>
   (bq_running (foldl queue_step new_queue es) \<noteq> None) = (queue_keys (foldl queue_step new_queue es) \<noteq> [])"
proof
  have "distinct (queue_keys q) \<Longrightarrow> distinct (queue_keys (foldl queue_step q es))" for q
    by (induction es arbitrary: q) (simp_all add: step_distinct)
  then show "distinct (queue_keys (foldl queue_step new_queue es))" by (simp add: queue_keys_def new_queue_def)
  show "(bq_running (foldl queue_step new_queue es) \<noteq> None) = (queue_keys (foldl queue_step new_queue es) \<noteq> [])"
    using reachable_idle_empty [of es] by (auto simp: idle_empty_def queue_keys_def split: option.splits)
qed

text \<open>No job is lost or run twice: over any run the accepted jobs are, with multiplicity, exactly the jobs that
  were started and the jobs still waiting, even when jobs jump the queue or fail.\<close>

theorem queue_conserves_jobs:
  "mset (accepted_run new_queue es) =
   mset (begun_run new_queue es) + mset (bq_pending (foldl queue_step new_queue es))"
proof -
  have "idle_empty q \<Longrightarrow> mset (bq_pending q) + mset (accepted_run q es) =
      mset (begun_run q es) + mset (bq_pending (foldl queue_step q es))" for q
  proof (induction es arbitrary: q)
    case (Cons e es)
    then show ?case using step_conserves [OF Cons.prems, of e] Cons.IH [OF step_idle_empty [OF Cons.prems, of e]]
      by (simp add: ac_simps) (metis add.assoc add.commute)
  qed simp
  from this [of new_queue] show ?thesis by (simp add: idle_empty_def new_queue_def)
qed

text \<open>Without priority jobs the queue is first in, first out: jobs start in the order in which they were
  accepted, and the waiting list is the rest of that order.\<close>

theorem queue_fifo:
  assumes "list_all (\<lambda>e. case e of Enqueue j p \<Rightarrow> \<not> p | _ \<Rightarrow> True) es"
  shows "accepted_run new_queue es = begun_run new_queue es @ bq_pending (foldl queue_step new_queue es)"
proof -
  have "idle_empty q \<Longrightarrow> list_all (\<lambda>e. case e of Enqueue j p \<Rightarrow> \<not> p | _ \<Rightarrow> True) es \<Longrightarrow>
      bq_pending q @ accepted_run q es = begun_run q es @ bq_pending (foldl queue_step q es)" for q
  proof (induction es arbitrary: q)
    case (Cons e es)
    have "begun q e @ bq_pending (queue_step q e) = bq_pending q @ accepted q e"
      using Cons.prems by (intro step_order) auto
    then show ?case using Cons.IH [OF step_idle_empty [OF Cons.prems(1), of e]] Cons.prems(2)
      by (simp flip: append_assoc) (metis append_assoc)
  qed simp
  from this [of new_queue] assms show ?thesis by (simp add: idle_empty_def new_queue_def)
qed

definition example_job :: "string \<Rightarrow> job" where
  "example_job k = \<lparr>jb_key = k, jb_kind = Job_scan, jb_symbol = None\<rparr>"

theorem queue_fifo_witness:
  "accepted_run new_queue [Enqueue (example_job ''a'') False, Enqueue (example_job ''b'') False, Finish]
   = begun_run new_queue [Enqueue (example_job ''a'') False, Enqueue (example_job ''b'') False, Finish]
     @ bq_pending (foldl queue_step new_queue [Enqueue (example_job ''a'') False, Enqueue (example_job ''b'') False, Finish])"
  by (rule queue_fifo) simp

end
