(* ===== verification/Outcome.thy ===== *)
theory Outcome imports DemoTypes begin

text \<open>
  Outcome simulation (\<open>outcome.ts\<close>): what happened to a trade on the bars after a judgment. The walk
  \<open>openTrade\<close>/\<open>stepTrade\<close> and the one-shot \<open>simulateOutcome\<close> built on it, with their conventions: the stop
  wins a bar that touches both levels, gaps exit at the open, an unresolved trade closes at the last close.
\<close>

section \<open>Types\<close>

datatype outcome_status = OS_stop | OS_tp | OS_expired | OS_unfilled | OS_invalid

datatype outcome_note = ON_no_bars | ON_no_limit | ON_not_touched | ON_stop_wrong_side jsnum jsnum | ON_both
  | ON_gap_stop | ON_stop | ON_gap_tp | ON_tp | ON_expired

record outcome_input =
  oi_direction :: direction
  oi_entry :: entry_kind
  oi_limit_price :: "jsnum option"
  oi_stop :: jsnum
  oi_tp :: "jsnum option"
  oi_bars :: "kline list"

text \<open>The numbers of a filled trade; a trade that never filled has none of them.\<close>

record filled_outcome =
  fo_fill_price :: jsnum
  fo_fill_bar :: nat
  fo_exit_price :: jsnum
  fo_exit_bar :: nat
  fo_stop_distance :: jsnum
  fo_r :: jsnum
  fo_mae_r :: jsnum
  fo_mfe_r :: jsnum
  fo_bars_held :: int

record outcome =
  oc_status :: outcome_status
  oc_filled :: "filled_outcome option"
  oc_note :: outcome_note

definition none :: "outcome_status \<Rightarrow> outcome_note \<Rightarrow> outcome" where
  "none st note = \<lparr>oc_status = st, oc_filled = None, oc_note = note\<rparr>"

record open_trade =
  ot_direction :: direction
  ot_fill_price :: jsnum
  ot_stop :: jsnum
  ot_tp :: "jsnum option"
  ot_stop_distance :: jsnum
  ot_mae_r :: jsnum
  ot_mfe_r :: jsnum
  ot_bars_held :: int

section \<open>Walking a trade\<close>

definition sgn_dir :: "direction \<Rightarrow> jsnum" where
  "sgn_dir d = (if d = Long then Fin 1 else Fin (- 1))"

definition openTrade :: "direction \<Rightarrow> jsnum \<Rightarrow> jsnum \<Rightarrow> jsnum option \<Rightarrow> open_trade option" where
  "openTrade d fill stop tp = (let dist = sgn_dir d * (fill - stop) in
     if \<not> Fin 0 < dist then None
     else Some \<lparr>ot_direction = d, ot_fill_price = fill, ot_stop = stop, ot_tp = tp, ot_stop_distance = dist,
       ot_mae_r = Fin 0, ot_mfe_r = Fin 0, ot_bars_held = 0\<rparr>)"

definition tradeR :: "open_trade \<Rightarrow> jsnum \<Rightarrow> jsnum" where
  "tradeR t px = sgn_dir (ot_direction t) * (px - ot_fill_price t) / ot_stop_distance t"

record trade_exit =
  te_price :: jsnum
  te_status :: outcome_status
  te_note :: outcome_note

text \<open>The trade is updated in place; here the updated trade is returned with the step.\<close>

definition stepTrade :: "open_trade \<Rightarrow> kline \<Rightarrow> open_trade \<times> trade_exit option" where
  "stepTrade t bar = (
     let o' = js_number (k_open bar); h = js_number (k_high bar); l = js_number (k_low bar);
         long = (ot_direction t = Long);
         adverse = (if long then l else h); favorable = (if long then h else l);
         t' = t\<lparr>ot_bars_held := ot_bars_held t + 1, ot_mae_r := js_min (ot_mae_r t) (tradeR t adverse),
             ot_mfe_r := js_max (ot_mfe_r t) (tradeR t favorable)\<rparr>;
         hitStop = (if long then l \<le> ot_stop t else ot_stop t \<le> h);
         hitTp = (case ot_tp t of None \<Rightarrow> False | Some p \<Rightarrow> if long then p \<le> h else l \<le> p)
     in (t', if hitStop then
          (let gapped = (if long then o' < ot_stop t else ot_stop t < o') in
           Some \<lparr>te_price = (if gapped then o' else ot_stop t), te_status = OS_stop,
             te_note = (if hitTp then ON_both else if gapped then ON_gap_stop else ON_stop)\<rparr>)
        else (case ot_tp t of None \<Rightarrow> None | Some p \<Rightarrow> if \<not> hitTp then None
          else (let gapped = (if long then p < o' else o' < p) in
            Some \<lparr>te_price = (if gapped then o' else p), te_status = OS_tp,
              te_note = (if gapped then ON_gap_tp else ON_tp)\<rparr>))))"

fun limit_fill :: "direction \<Rightarrow> jsnum \<Rightarrow> nat \<Rightarrow> kline list \<Rightarrow> (nat \<times> jsnum) option" where
  "limit_fill d lm i [] = None"
| "limit_fill d lm i (b # bs) = (
     let touched = (if d = Long then js_number (k_low b) \<le> lm else lm \<le> js_number (k_high b)) in
     if \<not> touched then limit_fill d lm (Suc i) bs
     else Some (i, if d = Long then js_min (js_number (k_open b)) lm else js_max (js_number (k_open b)) lm))"

definition findFill :: "direction \<Rightarrow> entry_kind \<Rightarrow> jsnum option \<Rightarrow> kline list \<Rightarrow> (nat \<times> jsnum) option" where
  "findFill d entry lm bars = (case bars of [] \<Rightarrow> None
     | b # _ \<Rightarrow> if entry = Market then Some (0, js_number (k_open b))
       else (case lm of None \<Rightarrow> None | Some p \<Rightarrow> limit_fill d p 0 bars))"

text \<open>The loop from the fill bar: the first bar that closes the trade, with the trade at that point.\<close>

fun walk :: "open_trade \<Rightarrow> nat \<Rightarrow> kline list \<Rightarrow> open_trade \<times> (nat \<times> trade_exit) option" where
  "walk t i [] = (t, None)"
| "walk t i (b # bs) = (case stepTrade t b of (t', Some e) \<Rightarrow> (t', Some (i, e)) | (t', None) \<Rightarrow> walk t' (Suc i) bs)"

definition close_out :: "nat \<times> jsnum \<Rightarrow> open_trade \<Rightarrow> nat \<Rightarrow> jsnum \<Rightarrow> filled_outcome" where
  "close_out fill t i px = \<lparr>fo_fill_price = snd fill, fo_fill_bar = fst fill, fo_exit_price = px, fo_exit_bar = i,
     fo_stop_distance = ot_stop_distance t, fo_r = tradeR t px, fo_mae_r = ot_mae_r t, fo_mfe_r = ot_mfe_r t,
     fo_bars_held = ot_bars_held t\<rparr>"

definition simulateOutcome :: "outcome_input \<Rightarrow> outcome" where
  "simulateOutcome inp = (let bars = oi_bars inp in
     if bars = [] then none OS_invalid ON_no_bars
     else if oi_entry inp = Limit \<and> oi_limit_price inp = None then none OS_invalid ON_no_limit
     else (case findFill (oi_direction inp) (oi_entry inp) (oi_limit_price inp) bars of
       None \<Rightarrow> none OS_unfilled ON_not_touched
     | Some fill \<Rightarrow> (case openTrade (oi_direction inp) (snd fill) (oi_stop inp) (oi_tp inp) of
         None \<Rightarrow> none OS_invalid (ON_stop_wrong_side (oi_stop inp) (snd fill))
       | Some t \<Rightarrow> (case walk t (fst fill) (drop (fst fill) bars) of
           (t', Some (i, e)) \<Rightarrow> \<lparr>oc_status = te_status e, oc_filled = Some (close_out fill t' i (te_price e)), oc_note = te_note e\<rparr>
         | (t', None) \<Rightarrow> \<lparr>oc_status = OS_expired,
             oc_filled = Some (close_out fill t' (length bars - 1) (js_number (k_close (last bars)))), oc_note = ON_expired\<rparr>))))"

definition missedMove :: "jsnum \<Rightarrow> jsnum \<Rightarrow> kline list \<Rightarrow> (jsnum \<times> jsnum \<times> jsnum) option" where
  "missedMove p0 a bars = (if bars = [] \<or> \<not> Fin 0 < a then None
     else let hi = foldl (\<lambda>m b. js_max m (js_number (k_high b))) NInf bars;
              lo = foldl (\<lambda>m b. js_min m (js_number (k_low b))) PInf bars;
              up = (hi - p0) / a; down = (p0 - lo) / a
          in Some (up, down, js_max up down))"

section \<open>Bars and the walk\<close>

text \<open>A well-formed bar: finite prices with open and close between low and high.\<close>

definition bar_ok :: "kline \<Rightarrow> bool" where
  "bar_ok b = (let o' = js_number (k_open b); h = js_number (k_high b); l = js_number (k_low b); c = js_number (k_close b) in
     is_fin o' \<and> is_fin h \<and> is_fin l \<and> is_fin c \<and> l \<le> o' \<and> o' \<le> h \<and> l \<le> c \<and> c \<le> h)"

definition in_bar :: "jsnum \<Rightarrow> kline \<Rightarrow> bool" where
  "in_bar p b = (js_number (k_low b) \<le> p \<and> p \<le> js_number (k_high b))"

lemma min_in: "is_fin a \<Longrightarrow> b \<noteq> NaN \<Longrightarrow> js_min a b \<le> a" "js_max a b \<noteq> NaN \<Longrightarrow> a \<le> js_max a b"
  by (auto intro: js_min_le [THEN conjunct1] js_max_ge [THEN conjunct1])

lemma between:
  "a \<le> s \<Longrightarrow> \<not> x < s \<Longrightarrow> x \<le> b \<Longrightarrow> s \<le> (b :: jsnum)" "s \<le> b \<Longrightarrow> \<not> s < x \<Longrightarrow> a \<le> x \<Longrightarrow> a \<le> (s :: jsnum)"
  by (cases s; cases x; cases a; cases b; simp)+

lemma exit_price:
  assumes "stepTrade t b = (t', Some e)" "bar_ok b"
  shows "in_bar (te_price e) b"
proof -
  let ?o = "js_number (k_open b)" and ?h = "js_number (k_high b)" and ?l = "js_number (k_low b)"
  have o: "?l \<le> ?o" "?o \<le> ?h" using assms(2) by (simp_all add: bar_ok_def Let_def)
  show ?thesis
  proof (cases "ot_direction t = Long")
    case True
    show ?thesis
    proof (cases "?l \<le> ot_stop t")
      case hit: True
      have "te_price e = (if ?o < ot_stop t then ?o else ot_stop t)"
        using assms(1) True hit by (auto simp: stepTrade_def Let_def)
      then show ?thesis using o hit between(1) [of ?l "ot_stop t" ?o ?h] by (auto simp: in_bar_def)
    next
      case False
      then obtain p where "ot_tp t = Some p" "p \<le> ?h" "te_price e = (if p < ?o then ?o else p)"
        using assms(1) True by (auto simp: stepTrade_def Let_def split: option.splits if_splits)
      then show ?thesis using o between(2) [of p ?h ?o ?l] by (auto simp: in_bar_def)
    qed
  next
    case False
    show ?thesis
    proof (cases "ot_stop t \<le> ?h")
      case hit: True
      have "te_price e = (if ot_stop t < ?o then ?o else ot_stop t)"
        using assms(1) False hit by (auto simp: stepTrade_def Let_def)
      then show ?thesis using o hit between(2) [of "ot_stop t" ?h ?o ?l] by (auto simp: in_bar_def)
    next
      case nohit: False
      then obtain p where "ot_tp t = Some p" "?l \<le> p" "te_price e = (if ?o < p then ?o else p)"
        using assms(1) False by (auto simp: stepTrade_def Let_def split: option.splits if_splits)
      then show ?thesis using o between(1) [of ?l p ?o ?h] by (auto simp: in_bar_def)
    qed
  qed
qed

text \<open>What a step changes, and what it leaves.\<close>

lemma step_fixed:
  assumes "stepTrade t b = (t', e)"
  shows "ot_direction t' = ot_direction t" "ot_fill_price t' = ot_fill_price t" "ot_stop t' = ot_stop t"
    "ot_tp t' = ot_tp t" "ot_stop_distance t' = ot_stop_distance t" "ot_bars_held t' = ot_bars_held t + 1"
    "tradeR t' = tradeR t"
  using assms by (auto simp: stepTrade_def Let_def tradeR_def)

lemma step_extremes:
  assumes "stepTrade t b = (t', e)"
  shows "ot_mae_r t' = js_min (ot_mae_r t) (tradeR t (if ot_direction t = Long then js_number (k_low b) else js_number (k_high b)))"
    "ot_mfe_r t' = js_max (ot_mfe_r t) (tradeR t (if ot_direction t = Long then js_number (k_high b) else js_number (k_low b)))"
  using assms by (auto simp: stepTrade_def Let_def)

lemma walk_fixed:
  "walk t i bs = (t', r) \<Longrightarrow> ot_direction t' = ot_direction t \<and> ot_fill_price t' = ot_fill_price t
    \<and> ot_stop t' = ot_stop t \<and> ot_tp t' = ot_tp t \<and> ot_stop_distance t' = ot_stop_distance t \<and> tradeR t' = tradeR t"
proof (induction t i bs rule: walk.induct)
  case (2 t i b bs)
  obtain t1 r1 where s: "stepTrade t b = (t1, r1)" by force
  note step_fixed [OF s]
  then show ?case using 2 s by (cases r1) auto
qed simp

text \<open>The walk stops at the first bar that exits, having stepped every bar up to it.\<close>

lemma walk_exit:
  assumes "walk t i bs = (t', Some (k, e))"
  shows "i \<le> k \<and> k < i + length bs \<and> (\<exists>u. stepTrade u (bs ! (k - i)) = (t', Some e) \<and> ot_direction u = ot_direction t
     \<and> ot_stop u = ot_stop t \<and> ot_tp u = ot_tp t \<and> tradeR u = tradeR t)
     \<and> ot_bars_held t' = ot_bars_held t + int (k - i) + 1"
  using assms
proof (induction t i bs rule: walk.induct)
  case (2 t i b bs)
  obtain t1 r1 where s: "stepTrade t b = (t1, r1)" by force
  show ?case
  proof (cases r1)
    case None
    then have w: "walk t1 (Suc i) bs = (t', Some (k, e))" using 2(2) s by simp
    note ih = 2(1) [OF s [symmetric] None w]
    then have "Suc i \<le> k" "k - i = Suc (k - Suc i)" by auto
    then show ?thesis using ih step_fixed [OF s] by (auto simp: algebra_simps)
  next
    case (Some x)
    then show ?thesis using 2(2) s step_fixed [OF s] by auto
  qed
qed simp

lemma walk_none:
  "walk t i bs = (t', None) \<Longrightarrow> ot_bars_held t' = ot_bars_held t + int (length bs)"
proof (induction t i bs rule: walk.induct)
  case (2 t i b bs)
  obtain t1 r1 where s: "stepTrade t b = (t1, r1)" by force
  then show ?case using 2 step_fixed [OF s] by (cases r1) auto
qed simp

section \<open>Returns in units of risk\<close>

definition move :: "direction \<Rightarrow> jsnum \<Rightarrow> jsnum \<Rightarrow> jsnum" where
  "move d fill px = (if d = Long then px - fill else fill - px)"

lemma tradeR_move: "tradeR t px = move (ot_direction t) (ot_fill_price t) px / ot_stop_distance t"
  by (simp add: tradeR_def move_def sgn_dir_def js_minus_anti)

lemma openTrade_Some: "openTrade d fill stop tp = Some t \<longleftrightarrow> Fin 0 < move d stop fill \<and>
  t = \<lparr>ot_direction = d, ot_fill_price = fill, ot_stop = stop, ot_tp = tp, ot_stop_distance = move d stop fill,
       ot_mae_r = Fin 0, ot_mfe_r = Fin 0, ot_bars_held = 0\<rparr>"
  by (auto simp: openTrade_def Let_def sgn_dir_def move_def js_minus_anti)

definition trade_inv :: "open_trade \<Rightarrow> bool" where
  "trade_inv t = (Fin 0 < ot_stop_distance t \<and> is_fin (ot_stop_distance t) \<and> is_fin (ot_fill_price t)
     \<and> ot_mae_r t \<le> Fin 0 \<and> Fin 0 \<le> ot_mfe_r t)"

lemma R_not_NaN: "trade_inv t \<Longrightarrow> is_fin p \<Longrightarrow> tradeR t p \<noteq> NaN"
proof -
  assume t: "trade_inv t" and p: "is_fin p"
  obtain x where x: "ot_stop_distance t = Fin x" "0 < x" using t by (auto simp: trade_inv_def is_fin_iff)
  have "move (ot_direction t) (ot_fill_price t) p \<noteq> NaN"
    using t p by (auto simp: trade_inv_def is_fin_iff move_def)
  then show ?thesis unfolding tradeR_move x(1) using x(2)
    by (cases "move (ot_direction t) (ot_fill_price t) p") auto
qed

lemma R_mono:
  assumes "trade_inv t" "is_fin p" "is_fin q" "if ot_direction t = Long then p \<le> q else q \<le> p"
  shows "tradeR t p \<le> tradeR t q"
proof -
  have "move (ot_direction t) (ot_fill_price t) p \<le> move (ot_direction t) (ot_fill_price t) q"
    using assms by (auto simp: move_def trade_inv_def is_fin_iff intro!: js_sub_mono rnd_mono split: if_splits)
  then show ?thesis
    using assms(1) R_not_NaN [OF assms(1,2)] R_not_NaN [OF assms(1,3)]
    by (auto simp: tradeR_move trade_inv_def intro: js_div_right_mono)
qed

lemma in_bar_fin: "bar_ok b \<Longrightarrow> in_bar p b \<Longrightarrow> is_fin p"
  by (cases p) (auto simp: bar_ok_def in_bar_def Let_def is_fin_iff)

lemma step_bounds:
  assumes "trade_inv t" "bar_ok b" "stepTrade t b = (t', e)"
  shows "trade_inv t'" and "in_bar p b \<Longrightarrow> ot_mae_r t' \<le> tradeR t p \<and> tradeR t p \<le> ot_mfe_r t'"
proof -
  let ?h = "js_number (k_high b)" and ?l = "js_number (k_low b)"
  let ?a = "if ot_direction t = Long then ?l else ?h" and ?f = "if ot_direction t = Long then ?h else ?l"
  have fin: "is_fin ?a" "is_fin ?f" using assms(2) by (auto simp: bar_ok_def Let_def)
  note n = R_not_NaN [OF assms(1) fin(1)] R_not_NaN [OF assms(1) fin(2)]
  note x = step_extremes [OF assms(3)]
  have m: "ot_mae_r t \<noteq> NaN" "ot_mfe_r t \<noteq> NaN" using assms(1) by (auto simp: trade_inv_def)
  have lo: "ot_mae_r t' \<le> ot_mae_r t" "ot_mae_r t' \<le> tradeR t ?a"
    using x(1) m n js_min_le [of "ot_mae_r t" "tradeR t ?a"] by auto
  have hi: "ot_mfe_r t \<le> ot_mfe_r t'" "tradeR t ?f \<le> ot_mfe_r t'"
    using x(2) m n js_max_ge [of "ot_mfe_r t" "tradeR t ?f"] by auto
  show "trade_inv t'"
    using assms(1) step_fixed [OF assms(3)] lo(1) hi(1) by (auto simp: trade_inv_def intro: js_le_trans)
  assume p: "in_bar p b"
  have pf: "is_fin p" by (rule in_bar_fin [OF assms(2) p])
  have "tradeR t ?a \<le> tradeR t p" "tradeR t p \<le> tradeR t ?f"
    using p fin pf by (auto intro!: R_mono [OF assms(1)] simp: in_bar_def)
  then show "ot_mae_r t' \<le> tradeR t p \<and> tradeR t p \<le> ot_mfe_r t'" using lo hi js_le_trans by blast
qed

definition bounded_at :: "open_trade \<Rightarrow> kline \<Rightarrow> bool" where
  "bounded_at t b = (\<forall>p. in_bar p b \<longrightarrow> ot_mae_r t \<le> tradeR t p \<and> tradeR t p \<le> ot_mfe_r t)"

lemma walk_bounds:
  assumes "trade_inv t" "list_all bar_ok bs" "walk t i bs = (t', r)"
  shows "trade_inv t' \<and> (case r of Some (k, e) \<Rightarrow> bounded_at t' (bs ! (k - i)) \<and> in_bar (te_price e) (bs ! (k - i))
    | None \<Rightarrow> bs = [] \<or> bounded_at t' (last bs))"
  using assms
proof (induction t i bs rule: walk.induct)
  case (2 t i b bs)
  obtain t1 r1 where s: "stepTrade t b = (t1, r1)" by force
  have bok: "bar_ok b" "list_all bar_ok bs" using 2(3) by simp_all
  note sb = step_bounds [OF 2(2) bok(1) s]
  have at: "bounded_at t1 b" using sb(2) step_fixed(7) [OF s] by (simp add: bounded_at_def)
  show ?case
  proof (cases r1)
    case (Some e)
    then have "t' = t1" "r = Some (i, e)" using 2(4) s by auto
    then show ?thesis using sb(1) at exit_price [OF _ bok(1)] s Some by auto
  next
    case None
    then have w: "walk t1 (Suc i) bs = (t', r)" using 2(4) s by simp
    note ih = 2(1) [OF s [symmetric] None sb(1) bok(2) w]
    show ?thesis
    proof (cases r)
      case None
      then show ?thesis using ih w at by (cases bs) auto
    next
      case (Some ke)
      obtain k e where ke: "ke = (k, e)" by force
      then have "Suc i \<le> k" using walk_exit [of t1 "Suc i" bs t' k e] w Some by simp
      then have "k - i = Suc (k - Suc i)" by simp
      then have "(b # bs) ! (k - i) = bs ! (k - Suc i)" by simp
      then show ?thesis using ih Some ke by simp
    qed
  qed
qed simp

text \<open>The fill: inside its bar, and the index of a bar.\<close>

lemma limit_fill_in_bar:
  "limit_fill d lm i bs = Some (k, p) \<Longrightarrow> list_all bar_ok bs \<Longrightarrow> lm \<noteq> NaN \<Longrightarrow>
    i \<le> k \<and> k < i + length bs \<and> in_bar p (bs ! (k - i))"
proof (induction d lm i bs rule: limit_fill.induct)
  case (2 d lm i b bs)
  have o: "js_number (k_low b) \<le> js_number (k_open b)" "js_number (k_open b) \<le> js_number (k_high b)"
    using 2(3) by (simp_all add: bar_ok_def Let_def)
  show ?case
  proof (cases "if d = Long then js_number (k_low b) \<le> lm else lm \<le> js_number (k_high b)")
    case True
    then have "k = i" "p = (if d = Long then js_min (js_number (k_open b)) lm else js_max (js_number (k_open b)) lm)"
      using 2(2) by (auto split: if_splits)
    moreover have "js_number (k_open b) \<noteq> NaN" using o by auto
    ultimately show ?thesis using True o 2(4) js_min_le [of "js_number (k_open b)" lm] js_max_ge [of "js_number (k_open b)" lm]
        js_min_cases [of "js_number (k_open b)" lm] js_max_cases [of "js_number (k_open b)" lm]
      by (auto simp: in_bar_def split: if_splits) (metis js_le_trans js_le_total js_le_antisym)+
  next
    case False
    then have "limit_fill d lm (Suc i) bs = Some (k, p)" using 2(2) by (auto split: if_splits)
    then have "Suc i \<le> k \<and> k < Suc i + length bs \<and> in_bar p (bs ! (k - Suc i))"
      using 2(1) 2(3,4) False by auto
    moreover from this have "k - i = Suc (k - Suc i)" by linarith
    ultimately show ?thesis by simp
  qed
qed simp

lemma findFill_in_bar:
  assumes "findFill d en lm bs = Some (k, p)" "list_all bar_ok bs" "lm \<noteq> Some NaN"
  shows "k < length bs \<and> in_bar p (bs ! k)"
proof -
  obtain b bs' where b: "bs = b # bs'" using assms(1) by (cases bs) (auto simp: findFill_def)
  show ?thesis
  proof (cases "en = Market")
    case True
    then show ?thesis using assms(1,2) b by (auto simp: findFill_def in_bar_def bar_ok_def Let_def)
  next
    case False
    then obtain q where q: "lm = Some q" "limit_fill d q 0 bs = Some (k, p)"
      using assms(1) b by (auto simp: findFill_def split: option.splits)
    then show ?thesis using limit_fill_in_bar [OF q(2) assms(2)] assms(3) by auto
  qed
qed

text \<open>Every filled outcome comes from one walk.\<close>

lemma simulate_cases:
  assumes "simulateOutcome inp = oc" "oc_filled oc = Some fo"
  obtains k fp t t' r where "findFill (oi_direction inp) (oi_entry inp) (oi_limit_price inp) (oi_bars inp) = Some (k, fp)"
    "openTrade (oi_direction inp) fp (oi_stop inp) (oi_tp inp) = Some t"
    "walk t k (drop k (oi_bars inp)) = (t', r)"
    "case r of Some (i, e) \<Rightarrow> oc_status oc = te_status e \<and> fo = close_out (k, fp) t' i (te_price e) \<and> oc_note oc = te_note e
     | None \<Rightarrow> oc_status oc = OS_expired \<and>
        fo = close_out (k, fp) t' (length (oi_bars inp) - 1) (js_number (k_close (last (oi_bars inp))))"
  using assms by (fastforce simp: simulateOutcome_def none_def Let_def split: if_splits option.splits prod.splits)

section \<open>Properties\<close>

text \<open>C16 A simulated trade stays inside the data it was simulated on: it fills at a price of the fill bar and exits
  at a price of the exit bar, not before the fill and within the bars given, its held-bar count is the span
  between them, and its result lies between its worst and best excursion, which lie on either side of zero.\<close>

theorem outcome_within_bars:
  assumes "list_all bar_ok (oi_bars inp)" "oi_limit_price inp \<noteq> Some NaN"
    and "oc_filled (simulateOutcome inp) = Some fo" "is_fin (fo_stop_distance fo)"
  shows "in_bar (fo_fill_price fo) (oi_bars inp ! fo_fill_bar fo) \<and> in_bar (fo_exit_price fo) (oi_bars inp ! fo_exit_bar fo)
    \<and> fo_fill_bar fo \<le> fo_exit_bar fo \<and> fo_exit_bar fo < length (oi_bars inp)
    \<and> fo_bars_held fo = int (fo_exit_bar fo) - int (fo_fill_bar fo) + 1
    \<and> fo_mae_r fo \<le> fo_r fo \<and> fo_r fo \<le> fo_mfe_r fo \<and> fo_mae_r fo \<le> Fin 0 \<and> Fin 0 \<le> fo_mfe_r fo"
proof -
  let ?bs = "oi_bars inp"
  obtain k fp t t' r where w: "findFill (oi_direction inp) (oi_entry inp) (oi_limit_price inp) ?bs = Some (k, fp)"
    "openTrade (oi_direction inp) fp (oi_stop inp) (oi_tp inp) = Some t" "walk t k (drop k ?bs) = (t', r)"
    "case r of Some (i, e) \<Rightarrow> oc_status (simulateOutcome inp) = te_status e \<and> fo = close_out (k, fp) t' i (te_price e)
       \<and> oc_note (simulateOutcome inp) = te_note e
     | None \<Rightarrow> oc_status (simulateOutcome inp) = OS_expired \<and>
        fo = close_out (k, fp) t' (length ?bs - 1) (js_number (k_close (last ?bs)))"
    by (rule simulate_cases [OF refl assms(3)])
  note f = findFill_in_bar [OF w(1) assms(1,2)]
  have bk: "bar_ok (?bs ! k)" using f assms(1) by (simp add: list_all_length)
  have d: "fo_stop_distance fo = ot_stop_distance t'" using w(4) by (auto simp: close_out_def split: option.splits)
  have inv: "trade_inv t"
    using w(2) assms(4) d walk_fixed [OF w(3)] in_bar_fin [OF bk] f by (auto simp: openTrade_Some trade_inv_def)
  have dk: "list_all bar_ok (drop k ?bs)" using assms(1) by (auto simp: list_all_iff dest: in_set_dropD)
  note wb = walk_bounds [OF inv dk w(3)]
  have h0: "ot_bars_held t = 0" using w(2) by (auto simp: openTrade_Some)
  show ?thesis
  proof (cases r)
    case (Some ie)
    obtain i e where ie: "ie = (i, e)" by force
    have x: "k \<le> i" "i < length ?bs" "ot_bars_held t' = int (i - k) + 1"
      using walk_exit [of t k "drop k ?bs" t' i e] w(3) Some ie f h0 by auto
    have n: "drop k ?bs ! (i - k) = ?bs ! i" using x f by simp
    have fo: "fo = close_out (k, fp) t' i (te_price e)" using w(4) Some ie by simp
    show ?thesis using wb x f n fo Some ie by (auto simp: close_out_def bounded_at_def trade_inv_def of_nat_diff)
  next
    case None
    have ne: "drop k ?bs \<noteq> []" "?bs \<noteq> []" using f by auto
    have l: "last (drop k ?bs) = ?bs ! (length ?bs - 1)" using ne f by (simp add: last_drop last_conv_nth)
    have "bar_ok (last ?bs)" using assms(1) ne(2) by (simp add: list_all_iff)
    then have c: "in_bar (js_number (k_close (last ?bs))) (?bs ! (length ?bs - 1))"
      using ne(2) by (simp add: in_bar_def bar_ok_def Let_def last_conv_nth)
    have held: "ot_bars_held t' = int (length ?bs - k)" using walk_none [of t k "drop k ?bs" t'] w(3) None h0 by simp
    have fo: "fo = close_out (k, fp) t' (length ?bs - 1) (js_number (k_close (last ?bs)))" using w(4) None by simp
    show ?thesis using wb ne l c held f fo None by (auto simp: close_out_def bounded_at_def trade_inv_def of_nat_diff)
  qed
qed

definition example_bar :: "string \<Rightarrow> string \<Rightarrow> string \<Rightarrow> string \<Rightarrow> kline" where
  "example_bar a h l c = \<lparr>k_open_time = 0, k_open = a, k_high = h, k_low = l, k_close = c, k_volume = ''1'', k_close_time = 59999\<rparr>"

definition example_input :: outcome_input where
  "example_input = \<lparr>oi_direction = Long, oi_entry = Market, oi_limit_price = None, oi_stop = Fin 96, oi_tp = Some (Fin 108),
     oi_bars = [example_bar ''100'' ''102'' ''98'' ''101'', example_bar ''101'' ''109'' ''95'' ''97'']\<rparr>"

definition example_result :: filled_outcome where
  "example_result = \<lparr>fo_fill_price = Fin 100, fo_fill_bar = 0, fo_exit_price = Fin 96, fo_exit_bar = 1, fo_stop_distance = Fin 4,
     fo_r = Fin (- 1), fo_mae_r = Fin (- 5 / 4), fo_mfe_r = Fin (9 / 4), fo_bars_held = 2\<rparr>"

lemma example_outcome: "oc_filled (simulateOutcome example_input) = Some example_result"
  by code_simp

lemma example_bars_ok: "list_all bar_ok (oi_bars example_input)"
  by code_simp

theorem outcome_within_bars_witness:
  "in_bar (Fin 96) (oi_bars example_input ! 1) \<and> Fin (- 5 / 4) \<le> fo_r example_result"
  using outcome_within_bars [OF example_bars_ok _ example_outcome]
  by (simp add: example_result_def) (simp add: example_input_def)

text \<open>A stop-out never loses less than one unit of risk: it loses exactly one when it exits at the stop
  price, and otherwise it exited at a price beyond the stop, where the bar gapped through it.\<close>

theorem stop_costs_at_least_one_r:
  assumes "oc_filled (simulateOutcome inp) = Some fo" "oc_status (simulateOutcome inp) = OS_stop"
    and "is_fin (fo_stop_distance fo)" "is_fin (fo_exit_price fo)"
  shows "fo_r fo \<le> Fin (- 1) \<and> (if fo_exit_price fo = oi_stop inp then fo_r fo = Fin (- 1)
    else if oi_direction inp = Long then fo_exit_price fo < oi_stop inp else oi_stop inp < fo_exit_price fo)"
proof -
  obtain k fp t t' r where w: "findFill (oi_direction inp) (oi_entry inp) (oi_limit_price inp) (oi_bars inp) = Some (k, fp)"
    "openTrade (oi_direction inp) fp (oi_stop inp) (oi_tp inp) = Some t" "walk t k (drop k (oi_bars inp)) = (t', r)"
    "case r of Some (i, e) \<Rightarrow> oc_status (simulateOutcome inp) = te_status e \<and> fo = close_out (k, fp) t' i (te_price e)
       \<and> oc_note (simulateOutcome inp) = te_note e
     | None \<Rightarrow> oc_status (simulateOutcome inp) = OS_expired \<and>
        fo = close_out (k, fp) t' (length (oi_bars inp) - 1) (js_number (k_close (last (oi_bars inp))))"
    by (rule simulate_cases [OF refl assms(1)])
  obtain i e where r: "r = Some (i, e)" "te_status e = OS_stop" "fo = close_out (k, fp) t' i (te_price e)"
    using w(4) assms(2) by (cases r) auto
  obtain u b where u: "stepTrade u b = (t', Some e)" "ot_direction u = ot_direction t" "ot_stop u = ot_stop t"
    using walk_exit [of t k "drop k (oi_bars inp)" t' i e] w(3) r by auto
  let ?s = "oi_stop inp" and ?d = "oi_direction inp" and ?o = "js_number (k_open b)"
  have t: "ot_direction t = ?d" "ot_stop t = ?s" "ot_fill_price t = fp" "ot_stop_distance t = move ?d ?s fp"
    "Fin 0 < move ?d ?s fp"
    using w(2) by (auto simp: openTrade_Some)
  have t': "tradeR t' = tradeR t" "ot_stop_distance t' = ot_stop_distance t" using walk_fixed [OF w(3)] by auto
  have fin: "is_fin (move ?d ?s fp)" "is_fin (te_price e)"
    using assms(3,4) t t' r(3) by (auto simp: close_out_def)
  obtain x where x: "move ?d ?s fp = Fin x" "0 < x" using fin(1) t(5) by (auto simp: is_fin_iff)
  have neg: "move ?d fp ?s = Fin (- x)"
    using x(1) js_minus_anti [of fp ?s] js_minus_anti [of ?s fp] by (auto simp: move_def split: if_splits)
  have rs: "tradeR t ?s = Fin (- 1)"
    unfolding tradeR_move t neg x(1) using x(2) by simp
  have px: "te_price e = (if (if ?d = Long then ?o < ?s else ?s < ?o) then ?o else ?s)"
    using u r(2) t(1,2) by (auto simp: stepTrade_def Let_def split: if_splits option.splits)
  have fo: "fo_r fo = tradeR t (te_price e)" "fo_exit_price fo = te_price e"
    using r(3) t' by (simp_all add: close_out_def)
  show ?thesis
  proof (cases "te_price e = ?s")
    case True
    then show ?thesis using rs fo by simp
  next
    case False
    then have beyond: "te_price e = ?o" "if ?d = Long then ?o < ?s else ?s < ?o" using px by (auto split: if_splits)
    have sf: "is_fin ?s" "is_fin fp"
      using x(1) by (auto simp: move_def minus_jsnum_def split: if_splits) (cases ?s; cases fp; simp)+
    have "trade_inv (t\<lparr>ot_mae_r := Fin 0, ot_mfe_r := Fin 0\<rparr>)" using t x fin(1) sf by (simp add: trade_inv_def)
    from R_mono [OF this fin(2) sf(1)] have "tradeR t (te_price e) \<le> tradeR t ?s"
      using beyond t(1) by (auto simp: tradeR_def intro: js_less_imp_le split: if_splits)
    then show ?thesis using rs fo beyond False by auto
  qed
qed

theorem stop_costs_at_least_one_r_witness: "fo_r example_result \<le> Fin (- 1)"
proof -
  have "oc_status (simulateOutcome example_input) = OS_stop" by code_simp
  then show ?thesis using stop_costs_at_least_one_r [OF example_outcome] by (simp add: example_result_def)
qed

end
