(* ===== verification/TimeFrames.thy ===== *)
theory TimeFrames imports DemoTypes begin

text \<open>
  Timeframes (\<open>market.ts\<close>): \<open>tfToMs\<close> and the next candle close. The closes are exact: the double arithmetic of
  the code gives the least multiple of the period after now.
\<close>

text \<open>\<open>/^(\\d+)([mhd])$/\<close>: the digits and the unit, or no match.\<close>

definition tf_match :: "string \<Rightarrow> (string \<times> char) option" where
  "tf_match tf = (let ds = takeWhile is_digit tf; r = dropWhile is_digit tf in
     if ds \<noteq> [] \<and> length r = 1 \<and> hd r \<in> {CHR ''m'', CHR ''h'', CHR ''d''} then Some (ds, hd r) else None)"

text \<open>None is the exception for a bad timeframe.\<close>

definition tfToMs :: "string \<Rightarrow> jsnum option" where
  "tfToMs tf = (case tf_match tf of None \<Rightarrow> None
     | Some (ds, u) \<Rightarrow> let n = js_number ds in
         Some (if u = CHR ''m'' then n * Fin 60000 else if u = CHR ''h'' then n * Fin 3600000 else n * Fin 86400000))"

definition nextCloseAfter :: "int \<Rightarrow> string \<Rightarrow> int \<Rightarrow> jsnum option" where
  "nextCloseAfter now tf graceMs = map_option
     (\<lambda>ms. js_floor (of_count now / ms) * ms + ms + of_count graceMs) (tfToMs tf)"

lemma tf_values:
  "tfToMs ''1m'' = Some (Fin 60000)" "tfToMs ''15m'' = Some (Fin 900000)" "tfToMs ''1h'' = Some (Fin 3600000)"
  "tfToMs ''4h'' = Some (Fin 14400000)" "tfToMs ''1d'' = Some (Fin 86400000)" "tfToMs ''2w'' = None"
  by code_simp+

text \<open>The next candle close is exact: for every timeframe whose period is a whole number of milliseconds
  up to 2 to the 40 and every time up to 2 to the 50, it is the least multiple of the period after now, plus
  the grace, with no rounding.\<close>

theorem next_close_exact:
  assumes "tfToMs tf = Some (Fin (of_int ms))" "0 < ms" "ms \<le> 2 ^ 40"
    and "0 \<le> now" "now \<le> 2 ^ 50" "0 \<le> graceMs" "graceMs \<le> 2 ^ 40"
  shows "nextCloseAfter now tf graceMs = Some (Fin (of_int ((now div ms + 1) * ms + graceMs)))
    \<and> now < (now div ms + 1) * ms \<and> (now div ms + 1) * ms \<le> now + ms"
proof -
  let ?q = "now div ms"
  have dm: "?q * ms + now mod ms = now" "0 \<le> now mod ms" "now mod ms < ms" using assms(2) by simp_all
  have b: "0 \<le> ?q * ms" "?q * ms \<le> now" using dm(2) assms(2,4) by (simp add: pos_imp_zdiv_nonneg_iff) (use dm in linarith)
  have e: "(?q + 1) * ms = ?q * ms + ms" by (simp add: distrib_right)
  have i: "\<bar>m\<bar> \<le> 2 ^ 53 \<Longrightarrow> rnd (of_int m) = Fin (of_int m)" for m by (rule rnd_int)
  have c: "of_count now = Fin (of_int now)" "of_count graceMs = Fin (of_int graceMs)" using assms by (intro i; simp)+
  have f: "js_floor (Fin (of_int now) / Fin (of_int ms)) = Fin (of_int ?q)" using assms by (intro js_floor_div) simp_all
  have m: "Fin (of_int ?q) * Fin (of_int ms) = Fin (of_int (?q * ms))"
    using i [of "?q * ms"] b assms(5) by simp
  have a: "Fin (of_int (?q * ms)) + Fin (of_int ms) = Fin (of_int (?q * ms + ms))"
    using i [of "?q * ms + ms"] b assms by simp
  have g: "Fin (of_int (?q * ms + ms)) + Fin (of_int graceMs) = Fin (of_int (?q * ms + ms + graceMs))"
    using i [of "?q * ms + ms + graceMs"] b assms by simp
  have "now < ?q * ms + ms" "?q * ms + ms \<le> now + ms" using dm b by linarith+
  then show ?thesis unfolding nextCloseAfter_def assms(1) option.map c f m a g e by (intro conjI refl)
qed

theorem next_close_exact_witness:
  "nextCloseAfter 1700000000123 ''15m'' 5000 = Some (Fin 1700000105000)"
  using next_close_exact [of "''15m''" 900000 1700000000123 5000] tf_values by simp

end
