(* ===== verification/Klines.thy ===== *)
theory Klines imports TimeFrames "HOL-Library.Multiset" begin

text \<open>
  Kline history (\<open>klines.ts\<close>): the spans already asked for, the union of bar arrays, the paged backward walk, the
  cache that only fetches what is missing, and the window of bars a judgment may see. The exchange and the
  cache file are parameters; times are integers of milliseconds.
\<close>

section \<open>Spans\<close>

record span =
  sp_from :: int
  sp_to :: int

abbreviation spn :: "int \<Rightarrow> int \<Rightarrow> span" where
  "spn a b \<equiv> \<lparr>sp_from = a, sp_to = b\<rparr>"

definition merge_step :: "span list \<Rightarrow> span \<Rightarrow> span list" where
  "merge_step out s = (if out \<noteq> [] \<and> sp_from s \<le> sp_to (last out) + 1
     then butlast out @ [(last out)\<lparr>sp_to := max (sp_to (last out)) (sp_to s)\<rparr>]
     else out @ [spn (sp_from s) (sp_to s)])"

definition mergeSpans :: "span list \<Rightarrow> span list" where
  "mergeSpans spans = foldl merge_step [] (sort_key sp_from (filter (\<lambda>s. sp_from s \<le> sp_to s) spans))"

text \<open>The loop of \<open>missingSpans\<close>: the gaps found and the final cursor.\<close>

fun missing_loop :: "int \<Rightarrow> int \<Rightarrow> span list \<Rightarrow> span list \<times> int" where
  "missing_loop cursor to' [] = ([], cursor)"
| "missing_loop cursor to' (s # ss) = (
     if sp_to s < cursor then missing_loop cursor to' ss
     else if to' < sp_from s then ([], cursor)
     else let gap = (if cursor < sp_from s then [spn cursor (min to' (sp_from s - 1))] else []);
              cursor' = max cursor (sp_to s + 1)
          in if to' < cursor' then (gap, cursor')
             else (let (out, c) = missing_loop cursor' to' ss in (gap @ out, c)))"

definition missingSpans :: "span list \<Rightarrow> int \<Rightarrow> int \<Rightarrow> int \<Rightarrow> span list" where
  "missingSpans covered from' to' step = (let (out, c) = missing_loop from' to' (mergeSpans covered) in
     filter (\<lambda>s. step \<le> sp_to s - sp_from s) (out @ (if c \<le> to' then [spn c to'] else [])))"

text \<open>The loop of \<open>spansFromBars\<close> carries the start of the current run and the previous bar.\<close>

fun spans_loop :: "int \<Rightarrow> int option \<Rightarrow> kline option \<Rightarrow> kline list \<Rightarrow> span list" where
  "spans_loop step start prev [] = (case (start, prev) of (Some a, Some p) \<Rightarrow> [spn a (k_close_time p)] | _ \<Rightarrow> [])"
| "spans_loop step start prev (k # ks) = (
     if start = None \<or> (case prev of Some p \<Rightarrow> k_open_time k - k_open_time p \<noteq> step | None \<Rightarrow> False)
     then (case (start, prev) of (Some a, Some p) \<Rightarrow> [spn a (k_close_time p)] | _ \<Rightarrow> [])
       @ spans_loop step (Some (k_open_time k)) (Some k) ks
     else spans_loop step start (Some k) ks)"

definition spansFromBars :: "kline list \<Rightarrow> int \<Rightarrow> span list" where
  "spansFromBars bars step = mergeSpans (spans_loop step None None bars)"

section \<open>Bars\<close>

text \<open>A \<open>Map\<close> keyed by open time: setting a present key keeps its place.\<close>

fun bar_set :: "kline list \<Rightarrow> kline \<Rightarrow> kline list" where
  "bar_set [] k = [k]"
| "bar_set (b # bs) k = (if k_open_time b = k_open_time k then k # bs else b # bar_set bs k)"

definition mergeBars :: "kline list \<Rightarrow> kline list \<Rightarrow> kline list" where
  "mergeBars a b = sort_key k_open_time (foldl bar_set (foldl bar_set [] a) b)"

definition sliceBars :: "kline list \<Rightarrow> int \<Rightarrow> int \<Rightarrow> kline list" where
  "sliceBars bars from' to' = filter (\<lambda>k. from' \<le> k_close_time k \<and> k_open_time k \<le> to') bars"

text \<open>The paged walk: \<open>fetch i e\<close> is the exchange's answer to page \<open>i\<close> asked with end time \<open>e\<close>. \<open>prev\<close> is None for
  the infinity before the first page; \<open>fuel\<close> counts the pages left of the code's 200.\<close>

fun fetch_pages :: "nat \<Rightarrow> (nat \<Rightarrow> int \<Rightarrow> kline list) \<Rightarrow> int \<Rightarrow> nat \<Rightarrow> int \<Rightarrow> int option \<Rightarrow> kline list \<Rightarrow> kline list \<times> bool" where
  "fetch_pages 0 fetch from' i e prev out = (out, False)"
| "fetch_pages (Suc fuel) fetch from' i e prev out = (let rows = fetch i e in
     if rows = [] then (out, True)
     else let out' = foldl bar_set out rows; earliest = k_open_time (hd rows) in
       if earliest \<le> from' \<or> (case prev of Some p \<Rightarrow> p \<le> earliest | None \<Rightarrow> False) then (out', True)
       else fetch_pages fuel fetch from' (Suc i) (earliest - 1) (Some earliest) out')"

definition fetchKlineSpan :: "(nat \<Rightarrow> int \<Rightarrow> kline list) \<Rightarrow> int \<Rightarrow> int \<Rightarrow> kline list \<times> bool" where
  "fetchKlineSpan fetch from' to' = (let (out, reached) = fetch_pages 200 fetch from' 0 to' None [] in
     (sort_key k_open_time out, reached))"

section \<open>The cache\<close>

record kline_cache =
  kc_bars :: "kline list"
  kc_ranges :: "span list option"

text \<open>One gap: the bars after merging its page, and the span that now counts as covered. \<open>fetch\<close> is indexed by
  the gap, since each gap starts a walk of its own.\<close>

definition fetch_gap :: "(span \<Rightarrow> nat \<Rightarrow> int \<Rightarrow> kline list) \<Rightarrow> int \<Rightarrow> kline list \<times> span list \<Rightarrow> span \<Rightarrow> kline list \<times> span list" where
  "fetch_gap fetch now = (\<lambda>(bars, fetched) gap.
     let (page, reached) = fetchKlineSpan (fetch gap) (sp_from gap) (sp_to gap);
         bars' = mergeBars bars page;
         left = (if reached then sp_from gap else case page of [] \<Rightarrow> sp_to gap | k # _ \<Rightarrow> k_open_time k);
         right = min (sp_to gap) (now - 1)
     in (bars', if left \<le> right then fetched @ [spn left right] else fetched))"

text \<open>The bars asked for, and the new cache file when one is written. \<open>readCache\<close> merges the stored spans.\<close>

definition loadKlines :: "(span \<Rightarrow> nat \<Rightarrow> int \<Rightarrow> kline list) \<Rightarrow> int \<Rightarrow> int \<Rightarrow> kline_cache \<Rightarrow> int \<Rightarrow> int \<Rightarrow> kline list \<times> kline_cache option" where
  "loadKlines fetch step now cache from' to' = (
     let covered = (case kc_ranges cache of Some r \<Rightarrow> mergeSpans r | None \<Rightarrow> spansFromBars (kc_bars cache) step);
         gaps = missingSpans covered from' to' step
     in if gaps = [] then (sliceBars (kc_bars cache) from' to', None)
        else let (bars, fetched) = foldl (fetch_gap fetch now) (kc_bars cache, []) gaps in
          (sliceBars bars from' to',
           Some \<lparr>kc_bars = filter (\<lambda>k. k_close_time k < now) bars, kc_ranges = Some (mergeSpans (covered @ fetched))\<rparr>))"

section \<open>The visible window\<close>

text \<open>Binary search; \<open>(lo + hi) >> 1\<close> is halving on the non-negative indices it sees.\<close>

function search_loop :: "kline list \<Rightarrow> int \<Rightarrow> int \<Rightarrow> int \<Rightarrow> int \<Rightarrow> int" where
  "search_loop bars t lo hi ans = (if \<not> lo \<le> hi then ans
     else let mid = (lo + hi) div 2 in
       if k_close_time (bars ! nat mid) \<le> t then search_loop bars t (mid + 1) hi mid
       else search_loop bars t lo (mid - 1) ans)"
  by auto
termination by (relation "measure (\<lambda>(bars, t, lo, hi, ans). nat (hi - lo + 1))") auto

declare search_loop.simps [simp del]

definition lastClosedIndex :: "kline list \<Rightarrow> int \<Rightarrow> int" where
  "lastClosedIndex bars t = search_loop bars t 0 (int (length bars) - 1) (- 1)"

text \<open>\<open>slice(max(0, end - count + 1), end + 1)\<close>.\<close>

definition visibleWindow :: "kline list \<Rightarrow> int \<Rightarrow> int \<Rightarrow> kline list" where
  "visibleWindow bars t cnt = (let e = lastClosedIndex bars t in
     if e < 0 then [] else drop (nat (max 0 (e - cnt + 1))) (take (nat (e + 1)) bars))"

record ticker24h =
  tk_priceChangePercent :: string
  tk_highPrice :: string
  tk_lowPrice :: string
  tk_quoteVolume :: string

definition decimals_of :: "string \<Rightarrow> nat" where
  "decimals_of s = (let r = dropWhile (\<lambda>c. c \<noteq> CHR ''.'') s in
     if r = [] then 0 else length (takeWhile (\<lambda>c. c \<noteq> CHR ''.'') (tl r)))"

text \<open>The window of one day; \<open>cnt\<close> is \<open>Math.max(1, Math.round(86400000 / tfToMs(tf)))\<close>, None when the timeframe is bad.\<close>

definition ticker24hFromBars :: "kline list \<Rightarrow> int \<Rightarrow> string \<Rightarrow> ticker24h option" where
  "ticker24hFromBars bars t tf = (case tfToMs tf of None \<Rightarrow> None | Some ms \<Rightarrow>
     (let cnt = (case js_max (Fin 1) (js_round (Fin 86400000 / ms)) of Fin x \<Rightarrow> \<lfloor>x\<rfloor> | _ \<Rightarrow> int (length bars));
          win = visibleWindow bars t cnt
      in Some (if win = [] then \<lparr>tk_priceChangePercent = ''0.000'', tk_highPrice = ''0'', tk_lowPrice = ''0'', tk_quoteVolume = ''0''\<rparr>
         else let o' = js_number (k_open (hd win)); c = js_number (k_close (last win));
                hi = foldl (\<lambda>m k. js_max m (js_number (k_high k))) NInf win;
                lo = foldl (\<lambda>m k. js_min m (js_number (k_low k))) PInf win;
                qv = foldl (\<lambda>a k. a + js_number (k_volume k) * js_number (k_close k)) (Fin 0) win;
                d = decimals_of (k_close (last win))
              in \<lparr>tk_priceChangePercent = to_fixed 3 (if Fin 0 < o' then (c - o') / o' * Fin 100 else Fin 0),
                  tk_highPrice = to_fixed d hi, tk_lowPrice = to_fixed d lo, tk_quoteVolume = to_fixed 2 qv\<rparr>)))"

section \<open>Coverage\<close>

definition cover :: "span list \<Rightarrow> int set" where
  "cover ss = (\<Union>s\<in>set ss. {sp_from s..sp_to s})"

definition separated :: "span list \<Rightarrow> bool" where
  "separated ss = (sorted_wrt (\<lambda>a b. sp_to a + 1 < sp_from b) ss \<and> (\<forall>s\<in>set ss. sp_from s \<le> sp_to s))"

lemma cover_simps [simp]: "cover [] = {}" "cover (s # ss) = {sp_from s..sp_to s} \<union> cover ss"
  "cover (xs @ ys) = cover xs \<union> cover ys"
  by (auto simp: cover_def)

lemma merge_fold:
  assumes "sorted (List.map sp_from ss)" "\<forall>s\<in>set ss. sp_from s \<le> sp_to s" "separated out"
    and "out = [] \<or> (\<forall>s\<in>set ss. sp_from (last out) \<le> sp_from s)"
  shows "separated (foldl merge_step out ss) \<and> cover (foldl merge_step out ss) = cover out \<union> cover ss"
  using assms
proof (induction ss arbitrary: out)
  case (Cons s ss)
  have s: "sp_from s \<le> sp_to s" "\<forall>x\<in>set ss. sp_from s \<le> sp_from x" "sorted (List.map sp_from ss)"
    "\<forall>s\<in>set ss. sp_from s \<le> sp_to s" using Cons.prems(1,2) by simp_all
  show ?case
  proof (cases "out \<noteq> [] \<and> sp_from s \<le> sp_to (last out) + 1")
    case True
    then obtain xs l where out: "out = xs @ [l]" by (metis append_butlast_last_id)
    let ?l = "l\<lparr>sp_to := max (sp_to l) (sp_to s)\<rparr>"
    have m: "merge_step out s = xs @ [?l]" using True out by (simp add: merge_step_def)
    have lf: "sp_from l \<le> sp_from s" "sp_from s \<le> sp_to l + 1" "sp_from l \<le> sp_to l"
      using Cons.prems True out by (simp_all add: separated_def)
    have sep: "separated (xs @ [?l])"
      using Cons.prems(3) out by (auto simp: separated_def sorted_wrt_append max_def)
    have "cover [?l] = cover [l, s]" using lf s(1) by auto
    then have c: "cover (xs @ [?l]) = cover out \<union> {sp_from s..sp_to s}" using out by auto
    have "\<forall>x\<in>set ss. sp_from (last (xs @ [?l])) \<le> sp_from x" using s(2) lf(1) by force
    then have "separated (foldl merge_step (xs @ [?l]) ss) \<and>
        cover (foldl merge_step (xs @ [?l]) ss) = cover (xs @ [?l]) \<union> cover ss"
      using Cons.IH [OF s(3,4) sep] by blast
    then show ?thesis unfolding foldl.simps m c by (simp add: Un_assoc)
  next
    case False
    then have m: "merge_step out s = out @ [spn (sp_from s) (sp_to s)]" by (auto simp: merge_step_def)
    have sep: "separated (out @ [spn (sp_from s) (sp_to s)])"
    proof (cases "out = []")
      case False
      then obtain xs l where out: "out = xs @ [l]" by (metis append_butlast_last_id)
      have l: "sp_to l + 1 < sp_from s" using \<open>\<not> (out \<noteq> [] \<and> _)\<close> out by simp
      have "sp_to a + 1 < sp_from s" if "a \<in> set out" for a
        using that Cons.prems(3) l out by (fastforce simp: separated_def sorted_wrt_append)
      then show ?thesis using Cons.prems(3) s(1) by (auto simp: separated_def sorted_wrt_append)
    qed (use s(1) in \<open>simp add: separated_def\<close>)
    have "separated (foldl merge_step (out @ [spn (sp_from s) (sp_to s)]) ss) \<and>
        cover (foldl merge_step (out @ [spn (sp_from s) (sp_to s)]) ss) = cover (out @ [spn (sp_from s) (sp_to s)]) \<union> cover ss"
      using Cons.IH [OF s(3,4) sep] s(2) by simp
    then show ?thesis unfolding foldl.simps m by (simp add: Un_assoc)
  qed
qed simp

lemma cover_valid: "cover (sort_key sp_from (filter (\<lambda>s. sp_from s \<le> sp_to s) ss)) = cover ss"
  by (force simp: cover_def)

lemma mergeSpans_ok: "separated (mergeSpans ss) \<and> cover (mergeSpans ss) = cover ss"
proof -
  let ?s = "sort_key sp_from (filter (\<lambda>s. sp_from s \<le> sp_to s) ss)"
  have "separated (foldl merge_step [] ?s) \<and> cover (foldl merge_step [] ?s) = cover [] \<union> cover ?s"
    by (rule merge_fold) (simp_all add: separated_def)
  then show ?thesis by (simp add: mergeSpans_def cover_valid)
qed

text \<open>The gaps found by the loop, together with the rest after the final cursor, are what is not covered.\<close>

lemma missing_loop_cover:
  assumes "separated ss" "missing_loop c to' ss = (out, c')"
  shows "cover out \<union> {c'..to'} = {c..to'} - cover ss"
  using assms
proof (induction c to' ss arbitrary: out c' rule: missing_loop.induct)
  case (2 c to' s ss)
  have sep: "separated ss" and s: "sp_from s \<le> sp_to s" and after: "\<forall>x\<in>set ss. sp_to s + 1 < sp_from x"
    using 2(3) by (simp_all add: separated_def)
  have rest: "x \<in> cover ss \<Longrightarrow> sp_to s < x" for x using after by (fastforce simp: cover_def)
  consider (behind) "sp_to s < c" | (ahead) "\<not> sp_to s < c" "to' < sp_from s" | (on) "\<not> sp_to s < c" "\<not> to' < sp_from s"
    by blast
  then show ?case
  proof cases
    case behind
    then have "missing_loop c to' ss = (out, c')" using 2(4) by simp
    then have "cover out \<union> {c'..to'} = {c..to'} - cover ss" using 2(1) behind sep by blast
    then show ?thesis using behind by auto
  next
    case ahead
    then show ?thesis using 2(4) s rest by force
  next
    case on
    let ?gap = "if c < sp_from s then [spn c (min to' (sp_from s - 1))] else []" and ?c = "max c (sp_to s + 1)"
    have g: "cover ?gap = {c..to'} \<inter> {..<sp_from s}" using on by auto
    show ?thesis
    proof (cases "to' < ?c")
      case True
      then have "out = ?gap" "c' = ?c" using 2(4) on by (auto simp: Let_def)
      then show ?thesis using g True on rest by force
    next
      case False
      then obtain o2 where m: "missing_loop ?c to' ss = (o2, c')" and out: "out = ?gap @ o2"
        using 2(4) on by (auto simp: Let_def split: prod.splits if_splits)
      have "cover o2 \<union> {c'..to'} = {?c..to'} - cover ss"
        using 2(2) [OF on refl refl False sep m] .
      moreover have "cover out = cover ?gap \<union> cover o2" by (simp only: out cover_simps)
      ultimately have e: "cover out \<union> {c'..to'} = ({c..to'} \<inter> {..<sp_from s}) \<union> ({?c..to'} - cover ss)"
        using g by blast
      also have "\<dots> = {c..to'} - ({sp_from s..sp_to s} \<union> cover ss)" using rest s by force
      finally show ?thesis by simp
    qed
  qed
qed simp

definition tail_gap :: "int \<Rightarrow> int \<Rightarrow> span list" where
  "tail_gap c to' = (if c \<le> to' then [spn c to'] else [])"

lemma missing_loop_separated:
  assumes "separated ss" "missing_loop c to' ss = (out, c')"
  shows "separated (out @ tail_gap c' to') \<and> (\<forall>s\<in>set (out @ tail_gap c' to'). c \<le> sp_from s)"
  using assms
proof (induction c to' ss arbitrary: out c' rule: missing_loop.induct)
  case (1 c to')
  then show ?case by (simp add: separated_def tail_gap_def)
next
  case (2 c to' s ss)
  have sep: "separated ss" and s: "sp_from s \<le> sp_to s" using 2(3) by (simp_all add: separated_def)
  consider (behind) "sp_to s < c" | (ahead) "\<not> sp_to s < c" "to' < sp_from s" | (on) "\<not> sp_to s < c" "\<not> to' < sp_from s"
    by blast
  then show ?case
  proof cases
    case behind
    then show ?thesis using 2(1) [OF behind sep] 2(4) by simp
  next
    case ahead
    then show ?thesis using 2(4) by (simp add: separated_def tail_gap_def)
  next
    case on
    let ?gap = "if c < sp_from s then [spn c (min to' (sp_from s - 1))] else []" and ?c = "max c (sp_to s + 1)"
    show ?thesis
    proof (cases "to' < ?c")
      case True
      then have "out = ?gap" "c' = ?c" using 2(4) on by (auto simp: Let_def)
      then show ?thesis using True on by (auto simp: separated_def tail_gap_def)
    next
      case False
      then obtain o2 where m: "missing_loop ?c to' ss = (o2, c')" and out: "out = ?gap @ o2"
        using 2(4) on by (auto simp: Let_def split: prod.splits if_splits)
      let ?R = "o2 @ tail_gap c' to'"
      have R: "separated ?R" "\<forall>x\<in>set ?R. ?c \<le> sp_from x" using 2(2) [OF on refl refl False sep m] by auto
      have "\<forall>x\<in>set ?R. sp_to s + 1 \<le> sp_from x \<and> c \<le> sp_from x" using R(2) by fastforce
      then have "separated (?gap @ ?R) \<and> (\<forall>x\<in>set (?gap @ ?R). c \<le> sp_from x)"
        using R(1) on s by (cases "c < sp_from s") (force simp: separated_def)+
      then show ?thesis unfolding out append_assoc .
    qed
  qed
qed

lemma interval_in_one:
  assumes "separated ss" "{a..b} \<subseteq> cover ss" "a \<le> b"
  shows "\<exists>s\<in>set ss. sp_from s \<le> a \<and> b \<le> sp_to s"
  using assms
proof (induction ss)
  case (Cons s ss)
  have after: "\<forall>x\<in>set ss. sp_to s + 1 < sp_from x" and sep: "separated ss"
    using Cons.prems(1) by (simp_all add: separated_def)
  have gap: "sp_to s + 1 \<notin> cover (s # ss)" "\<And>x. x \<in> cover ss \<Longrightarrow> sp_to s + 1 < x"
    using after by (fastforce simp: cover_def)+
  show ?case
  proof (cases "a \<le> sp_to s")
    case True
    then have "b \<le> sp_to s" using gap(1) Cons.prems(2) by (smt (verit) atLeastAtMost_iff in_mono)
    moreover have "sp_from s \<le> a" using Cons.prems(2,3) gap(2) True by force
    ultimately show ?thesis by auto
  next
    case False
    then have "{a..b} \<subseteq> cover ss" using Cons.prems(2) by auto
    then show ?thesis using Cons.IH [OF sep] Cons.prems(3) by auto
  qed
qed simp

section \<open>The binary search\<close>

definition closed_before :: "kline list \<Rightarrow> int \<Rightarrow> int \<Rightarrow> bool" where
  "closed_before bars t r = (- 1 \<le> r \<and> r < int (length bars)
     \<and> (\<forall>i<length bars. (k_close_time (bars ! i) \<le> t) = (int i \<le> r)))"

lemma sorted_close: "sorted (List.map k_close_time bars) \<Longrightarrow> i \<le> j \<Longrightarrow> j < length bars \<Longrightarrow>
  k_close_time (bars ! i) \<le> k_close_time (bars ! j)"
  using sorted_nth_mono [of "List.map k_close_time bars" i j] by simp

lemma search_loop_correct:
  assumes "sorted (List.map k_close_time bars)" "0 \<le> lo" "hi < int (length bars)" "lo \<le> hi + 1" "ans = lo - 1"
    and "\<forall>i<length bars. (int i < lo \<longrightarrow> k_close_time (bars ! i) \<le> t) \<and> (hi < int i \<longrightarrow> t < k_close_time (bars ! i))"
  shows "closed_before bars t (search_loop bars t lo hi ans)"
  using assms
proof (induction bars t lo hi ans rule: search_loop.induct)
  case (1 bars t lo hi ans)
  let ?m = "(lo + hi) div 2"
  show ?case
  proof (cases "lo \<le> hi")
    case False
    then have "lo = hi + 1" using 1(6) by simp
    then have "closed_before bars t ans" using 1(4-8) by (fastforce simp: closed_before_def)
    then show ?thesis using False by (simp add: search_loop.simps [of bars t lo hi ans])
  next
    case True
    have m: "lo \<le> ?m" "?m \<le> hi" using True by auto
    then have mi: "nat ?m < length bars" "int (nat ?m) = ?m" using 1(4,5) by auto
    show ?thesis
    proof (cases "k_close_time (bars ! nat ?m) \<le> t")
      case le: True
      have "k_close_time (bars ! i) \<le> t" if "int i < ?m + 1" for i
        using sorted_close [OF 1(3), of i "nat ?m"] that mi le by linarith
      moreover have "search_loop bars t lo hi ans = search_loop bars t (?m + 1) hi ?m"
        using True le by (subst search_loop.simps) (simp add: Let_def)
      ultimately show ?thesis using 1(1) [OF _ refl le] 1(3-8) True m by simp
    next
      case gt: False
      have "t < k_close_time (bars ! i)" if "?m - 1 < int i" "i < length bars" for i
        using sorted_close [OF 1(3), of "nat ?m" i] that mi gt by linarith
      moreover have "search_loop bars t lo hi ans = search_loop bars t lo (?m - 1) ans"
        using True gt by (subst search_loop.simps) (simp add: Let_def)
      ultimately show ?thesis using 1(2) [OF _ refl gt] 1(3-8) True m by simp
    qed
  qed
qed

lemma lastClosedIndex_correct:
  "sorted (List.map k_close_time bars) \<Longrightarrow> closed_before bars t (lastClosedIndex bars t)"
  unfolding lastClosedIndex_def by (rule search_loop_correct) auto

lemma filter_closed:
  assumes "closed_before bars t r"
  shows "filter (\<lambda>k. k_close_time k \<le> t) bars = take (nat (r + 1)) bars"
proof -
  let ?n = "nat (r + 1)"
  have b: "?n \<le> length bars" "\<forall>i<length bars. (k_close_time (bars ! i) \<le> t) = (i < ?n)"
    using assms by (auto simp: closed_before_def)
  have "\<forall>k\<in>set (take ?n bars). k_close_time k \<le> t" using b by (auto simp: in_set_conv_nth)
  moreover have "\<forall>k\<in>set (drop ?n bars). \<not> k_close_time k \<le> t" using b by (auto simp: in_set_conv_nth)
  ultimately have "filter (\<lambda>k. k_close_time k \<le> t) (take ?n bars @ drop ?n bars) = take ?n bars"
    by (simp only: filter_append) (simp add: filter_id_conv filter_empty_conv)
  then show ?thesis by simp
qed

section \<open>Bars by open time\<close>

lemma bar_set_keys: "distinct (List.map k_open_time bs) \<Longrightarrow> distinct (List.map k_open_time (bar_set bs k))"
  "k_open_time ` set (bar_set bs k) = insert (k_open_time k) (k_open_time ` set bs)"
proof -
  show img: "k_open_time ` set (bar_set bs k) = insert (k_open_time k) (k_open_time ` set bs)" for bs k
    by (induction bs k rule: bar_set.induct) auto
  show "distinct (List.map k_open_time bs) \<Longrightarrow> distinct (List.map k_open_time (bar_set bs k))"
    by (induction bs k rule: bar_set.induct) (auto simp: img)
qed

lemma bar_set_in: "distinct (List.map k_open_time bs) \<Longrightarrow>
  x \<in> set (bar_set bs k) \<longleftrightarrow> x = k \<or> x \<in> set bs \<and> k_open_time x \<noteq> k_open_time k"
  by (induction bs k rule: bar_set.induct) (auto simp: image_iff)

lemma bar_fold_distinct: "distinct (List.map k_open_time bs) \<Longrightarrow> distinct (List.map k_open_time (foldl bar_set bs ks))"
  by (induction ks arbitrary: bs) (simp_all add: bar_set_keys)

lemma bar_fold_keys: "k_open_time ` set (foldl bar_set bs ks) = k_open_time ` set bs \<union> k_open_time ` set ks"
  by (induction ks arbitrary: bs) (auto simp: bar_set_keys)

lemma strictly_sorted_key:
  "distinct (List.map f xs) \<Longrightarrow> sorted_wrt (\<lambda>a b. f a < (f b :: int)) (sort_key f xs)"
proof -
  assume "distinct (List.map f xs)"
  moreover have "mset (List.map f (sort_key f xs)) = mset (List.map f xs)" by simp
  ultimately have "distinct (List.map f (sort_key f xs))" using mset_eq_imp_distinct_iff by blast
  moreover have "sorted (List.map f (sort_key f xs))" by simp
  ultimately have "sorted_wrt (<) (List.map f (sort_key f xs))" by (simp only: strict_sorted_iff)
  then show ?thesis by (simp only: sorted_wrt_map)
qed

lemma mergeBars_sorted: "sorted_wrt (\<lambda>a b. k_open_time a < k_open_time b) (mergeBars a b)"
  unfolding mergeBars_def by (intro strictly_sorted_key bar_fold_distinct) simp

lemma bar_fold_in: "distinct (List.map k_open_time bs) \<Longrightarrow> distinct (List.map k_open_time ks) \<Longrightarrow>
  x \<in> set (foldl bar_set bs ks) \<longleftrightarrow> x \<in> set ks \<or> x \<in> set bs \<and> k_open_time x \<notin> k_open_time ` set ks"
proof (induction ks arbitrary: bs)
  case (Cons k ks)
  have "x \<in> set (foldl bar_set (bar_set bs k) ks) \<longleftrightarrow>
      x \<in> set ks \<or> x \<in> set (bar_set bs k) \<and> k_open_time x \<notin> k_open_time ` set ks"
    using Cons.IH [OF bar_set_keys(1) [OF Cons.prems(1)]] Cons.prems(2) by simp
  then show ?case using bar_set_in [OF Cons.prems(1), of x k] Cons.prems(2) by auto
qed simp

section \<open>Properties\<close>

text \<open>C17 Merging spans gives a canonical form of the coverage: the result covers exactly the same instants, and its
  spans are ascending, non-empty and neither overlap nor touch.\<close>

theorem mergeSpans_canonical:
  "cover (mergeSpans spans) = cover spans
   \<and> sorted_wrt (\<lambda>a b. sp_to a + 1 < sp_from b) (mergeSpans spans) \<and> (\<forall>s\<in>set (mergeSpans spans). sp_from s \<le> sp_to s)"
  using mergeSpans_ok [of spans] by (simp add: separated_def)

theorem mergeSpans_canonical_witness:
  "cover (mergeSpans [spn 5 9, spn 1 4]) = {1..9}"
  using mergeSpans_canonical [of "[spn 5 9, spn 1 4]"] by auto

text \<open>Only what is missing is requested: the missing spans never contain a covered instant or one outside the
  range asked for, and every uncovered stretch of the range at least one step long lies inside one of them.\<close>

theorem missingSpans_exact:
  assumes "{a..b} \<subseteq> {from'..to'} - cover covered" "a \<le> b" "step \<le> b - a"
  shows "cover (missingSpans covered from' to' step) \<subseteq> {from'..to'} - cover covered
    \<and> (\<exists>s\<in>set (missingSpans covered from' to' step). sp_from s \<le> a \<and> b \<le> sp_to s)"
proof -
  obtain out c where m: "missing_loop from' to' (mergeSpans covered) = (out, c)" by force
  let ?all = "out @ tail_gap c to'"
  have c: "cover ?all = {from'..to'} - cover covered"
    using missing_loop_cover [OF _ m] mergeSpans_ok [of covered] by (auto simp: tail_gap_def)
  have sep: "separated ?all" using missing_loop_separated [OF _ m] mergeSpans_ok [of covered] by blast
  have ms: "missingSpans covered from' to' step = filter (\<lambda>s. step \<le> sp_to s - sp_from s) ?all"
    by (simp add: missingSpans_def m tail_gap_def)
  have "cover (missingSpans covered from' to' step) \<subseteq> cover ?all" unfolding ms cover_def by auto
  moreover obtain s where "s \<in> set ?all" "sp_from s \<le> a" "b \<le> sp_to s"
    using interval_in_one [OF sep _ assms(2)] assms(1) c by blast
  then have "s \<in> set (missingSpans covered from' to' step)" using assms(3) ms by auto
  ultimately show ?thesis using c \<open>sp_from s \<le> a\<close> \<open>b \<le> sp_to s\<close> by blast
qed

theorem missingSpans_exact_witness:
  "cover (missingSpans [spn 10 19] 0 39 5) \<subseteq> {0..39} - cover [spn 10 19]"
proof -
  have "{20..30} \<subseteq> {0..39} - cover [spn 10 19]" by auto
  from missingSpans_exact [OF this, of 5] show ?thesis by simp
qed

text \<open>C18 A judgment sees no future bar: on bars sorted by close time the binary search finds the last closed one,
  and the visible window is the given number of latest bars among exactly those closed at the time.\<close>

theorem visible_window_no_lookahead:
  assumes "sorted (List.map k_close_time bars)"
  shows "visibleWindow bars t cnt = (let seen = filter (\<lambda>k. k_close_time k \<le> t) bars in drop (length seen - nat cnt) seen)
    \<and> lastClosedIndex bars t = int (length (filter (\<lambda>k. k_close_time k \<le> t) bars)) - 1"
proof -
  let ?r = "lastClosedIndex bars t"
  have c: "closed_before bars t ?r" by (rule lastClosedIndex_correct [OF assms])
  have f: "filter (\<lambda>k. k_close_time k \<le> t) bars = take (nat (?r + 1)) bars" by (rule filter_closed [OF c])
  have r: "- 1 \<le> ?r" "?r < int (length bars)" using c by (simp_all add: closed_before_def)
  have l: "length (take (nat (?r + 1)) bars) = nat (?r + 1)" using r by simp
  have "nat (max 0 (?r - cnt + 1)) = nat (?r + 1) - nat cnt \<or> cnt < 0" using r by auto
  moreover have "cnt < 0 \<Longrightarrow> drop (nat (max 0 (?r - cnt + 1))) (take (nat (?r + 1)) bars) = []" using r by simp
  ultimately have "visibleWindow bars t cnt = drop (nat (?r + 1) - nat cnt) (take (nat (?r + 1)) bars)"
    using r by (auto simp: visibleWindow_def Let_def)
  then show ?thesis unfolding f Let_def l using r by simp
qed

definition example_kline :: "int \<Rightarrow> kline" where
  "example_kline n = \<lparr>k_open_time = 60000 * n, k_open = ''1'', k_high = ''2'', k_low = ''1'', k_close = ''2'', k_volume = ''1'',
     k_close_time = 60000 * n + 59999\<rparr>"

theorem visible_window_no_lookahead_witness:
  "visibleWindow (List.map example_kline [0, 1, 2, 3]) 179999 2 = [example_kline 1, example_kline 2]"
proof -
  have "sorted (List.map k_close_time (List.map example_kline [0, 1, 2, 3]))" by (simp add: example_kline_def)
  from visible_window_no_lookahead [OF this, of 179999 2] show ?thesis
    by (simp add: Let_def) (simp add: example_kline_def)
qed

lemma missing_in_range: "s \<in> set (missingSpans covered from' to' step) \<Longrightarrow> sp_from s \<le> sp_to s \<Longrightarrow>
  from' \<le> sp_from s \<and> sp_to s \<le> to'"
proof -
  assume s: "s \<in> set (missingSpans covered from' to' step)" "sp_from s \<le> sp_to s"
  obtain out c where m: "missing_loop from' to' (mergeSpans covered) = (out, c)" by force
  have "{sp_from s..sp_to s} \<subseteq> cover (missingSpans covered from' to' step)" using s(1) by (auto simp: cover_def)
  also have "\<dots> \<subseteq> cover (out @ tail_gap c to')" by (auto simp: missingSpans_def m tail_gap_def cover_def)
  also have "\<dots> \<subseteq> {from'..to'}"
    using missing_loop_cover [OF _ m] mergeSpans_ok [of covered] by (auto simp: tail_gap_def)
  finally show ?thesis using s(2) by simp
qed

lemma missing_valid: "s \<in> set (missingSpans covered from' to' step) \<Longrightarrow> sp_from s \<le> sp_to s"
proof -
  assume s: "s \<in> set (missingSpans covered from' to' step)"
  obtain out c where m: "missing_loop from' to' (mergeSpans covered) = (out, c)" by force
  have "separated (out @ tail_gap c to')" using missing_loop_separated [OF _ m] mergeSpans_ok [of covered] by blast
  moreover have "s \<in> set (out @ tail_gap c to')" using s by (auto simp: missingSpans_def m tail_gap_def)
  ultimately show ?thesis unfolding separated_def by blast
qed

lemma fetch_gap_sorted:
  "fetch_gap fetch now st gap = (bars, fetched) \<Longrightarrow> sorted_wrt (\<lambda>a b. k_open_time a < k_open_time b) bars"
  using mergeBars_sorted by (auto simp: fetch_gap_def Let_def split: prod.splits)

lemma fetch_gap_spans:
  assumes "fetch_gap fetch now (bars0, fetched0) gap = (bars, fetched)"
  shows "cover fetched0 \<subseteq> cover fetched \<and> cover fetched \<subseteq> cover fetched0 \<union> {..min (sp_to gap) (now - 1)}"
  using assms by (auto simp: fetch_gap_def Let_def split: prod.splits if_splits)

lemma fetch_fold:
  assumes "foldl (fetch_gap fetch now) (bars0, fetched0) gaps = (bars, fetched)"
    and "\<forall>g\<in>set gaps. sp_to g \<le> to'"
  shows "(gaps = [] \<or> sorted_wrt (\<lambda>a b. k_open_time a < k_open_time b) bars)
    \<and> cover fetched0 \<subseteq> cover fetched \<and> cover fetched \<subseteq> cover fetched0 \<union> {..min to' (now - 1)}"
  using assms
proof (induction gaps arbitrary: bars0 fetched0)
  case (Cons g gs)
  obtain b1 f1 where g: "fetch_gap fetch now (bars0, fetched0) g = (b1, f1)" by force
  have r: "foldl (fetch_gap fetch now) (b1, f1) gs = (bars, fetched)" using Cons.prems(1) g by simp
  note ih = Cons.IH [OF r]
  have "gs = [] \<Longrightarrow> bars = b1" using r by simp
  moreover have "{..min (sp_to g) (now - 1)} \<subseteq> {..min to' (now - 1)}" using Cons.prems(2) by auto
  ultimately show ?case using ih Cons.prems(2) fetch_gap_spans [OF g] fetch_gap_sorted [OF g] by auto
qed auto



end
