(* ===== verification/Paper.thy ===== *)
theory Paper imports DemoTypes Gates Threads begin

text \<open>
  The paper backend (\<open>PaperBackend\<close> of \<open>execution.ts\<close>): an in-process exchange simulator with a wallet, one
  position per symbol, resting orders, terminal order states and a snapshot that survives a restart. Receipts
  are JSON values; the human-readable message of an event only repeats its fields and is left out.
\<close>

section \<open>State\<close>

datatype order_outcome = OO_filled | OO_submitted | OO_unknown | OO_failed

record order_receipt =
  rc_outcome :: order_outcome
  rc_receipt :: json
  rc_avg_price :: "string option"
  rc_error :: "string option"

record entry_request =
  er_symbol :: string
  er_direction :: direction
  er_qty :: string
  er_entry :: entry_kind
  er_limit_price :: "string option"
  er_client_order_id :: string

datatype paper_event_kind = PE_entry_filled | PE_sl_hit | PE_tp_hit

record paper_event =
  pe_kind :: paper_event_kind
  pe_symbol :: string
  pe_client_order_id :: string
  pe_price :: string
  pe_realized_pnl :: "string option"

record paper_position =
  pp_symbol :: string
  pp_side :: direction
  pp_qty :: jsnum
  pp_entry :: jsnum
  pp_leverage :: jsnum

record paper_order = open_order_view +
  po_position_side :: direction

record paper_snapshot =
  ps_version :: int
  ps_wallet :: jsnum
  ps_positions :: "paper_position list"
  ps_orders :: "paper_order list"
  ps_closed :: "(string \<times> order_status_view) list"
  ps_marks :: "(string \<times> string) list"
  ps_leverages :: "(string \<times> jsnum) list"

text \<open>\<open>pb_persist\<close> is None without a persistence hook, otherwise the content of the store.\<close>

record paper =
  pb_wallet :: jsnum
  pb_positions :: "(string \<times> paper_position) list"
  pb_orders :: "paper_order list"
  pb_closed :: "(string \<times> order_status_view) list"
  pb_marks :: "(string \<times> string) list"
  pb_leverages :: "(string \<times> jsnum) list"
  pb_persist :: "paper_snapshot option option"

definition PAPER_SNAPSHOT_VERSION :: int where "PAPER_SNAPSHOT_VERSION = 1"

definition CLOSED_KEEP :: nat where "CLOSED_KEEP = 500"

definition FEE_RATE :: jsnum where "FEE_RATE = lit (4/10000)"

section \<open>Persistence\<close>

definition snapshot :: "paper \<Rightarrow> paper_snapshot" where
  "snapshot b = \<lparr>ps_version = PAPER_SNAPSHOT_VERSION, ps_wallet = pb_wallet b, ps_positions = List.map snd (pb_positions b),
     ps_orders = pb_orders b,
     ps_closed = (if CLOSED_KEEP < length (pb_closed b) then drop (length (pb_closed b) - CLOSED_KEEP) (pb_closed b) else pb_closed b),
     ps_marks = pb_marks b, ps_leverages = pb_leverages b\<rparr>"

text \<open>Reading back what the store holds; a missing or stale snapshot is ignored.\<close>

definition restore :: "paper \<Rightarrow> paper" where
  "restore b = (case pb_persist b of Some (Some snap) \<Rightarrow>
       if ps_version snap \<noteq> PAPER_SNAPSHOT_VERSION then b
       else b\<lparr>pb_wallet := (if is_fin (ps_wallet snap) then ps_wallet snap else pb_wallet b),
              pb_positions := map_of_entries (List.map (\<lambda>p. (pp_symbol p, p)) (ps_positions snap)),
              pb_orders := ps_orders snap, pb_closed := map_of_entries (ps_closed snap),
              pb_marks := map_of_entries (ps_marks snap), pb_leverages := map_of_entries (ps_leverages snap)\<rparr>
     | _ \<Rightarrow> b)"

definition new_paper :: "jsnum \<Rightarrow> paper_snapshot option option \<Rightarrow> paper" where
  "new_paper equity store = restore \<lparr>pb_wallet = equity, pb_positions = [], pb_orders = [], pb_closed = [], pb_marks = [],
     pb_leverages = [], pb_persist = store\<rparr>"

definition save :: "paper \<Rightarrow> paper" where
  "save b = (case pb_persist b of None \<Rightarrow> b | Some _ \<Rightarrow> b\<lparr>pb_persist := Some (Some (snapshot b))\<rparr>)"

section \<open>Market and account\<close>

definition setMark :: "string \<Rightarrow> string \<Rightarrow> paper \<Rightarrow> paper" where
  "setMark symbol mark b = save (b\<lparr>pb_marks := map_set (pb_marks b) symbol mark\<rparr>)"

definition markPrice :: "string \<Rightarrow> paper \<Rightarrow> string" where
  "markPrice symbol b = (case map_of (pb_marks b) symbol of Some m \<Rightarrow> m | None \<Rightarrow> ''0'')"

definition mark_num :: "string \<Rightarrow> paper \<Rightarrow> jsnum" where
  "mark_num symbol b = js_number (markPrice symbol b)"

definition setLeverage :: "string \<Rightarrow> jsnum \<Rightarrow> paper \<Rightarrow> paper" where
  "setLeverage symbol lev b = save (b\<lparr>pb_leverages := map_set (pb_leverages b) symbol lev\<rparr>)"

definition position_pnl :: "paper \<Rightarrow> paper_position \<Rightarrow> jsnum \<times> jsnum" where
  "position_pnl b p = (let m0 = mark_num (pp_symbol p) b; m = (if num_truthy m0 then m0 else pp_entry p)
     in (m, (if pp_side p = Long then m - pp_entry p else pp_entry p - m) * pp_qty p))"

definition account :: "int \<Rightarrow> paper \<Rightarrow> account_view" where
  "account now b = (
     let ps = List.map snd (pb_positions b);
         upnl = foldl (\<lambda>a p. a + snd (position_pnl b p)) (Fin 0) ps;
         equity = pb_wallet b + upnl
     in \<lparr>av_backend = PaperB, av_equity = to_fixed 2 equity, av_available = to_fixed 2 (pb_wallet b),
         av_unrealized_pnl = to_fixed 2 upnl,
         av_positions = List.map (\<lambda>p. let (m, pnl) = position_pnl b p in
           \<lparr>pv_symbol = pp_symbol p, pv_side = pp_side p, pv_qty = num_str (pp_qty p), pv_entry_price = num_str (pp_entry p),
            pv_mark_price = num_str m, pv_unrealized_pnl = to_fixed 2 pnl, pv_leverage = pp_leverage p\<rparr>) ps,
         av_open_orders = List.map open_order_view.truncate (pb_orders b), av_as_of = now\<rparr>)"

section \<open>Fills and closes\<close>

definition canceled_view :: order_status_view where
  "canceled_view = \<lparr>os_status = ''CANCELED'', os_avg_price = None, os_executed_qty = ''0''\<rparr>"

definition cancel_orders :: "(paper_order \<Rightarrow> bool) \<Rightarrow> paper \<Rightarrow> paper" where
  "cancel_orders P b = b\<lparr>pb_closed := foldl (\<lambda>c ord. map_set c (ov_client_order_id ord) canceled_view) (pb_closed b)
       (filter P (pb_orders b)),
     pb_orders := filter (\<lambda>ord. \<not> P ord) (pb_orders b)\<rparr>"

definition closeAt :: "string \<Rightarrow> jsnum \<Rightarrow> jsnum option \<Rightarrow> paper \<Rightarrow> jsnum \<times> paper" where
  "closeAt symbol price qty b = (case map_of (pb_positions b) symbol of None \<Rightarrow> (Fin 0, b)
     | Some p \<Rightarrow>
       let q = js_min (pp_qty p) (case qty of Some x \<Rightarrow> x | None \<Rightarrow> pp_qty p);
           pnl = (if pp_side p = Long then price - pp_entry p else pp_entry p - price) * q - price * q * FEE_RATE;
           b1 = b\<lparr>pb_wallet := pb_wallet b + pnl\<rparr>
       in (pnl, if pp_qty p - lit (1/10^12) \<le> q
           then cancel_orders (\<lambda>ord. ov_symbol ord = symbol \<and> ov_reduce_only ord)
             (b1\<lparr>pb_positions := map_delete (pb_positions b1) symbol\<rparr>)
           else b1\<lparr>pb_positions := map_set (pb_positions b1) symbol (p\<lparr>pp_qty := pp_qty p - q\<rparr>)\<rparr>))"

definition fill :: "string \<Rightarrow> direction \<Rightarrow> jsnum \<Rightarrow> jsnum \<Rightarrow> jsnum \<Rightarrow> paper \<Rightarrow> paper" where
  "fill symbol side qty price leverage b = (
     let b1 = b\<lparr>pb_wallet := pb_wallet b - price * qty * FEE_RATE\<rparr> in
     case map_of (pb_positions b) symbol of
       None \<Rightarrow> b1\<lparr>pb_positions := map_set (pb_positions b1) symbol
         \<lparr>pp_symbol = symbol, pp_side = side, pp_qty = qty, pp_entry = price, pp_leverage = leverage\<rparr>\<rparr>
     | Some p \<Rightarrow> if pp_side p = side then b1\<lparr>pb_positions := map_set (pb_positions b1) symbol
           (p\<lparr>pp_entry := (pp_entry p * pp_qty p + price * qty) / (pp_qty p + qty), pp_qty := pp_qty p + qty\<rparr>)\<rparr>
         else snd (closeAt symbol price (Some qty) b1))"

definition leverage_of :: "string \<Rightarrow> paper \<Rightarrow> jsnum" where
  "leverage_of symbol b = (case map_of (pb_leverages b) symbol of Some l \<Rightarrow> l | None \<Rightarrow> Fin 3)"

definition failed :: "string \<Rightarrow> order_receipt" where
  "failed msg = \<lparr>rc_outcome = OO_failed, rc_receipt = JNull, rc_avg_price = None, rc_error = Some msg\<rparr>"

definition filled_receipt :: "string \<Rightarrow> jsnum \<Rightarrow> string \<Rightarrow> order_receipt" where
  "filled_receipt cid m qty = \<lparr>rc_outcome = OO_filled,
     rc_receipt = JObj [(''paper'', JBool True), (''clientOrderId'', JStr cid), (''avgPrice'', JStr (num_str m)),
       (''executedQty'', JStr qty), (''status'', JStr ''FILLED'')],
     rc_avg_price = Some (num_str m), rc_error = None\<rparr>"

definition str_or_null :: "string option \<Rightarrow> json" where
  "str_or_null s = (case s of Some x \<Rightarrow> JStr x | None \<Rightarrow> JNull)"

definition limit_order :: "entry_request \<Rightarrow> paper_order" where
  "limit_order r = \<lparr>ov_symbol = er_symbol r, ov_client_order_id = er_client_order_id r, ov_type = ''LIMIT'',
     ov_side = (if er_direction r = Long then ''BUY'' else ''SELL''), ov_qty = er_qty r, ov_price = er_limit_price r,
     ov_stop_price = None, ov_reduce_only = False, ov_status = ''NEW'', po_position_side = er_direction r\<rparr>"

text \<open>\<open>Number(null)\<close> is 0, so a limit order without a price is refused like one with a bad price.\<close>

definition crosses :: "direction \<Rightarrow> jsnum \<Rightarrow> jsnum \<Rightarrow> bool" where
  "crosses d m price = (if d = Long then m \<le> price else price \<le> m)"

definition placeEntry :: "entry_request \<Rightarrow> paper \<Rightarrow> order_receipt \<times> paper" where
  "placeEntry r b = (
     let m = mark_num (er_symbol r) b; qty = js_number (er_qty r); lev = leverage_of (er_symbol r) b in
     if \<not> Fin 0 < m then (failed ''paper: no mark price yet'', b)
     else if er_entry r = Limit then
       (let price = (case er_limit_price r of Some s \<Rightarrow> js_number s | None \<Rightarrow> Fin 0) in
        if \<not> Fin 0 < price then (failed ''paper: limit price required'', b)
        else if crosses (er_direction r) m price then
          (filled_receipt (er_client_order_id r) m (er_qty r), save (fill (er_symbol r) (er_direction r) qty m lev b))
        else (\<lparr>rc_outcome = OO_submitted,
              rc_receipt = JObj [(''paper'', JBool True), (''clientOrderId'', JStr (er_client_order_id r)),
                (''price'', str_or_null (er_limit_price r)), (''status'', JStr ''NEW'')],
              rc_avg_price = None, rc_error = None\<rparr>,
            save (b\<lparr>pb_orders := pb_orders b @ [limit_order r]\<rparr>)))
     else (filled_receipt (er_client_order_id r) m (er_qty r), save (fill (er_symbol r) (er_direction r) qty m lev b)))"

definition protective :: "string \<Rightarrow> direction \<Rightarrow> string \<Rightarrow> string \<Rightarrow> string \<Rightarrow> paper \<Rightarrow> order_receipt \<times> paper" where
  "protective symbol position price cid type b = (
     \<lparr>rc_outcome = OO_submitted, rc_receipt = JObj [(''paper'', JBool True), (''clientOrderId'', JStr cid), (''type'', JStr type),
        (''stopPrice'', JStr price), (''status'', JStr ''NEW'')], rc_avg_price = None, rc_error = None\<rparr>,
     save (b\<lparr>pb_orders := pb_orders b @ [\<lparr>ov_symbol = symbol, ov_client_order_id = cid, ov_type = type,
        ov_side = (if position = Long then ''SELL'' else ''BUY''), ov_qty = ''0'', ov_price = None, ov_stop_price = Some price,
        ov_reduce_only = True, ov_status = ''NEW'', po_position_side = position\<rparr>]\<rparr>))"

definition placeStop :: "string \<Rightarrow> direction \<Rightarrow> string \<Rightarrow> string \<Rightarrow> paper \<Rightarrow> order_receipt \<times> paper" where
  "placeStop symbol position stop cid b = protective symbol position stop cid ''STOP_MARKET'' b"

definition placeTakeProfit :: "string \<Rightarrow> direction \<Rightarrow> string \<Rightarrow> string \<Rightarrow> paper \<Rightarrow> order_receipt \<times> paper" where
  "placeTakeProfit symbol position tp cid b = protective symbol position tp cid ''TAKE_PROFIT_MARKET'' b"

definition closePosition :: "string \<Rightarrow> string \<Rightarrow> paper \<Rightarrow> (bool \<times> json) \<times> paper" where
  "closePosition symbol cid b = (if map_of (pb_positions b) symbol = None then ((False, JNull), b)
     else let price = mark_num symbol b; (pnl, b1) = closeAt symbol price None b
          in ((True, JObj [(''paper'', JBool True), (''clientOrderId'', JStr cid), (''avgPrice'', JStr (num_str price)),
               (''realizedPnl'', JStr (to_fixed 2 pnl))]), save b1))"

definition reducePosition :: "string \<Rightarrow> string \<Rightarrow> string \<Rightarrow> paper \<Rightarrow> order_receipt \<times> paper" where
  "reducePosition symbol qty cid b = (if map_of (pb_positions b) symbol = None then (failed ''paper: no position'', b)
     else let price = mark_num symbol b; (pnl, b1) = closeAt symbol price (Some (js_number qty)) b
          in (\<lparr>rc_outcome = OO_filled, rc_receipt = JObj [(''paper'', JBool True), (''clientOrderId'', JStr cid),
                (''avgPrice'', JStr (num_str price)), (''realizedPnl'', JStr (to_fixed 2 pnl))],
              rc_avg_price = Some (num_str price), rc_error = None\<rparr>, save b1))"

section \<open>Orders\<close>

definition cancelAll :: "string \<Rightarrow> paper \<Rightarrow> paper" where
  "cancelAll symbol b = save (cancel_orders (\<lambda>ord. ov_symbol ord = symbol) b)"

text \<open>Orders are removed by identity; the one removed is the first with its contents.\<close>

definition cancelOrder :: "string \<Rightarrow> string \<Rightarrow> paper \<Rightarrow> (unit + string) \<times> paper" where
  "cancelOrder symbol cid b = (case List.find (\<lambda>x. ov_symbol x = symbol \<and> ov_client_order_id x = cid) (pb_orders b) of
     None \<Rightarrow> (Inr ''paper: order not found'', b)
   | Some ord \<Rightarrow> (Inl (), save (b\<lparr>pb_closed := map_set (pb_closed b) cid canceled_view, pb_orders := remove1 ord (pb_orders b)\<rparr>)))"

definition getOrder :: "string \<Rightarrow> paper \<Rightarrow> order_status_view option" where
  "getOrder cid b = (case List.find (\<lambda>x. ov_client_order_id x = cid) (pb_orders b) of
     Some _ \<Rightarrow> Some \<lparr>os_status = ''NEW'', os_avg_price = None, os_executed_qty = ''0''\<rparr>
   | None \<Rightarrow> map_of (pb_closed b) cid)"

definition order_price :: "string option \<Rightarrow> jsnum" where
  "order_price s = (case s of Some x \<Rightarrow> js_number x | None \<Rightarrow> Fin 0)"

definition tick_limit :: "string \<Rightarrow> jsnum \<Rightarrow> paper \<times> paper_event list \<Rightarrow> paper_order \<Rightarrow> paper \<times> paper_event list" where
  "tick_limit symbol m = (\<lambda>(b, evs) ord.
     let price = order_price (ov_price ord) in
     if \<not> crosses (po_position_side ord) m price then (b, evs)
     else let b1 = fill symbol (po_position_side ord) (js_number (ov_qty ord)) price (leverage_of symbol b) b
          in (b1\<lparr>pb_orders := remove1 ord (pb_orders b1),
               pb_closed := map_set (pb_closed b1) (ov_client_order_id ord)
                 \<lparr>os_status = ''FILLED'', os_avg_price = Some (num_str price), os_executed_qty = ov_qty ord\<rparr>\<rparr>,
              evs @ [\<lparr>pe_kind = PE_entry_filled, pe_symbol = symbol, pe_client_order_id = ov_client_order_id ord,
                pe_price = num_str price, pe_realized_pnl = None\<rparr>]))"

definition protection_hit :: "paper_position \<Rightarrow> jsnum \<Rightarrow> paper_order \<Rightarrow> bool" where
  "protection_hit p m ord = (let trig = order_price (ov_stop_price ord) in
     if ov_type ord = ''STOP_MARKET'' then (if pp_side p = Long then m \<le> trig else trig \<le> m)
     else (if pp_side p = Long then trig \<le> m else m \<le> trig))"

definition tick_protection :: "string \<Rightarrow> jsnum \<Rightarrow> paper \<Rightarrow> paper \<times> paper_event list" where
  "tick_protection symbol m b = (case map_of (pb_positions b) symbol of None \<Rightarrow> (b, [])
     | Some p \<Rightarrow> (case List.find (protection_hit p m) (filter (\<lambda>x. ov_symbol x = symbol \<and> ov_reduce_only x) (pb_orders b)) of
         None \<Rightarrow> (b, [])
       | Some ord \<Rightarrow> let trig = order_price (ov_stop_price ord); (pnl, b1) = closeAt symbol trig None b
           in (b1\<lparr>pb_closed := map_set (pb_closed b1) (ov_client_order_id ord)
                 \<lparr>os_status = ''FILLED'', os_avg_price = Some (num_str trig), os_executed_qty = num_str (pp_qty p)\<rparr>\<rparr>,
               [\<lparr>pe_kind = (if ov_type ord = ''STOP_MARKET'' then PE_sl_hit else PE_tp_hit), pe_symbol = symbol,
                 pe_client_order_id = ov_client_order_id ord, pe_price = num_str trig, pe_realized_pnl = Some (to_fixed 2 pnl)\<rparr>])))"

definition tick :: "string \<Rightarrow> string \<Rightarrow> paper \<Rightarrow> paper_event list \<times> paper" where
  "tick symbol mark b = (
     let b0 = b\<lparr>pb_marks := map_set (pb_marks b) symbol mark\<rparr>; m = js_number mark;
         (b1, evs) = foldl (tick_limit symbol m) (b0, []) (filter (\<lambda>x. ov_symbol x = symbol \<and> ov_type x = ''LIMIT'') (pb_orders b0));
         (b2, evs2) = tick_protection symbol m b1
     in (evs @ evs2, save b2))"

section \<open>Runs\<close>

datatype paper_op = SetMark string string | SetLeverage string jsnum | PlaceEntry entry_request
  | PlaceStop string direction string string | PlaceTp string direction string string | Close string string
  | Reduce string string string | CancelAll string | CancelOrder string string | Tick string string

fun paper_step :: "paper \<Rightarrow> paper_op \<Rightarrow> paper" where
  "paper_step b (SetMark s m) = setMark s m b"
| "paper_step b (SetLeverage s l) = setLeverage s l b"
| "paper_step b (PlaceEntry r) = snd (placeEntry r b)"
| "paper_step b (PlaceStop s d p c) = snd (placeStop s d p c b)"
| "paper_step b (PlaceTp s d p c) = snd (placeTakeProfit s d p c b)"
| "paper_step b (Close s c) = snd (closePosition s c b)"
| "paper_step b (Reduce s q c) = snd (reducePosition s q c b)"
| "paper_step b (CancelAll s) = cancelAll s b"
| "paper_step b (CancelOrder s c) = snd (cancelOrder s c b)"
| "paper_step b (Tick s m) = snd (tick s m b)"

text \<open>Every operation is a change of the simulator followed by a save, or leaves it alone. \<open>preserves P\<close> collects what
  the changes keep.\<close>

definition saved :: "(paper \<Rightarrow> paper \<Rightarrow> bool) \<Rightarrow> paper \<Rightarrow> paper \<Rightarrow> bool" where
  "saved R b b' = (b' = b \<or> (\<exists>c. R b c \<and> b' = save c))"

lemma saved_intros: "saved R b b" "R b c \<Longrightarrow> saved R b (save c)"
  by (auto simp: saved_def)

lemma save_sel [simp]: "pb_wallet (save b) = pb_wallet b" "pb_positions (save b) = pb_positions b"
  "pb_orders (save b) = pb_orders b" "pb_closed (save b) = pb_closed b" "pb_marks (save b) = pb_marks b"
  "pb_leverages (save b) = pb_leverages b"
  by (simp_all add: save_def split: option.split)

lemma cancel_orders_sel [simp]: "pb_wallet (cancel_orders P b) = pb_wallet b" "pb_positions (cancel_orders P b) = pb_positions b"
  "pb_marks (cancel_orders P b) = pb_marks b" "pb_leverages (cancel_orders P b) = pb_leverages b"
  "pb_persist (cancel_orders P b) = pb_persist b" "pb_orders (cancel_orders P b) = filter (\<lambda>ord. \<not> P ord) (pb_orders b)"
  by (simp_all add: cancel_orders_def)

lemma fold_closed_keys:
  "fst ` set (foldl (\<lambda>c x. map_set c (f x) v) c xs) = fst ` set c \<union> f ` set xs"
  by (induction xs arbitrary: c) auto

lemma fold_closed_distinct:
  "distinct (List.map fst c) \<Longrightarrow> distinct (List.map fst (foldl (\<lambda>c x. map_set c (f x) v) c xs))"
  by (induction xs arbitrary: c) (simp_all add: distinct_map_set)

definition known :: "paper \<Rightarrow> string set" where
  "known b = ov_client_order_id ` set (pb_orders b) \<union> fst ` set (pb_closed b)"

definition wf_paper :: "paper \<Rightarrow> bool" where
  "wf_paper b = (distinct (List.map fst (pb_positions b)) \<and> (\<forall>(s, p)\<in>set (pb_positions b). pp_symbol p = s)
     \<and> distinct (List.map fst (pb_closed b)) \<and> distinct (List.map fst (pb_marks b)) \<and> distinct (List.map fst (pb_leverages b)))"

text \<open>What every change keeps: the shape of the maps, the persistence slot, and the order ids known.\<close>

definition keeps :: "paper \<Rightarrow> paper \<Rightarrow> bool" where
  "keeps b c = ((wf_paper b \<longrightarrow> wf_paper c) \<and> pb_persist c = pb_persist b \<and> known b \<subseteq> known c)"

lemma keeps_refl: "keeps b b"
  by (simp add: keeps_def)

lemma keeps_trans: "keeps a b \<Longrightarrow> keeps b c \<Longrightarrow> keeps a c"
  by (auto simp: keeps_def)

lemma set_map_set: "x \<in> set (map_set m k v) \<Longrightarrow> x = (k, v) \<or> x \<in> set m"
  by (induction m k v rule: map_set.induct) (auto split: if_splits)

lemma keeps_wallet: "keeps b (b\<lparr>pb_wallet := w\<rparr>)"
  by (simp add: keeps_def wf_paper_def known_def)

lemma keeps_position: "pp_symbol p = s \<Longrightarrow> keeps b (b\<lparr>pb_positions := map_set (pb_positions b) s p\<rparr>)"
  by (auto simp: keeps_def wf_paper_def known_def distinct_map_set dest!: set_map_set)

lemma keeps_delete: "keeps b (b\<lparr>pb_positions := map_delete (pb_positions b) s\<rparr>)"
  by (auto simp: keeps_def wf_paper_def known_def distinct_map_delete) (auto simp: map_delete_def)

lemma keeps_cancel: "keeps b (cancel_orders P b)"
  by (auto simp: keeps_def wf_paper_def known_def cancel_orders_def fold_closed_keys fold_closed_distinct image_iff)

lemma keeps_orders: "keeps b (b\<lparr>pb_orders := pb_orders b @ os\<rparr>)"
  by (auto simp: keeps_def wf_paper_def known_def)

lemma keeps_marks: "keeps b (b\<lparr>pb_marks := map_set (pb_marks b) s m\<rparr>)"
  by (simp add: keeps_def wf_paper_def known_def distinct_map_set)

lemma keeps_leverages: "keeps b (b\<lparr>pb_leverages := map_set (pb_leverages b) s m\<rparr>)"
  by (simp add: keeps_def wf_paper_def known_def distinct_map_set)

lemma keeps_close_order:
  "ov_client_order_id ord = cid \<Longrightarrow>
    keeps b (b\<lparr>pb_orders := remove1 ord (pb_orders b), pb_closed := map_set (pb_closed b) cid v\<rparr>)"
  by (auto simp: keeps_def wf_paper_def known_def distinct_map_set image_iff) (metis in_set_remove1)

lemma keeps_closed: "keeps b (b\<lparr>pb_closed := map_set (pb_closed b) cid v\<rparr>)"
  by (auto simp: keeps_def wf_paper_def known_def distinct_map_set)

lemmas keeps_intros = keeps_refl keeps_wallet keeps_position keeps_delete keeps_cancel keeps_orders keeps_marks
  keeps_leverages keeps_close_order keeps_closed

lemma wf_symbol: "wf_paper b \<Longrightarrow> map_of (pb_positions b) s = Some p \<Longrightarrow> pp_symbol p = s"
  by (auto simp: wf_paper_def dest: map_of_SomeD)

lemma closeAt_Some:
  assumes "map_of (pb_positions b) s = Some p"
  shows "snd (closeAt s price qty b) = (
    let q = js_min (pp_qty p) (case qty of Some x \<Rightarrow> x | None \<Rightarrow> pp_qty p); b1 = b\<lparr>pb_wallet := pb_wallet b + fst (closeAt s price qty b)\<rparr> in
    if pp_qty p - lit (1/10^12) \<le> q
    then cancel_orders (\<lambda>ord. ov_symbol ord = s \<and> ov_reduce_only ord) (b1\<lparr>pb_positions := map_delete (pb_positions b1) s\<rparr>)
    else b1\<lparr>pb_positions := map_set (pb_positions b1) s (p\<lparr>pp_qty := pp_qty p - q\<rparr>)\<rparr>)"
  using assms by (simp add: closeAt_def Let_def)

lemma keeps_closeAt:
  assumes "wf_paper b"
  shows "keeps b (snd (closeAt s price q b))"
proof (cases "map_of (pb_positions b) s")
  case (Some p)
  have sym: "pp_symbol (p\<lparr>pp_qty := x\<rparr>) = s" for x using wf_symbol [OF assms Some] by simp
  have "keeps b (if c then cancel_orders P (b\<lparr>pb_wallet := w\<rparr>\<lparr>pb_positions := map_delete (pb_positions (b\<lparr>pb_wallet := w\<rparr>)) s\<rparr>)
    else b\<lparr>pb_wallet := w\<rparr>\<lparr>pb_positions := map_set (pb_positions (b\<lparr>pb_wallet := w\<rparr>)) s (p\<lparr>pp_qty := x\<rparr>)\<rparr>)" for c P w x
    using keeps_trans [OF keeps_wallet keeps_trans [OF keeps_delete keeps_cancel]]
      keeps_trans [OF keeps_wallet keeps_position [OF sym]] by (cases c) (simp_all only: if_True if_False)
  then show ?thesis unfolding closeAt_Some [OF Some] Let_def .
qed (simp add: closeAt_def keeps_refl)

lemma keeps_fill:
  assumes "wf_paper b"
  shows "keeps b (fill s d q price l b)"
proof -
  let ?b1 = "b\<lparr>pb_wallet := pb_wallet b - price * q * FEE_RATE\<rparr>"
  have wf: "wf_paper ?b1" using assms keeps_wallet by (auto simp: keeps_def)
  show ?thesis
  proof (cases "map_of (pb_positions b) s")
    case None
    have "keeps ?b1 (?b1\<lparr>pb_positions := map_set (pb_positions ?b1) s
        \<lparr>pp_symbol = s, pp_side = d, pp_qty = q, pp_entry = price, pp_leverage = l\<rparr>\<rparr>)" by (rule keeps_position) simp
    from keeps_trans [OF keeps_wallet this] show ?thesis using None by (simp add: fill_def Let_def)
  next
    case (Some p)
    show ?thesis
    proof (cases "pp_side p = d")
      case True
      have "pp_symbol (p\<lparr>pp_entry := e, pp_qty := x\<rparr>) = s" for e x using wf_symbol [OF assms Some] by simp
      from keeps_trans [OF keeps_wallet keeps_position [OF this]] show ?thesis using Some True by (simp add: fill_def Let_def)
    next
      case False
      from keeps_trans [OF keeps_wallet keeps_closeAt [OF wf]] show ?thesis using Some False by (simp add: fill_def Let_def)
    qed
  qed
qed

lemma keeps_tick_limit:
  assumes "wf_paper (fst st)"
  shows "keeps (fst st) (fst (tick_limit s m st ord))"
proof (cases st)
  case (Pair b evs)
  then show ?thesis using keeps_trans [OF keeps_fill keeps_close_order [OF refl]] assms
    by (simp add: tick_limit_def Let_def keeps_refl)
qed

lemma keeps_tick_fold: "wf_paper (fst st) \<Longrightarrow> keeps (fst st) (fst (foldl (tick_limit s m) st os))"
proof (induction os arbitrary: st)
  case (Cons ord os)
  have k: "keeps (fst st) (fst (tick_limit s m st ord))" by (rule keeps_tick_limit [OF Cons.prems])
  then have "wf_paper (fst (tick_limit s m st ord))" using Cons.prems by (simp add: keeps_def)
  from keeps_trans [OF k Cons.IH [OF this]] show ?case by simp
qed (simp add: keeps_refl)

lemma keeps_tick_protection:
  assumes "wf_paper b"
  shows "keeps b (fst (tick_protection s m b))"
proof -
  have "keeps b (snd (closeAt s trig None b)\<lparr>pb_closed := map_set (pb_closed (snd (closeAt s trig None b))) cid v\<rparr>)" for trig cid v
    by (rule keeps_trans [OF keeps_closeAt [OF assms] keeps_closed])
  then show ?thesis unfolding tick_protection_def
    by (simp add: Let_def keeps_refl case_prod_beta split: option.split)
qed

lemma keeps_wf: "keeps b c \<Longrightarrow> wf_paper b \<Longrightarrow> wf_paper c"
  by (simp add: keeps_def)

lemma step_saved:
  assumes "wf_paper b"
  shows "saved keeps b (paper_step b x)"
proof (cases x)
  case (Tick s m)
  let ?b0 = "b\<lparr>pb_marks := map_set (pb_marks b) s m\<rparr>"
  obtain b1 e1 where f: "foldl (tick_limit s (js_number m)) (?b0, []) (filter (\<lambda>x. ov_symbol x = s \<and> ov_type x = ''LIMIT'') (pb_orders ?b0)) = (b1, e1)"
    by force
  have k1: "keeps ?b0 b1"
    using keeps_tick_fold [of "(?b0, [])" s "js_number m", unfolded fst_conv, OF keeps_wf [OF keeps_marks assms]] f
    by (metis (no_types, lifting) fst_conv)
  have "keeps b1 (fst (tick_protection s (js_number m) b1))"
    by (rule keeps_tick_protection [OF keeps_wf [OF k1 keeps_wf [OF keeps_marks assms]]])
  from keeps_trans [OF keeps_trans [OF keeps_marks k1] this] show ?thesis
    using f unfolding saved_def Tick by (intro disjI2 exI conjI) (simp_all add: tick_def Let_def case_prod_beta)
next
  case (PlaceEntry r)
  then show ?thesis
    by (auto simp: placeEntry_def Let_def intro!: saved_intros keeps_fill [OF assms] keeps_orders)
next
  case (Close s c)
  then show ?thesis using keeps_closeAt [OF assms, of s "mark_num s b" None]
    by (auto simp: closePosition_def Let_def case_prod_beta intro!: saved_intros)
next
  case (Reduce s q c)
  then show ?thesis using keeps_closeAt [OF assms, of s "mark_num s b" "Some (js_number q)"]
    by (auto simp: reducePosition_def Let_def case_prod_beta intro!: saved_intros)
next
  case (CancelOrder s c)
  have "keeps b (b\<lparr>pb_closed := map_set (pb_closed b) c canceled_view, pb_orders := remove1 ord (pb_orders b)\<rparr>)"
    if "List.find (\<lambda>x. ov_symbol x = s \<and> ov_client_order_id x = c) (pb_orders b) = Some ord" for ord
  proof -
    have "ov_client_order_id ord = c" using that by (auto simp: find_Some_iff)
    then show ?thesis using keeps_close_order [of ord c b canceled_view] by (simp add: keeps_def wf_paper_def known_def)
  qed
  then show ?thesis by (auto simp: CancelOrder cancelOrder_def split: option.split intro!: saved_intros)
qed (auto simp: setMark_def setLeverage_def placeStop_def placeTakeProfit_def protective_def cancelAll_def
    intro!: saved_intros keeps_marks keeps_leverages keeps_orders keeps_cancel)

section \<open>Restart\<close>

definition paper_store :: "paper \<Rightarrow> paper_snapshot option" where
  "paper_store b = (case pb_persist b of Some x \<Rightarrow> x | None \<Rightarrow> None)"

definition snapshot_fits :: "paper \<Rightarrow> bool" where
  "snapshot_fits b = (length (pb_closed b) \<le> CLOSED_KEEP \<and> is_fin (pb_wallet b)
     \<and> (\<forall>(s, p)\<in>set (pb_positions b). is_fin (pp_qty p) \<and> is_fin (pp_entry p) \<and> is_fin (pp_leverage p))
     \<and> (\<forall>(s, l)\<in>set (pb_leverages b). is_fin l))"

lemma saved_elim: "saved R b b' \<Longrightarrow> (b' = b \<Longrightarrow> P) \<Longrightarrow> (\<And>c. R b c \<Longrightarrow> b' = save c \<Longrightarrow> P) \<Longrightarrow> P"
  by (auto simp: saved_def)

lemma snapshot_persist [simp]: "snapshot (b\<lparr>pb_persist := x\<rparr>) = snapshot b"
  by (simp add: snapshot_def)

lemma known_save [simp]: "known (save b) = known b"
  by (simp add: known_def)

lemma wf_save [simp]: "wf_paper (save b) = wf_paper b"
  by (simp add: wf_paper_def)

lemma snapshot_save [simp]: "snapshot (save b) = snapshot b"
  by (simp add: snapshot_def)

lemma reload_snapshot:
  assumes "wf_paper b" "paper_store b = Some (snapshot b)" "snapshot_fits b"
  shows "new_paper e (Some (Some (snapshot b))) = b"
proof -
  have "List.map (\<lambda>p. (pp_symbol p, p)) (List.map snd (pb_positions b)) = pb_positions b"
    using assms(1) by (auto simp: wf_paper_def intro!: map_idI)
  moreover have "pb_persist b = Some (Some (snapshot b))" using assms(2) by (auto simp: paper_store_def split: option.splits)
  ultimately show ?thesis
    using assms by (cases b) (auto simp: new_paper_def restore_def snapshot_def wf_paper_def snapshot_fits_def
        map_of_entries_id comp_def)
qed

interpretation paper_disk: persistent paper_step paper_store snapshot "\<lambda>d. new_paper e (Some (Some d))" wf_paper snapshot_fits
  for e
proof
  show "wf_paper (paper_step b x)" if "wf_paper b" for b x
    using step_saved [OF that, of x] that by (auto simp: saved_def dest: keeps_wf)
  show "paper_store (paper_step b x) = Some (snapshot (paper_step b x))"
    if "wf_paper b" "paper_store b = Some (snapshot b)" for b x
    using step_saved [OF that(1), of x] that(2)
    by (elim saved_elim) (simp_all add: keeps_def paper_store_def save_def snapshot_persist split: option.splits)
  show "new_paper e (Some (Some (snapshot b))) = b"
    if "wf_paper b" "paper_store b = Some (snapshot b)" "snapshot_fits b" for b
    by (rule reload_snapshot [OF that])
qed

section \<open>Quantities stay positive\<close>

definition qty_ok :: "jsnum \<Rightarrow> bool" where "qty_ok q = (Fin 0 < q \<and> dbl q)"

definition pos_paper :: "paper \<Rightarrow> bool" where
  "pos_paper b = ((\<forall>s p. map_of (pb_positions b) s = Some p \<longrightarrow> qty_ok (pp_qty p))
     \<and> (\<forall>ord\<in>set (pb_orders b). ov_type ord = ''LIMIT'' \<longrightarrow> qty_ok (js_number (ov_qty ord))))"

definition valid_op :: "paper_op \<Rightarrow> bool" where
  "valid_op x = (case x of PlaceEntry r \<Rightarrow> Fin 0 < js_number (er_qty r) | Reduce s q c \<Rightarrow> Fin 0 < js_number q | _ \<Rightarrow> True)"

lemma qty_number: "Fin 0 < js_number s \<Longrightarrow> qty_ok (js_number s)"
  by (simp add: qty_ok_def)

lemma shave_le:
  assumes "qty_ok a"
  shows "a - lit (1/10^12) \<le> a"
proof -
  have "is_fin (lit (1/10^12))" by (rule lit_fin) simp
  then obtain e where e: "lit (1/10^12) = Fin e" by (auto simp: is_fin_iff)
  have "Fin 0 \<le> lit (1/10^12)" by (rule rnd_ge) simp_all
  then show ?thesis using assms e by (cases a) (auto simp: qty_ok_def minus_jsnum_def intro!: rnd_le)
qed

lemma rest_ok:
  assumes "qty_ok a" "qty_ok q" "\<not> a - lit (1/10^12) \<le> js_min a q"
  shows "qty_ok (a - js_min a q)"
proof -
  have m: "js_min a q = q" "a \<noteq> q" using assms(3) shave_le [OF assms(1)] js_min_cases [of a q] by auto
  then have less: "q < a" using assms shave_le [OF assms(1)] by (cases a; cases q) (auto simp: qty_ok_def)
  then show ?thesis unfolding m using assms(1,2) js_diff_pos
    by (cases a; cases q) (auto simp: qty_ok_def simp del: js_minus_Fin, simp_all add: minus_jsnum_def)
qed

lemma pos_wallet [simp]: "pos_paper (b\<lparr>pb_wallet := w\<rparr>) = pos_paper b"
  by (simp add: pos_paper_def)

lemma pos_same: "pb_positions c = pb_positions b \<Longrightarrow> set (pb_orders c) \<subseteq> set (pb_orders b) \<Longrightarrow> pos_paper b \<Longrightarrow> pos_paper c"
  by (auto simp: pos_paper_def)

lemma pos_set: "pos_paper b \<Longrightarrow> qty_ok (pp_qty p) \<Longrightarrow> pos_paper (b\<lparr>pb_positions := map_set (pb_positions b) s p\<rparr>)"
  by (auto simp: pos_paper_def)

lemma pos_delete: "pos_paper b \<Longrightarrow> pos_paper (b\<lparr>pb_positions := map_delete (pb_positions b) s\<rparr>)"
  by (auto simp: pos_paper_def)

lemma pos_closeAt:
  assumes "pos_paper b" "case qty of None \<Rightarrow> True | Some q \<Rightarrow> qty_ok q"
  shows "pos_paper (snd (closeAt s price qty b))"
proof (cases "map_of (pb_positions b) s")
  case (Some p)
  have q: "qty_ok (pp_qty p)" using assms(1) Some by (simp add: pos_paper_def)
  let ?q = "case qty of Some x \<Rightarrow> x | None \<Rightarrow> pp_qty p"
  let ?b1 = "b\<lparr>pb_wallet := pb_wallet b + fst (closeAt s price qty b)\<rparr>"
  have b1: "pos_paper ?b1" using assms(1) by simp
  have "qty_ok ?q" using assms(2) q by (simp split: option.splits)
  then have part: "\<not> pp_qty p - lit (1/10^12) \<le> js_min (pp_qty p) ?q \<Longrightarrow> qty_ok (pp_qty p - js_min (pp_qty p) ?q)"
    using rest_ok [OF q] by blast
  have "pos_paper (cancel_orders (\<lambda>ord. ov_symbol ord = s \<and> ov_reduce_only ord) (?b1\<lparr>pb_positions := map_delete (pb_positions ?b1) s\<rparr>))"
    by (rule pos_same [OF _ _ pos_delete [OF b1]]) auto
  then show ?thesis unfolding closeAt_Some [OF Some] Let_def using part pos_set [OF b1] by simp
qed (use assms in \<open>simp add: closeAt_def\<close>)

lemma pos_fill:
  assumes "pos_paper b" "qty_ok q"
  shows "pos_paper (fill s d q price l b)"
proof -
  let ?b1 = "b\<lparr>pb_wallet := pb_wallet b - price * q * FEE_RATE\<rparr>"
  have b1: "pos_paper ?b1" using assms(1) by simp
  have sum: "qty_ok (pp_qty p + q)" if "map_of (pb_positions b) s = Some p" for p
  proof -
    have "qty_ok (pp_qty p)" using assms(1) that by (simp add: pos_paper_def)
    then show ?thesis using assms(2)
      by (cases "pp_qty p"; cases q) (auto simp: qty_ok_def intro: js_less_le_trans [OF _ rnd_ge])
  qed
  show ?thesis unfolding fill_def Let_def
    using pos_set [OF b1] assms(2) sum pos_closeAt [OF b1, of "Some q" s price]
    by (simp split: option.split)
qed

lemma pos_tick_limit:
  assumes "pos_paper (fst st)" "qty_ok (js_number (ov_qty ord))"
  shows "pos_paper (fst (tick_limit s m st ord))"
proof (cases st)
  case (Pair b evs)
  let ?b1 = "fill s (po_position_side ord) (js_number (ov_qty ord)) (order_price (ov_price ord)) (leverage_of s b) b"
  have b1: "pos_paper ?b1" using pos_fill assms Pair by simp
  have "pos_paper (?b1\<lparr>pb_orders := remove1 ord (pb_orders ?b1), pb_closed := c\<rparr>)" for c
    by (rule pos_same [OF _ _ b1]) (simp_all add: set_remove1_subset)
  then show ?thesis using assms(1) Pair by (simp add: tick_limit_def Let_def)
qed

lemma pos_tick_protection: "pos_paper b \<Longrightarrow> pos_paper (fst (tick_protection s m b))"
  using pos_closeAt [of b None]
  by (simp add: tick_protection_def Let_def case_prod_beta pos_paper_def split: option.split)

lemma pos_tick_fold:
  "pos_paper (fst st) \<Longrightarrow> \<forall>ord\<in>set os. qty_ok (js_number (ov_qty ord)) \<Longrightarrow> pos_paper (fst (foldl (tick_limit s m) st os))"
  by (induction os arbitrary: st) (simp_all add: pos_tick_limit)

lemma pos_save [simp]: "pos_paper (save b) = pos_paper b"
  by (simp add: pos_paper_def)

lemma pos_step:
  assumes "pos_paper b" "valid_op x"
  shows "pos_paper (paper_step b x)"
proof (cases x)
  case (Tick s m)
  let ?b0 = "b\<lparr>pb_marks := map_set (pb_marks b) s m\<rparr>"
  have b0: "pos_paper ?b0" using assms(1) by (simp add: pos_paper_def)
  have "\<forall>ord\<in>set (filter (\<lambda>x. ov_symbol x = s \<and> ov_type x = ''LIMIT'') (pb_orders ?b0)). qty_ok (js_number (ov_qty ord))"
    using assms(1) by (auto simp: pos_paper_def)
  from pos_tick_protection [OF pos_tick_fold [of "(?b0, [])", OF _ this]] b0 show ?thesis
    by (simp add: Tick tick_def Let_def case_prod_beta)
next
  case (PlaceEntry r)
  have q: "qty_ok (js_number (er_qty r))" using assms(2) PlaceEntry by (simp add: valid_op_def qty_number)
  have "pos_paper (b\<lparr>pb_orders := pb_orders b @ [limit_order r]\<rparr>)"
    using assms(1) q by (auto simp: pos_paper_def limit_order_def)
  then show ?thesis using PlaceEntry pos_fill [OF assms(1) q] assms(1) by (simp add: placeEntry_def Let_def)
next
  case (Close s c)
  then show ?thesis using pos_closeAt [OF assms(1), of None] assms(1)
    by (simp add: closePosition_def Let_def case_prod_beta)
next
  case (Reduce s q c)
  have "qty_ok (js_number q)" using assms(2) Reduce by (simp add: valid_op_def qty_number)
  then show ?thesis using Reduce pos_closeAt [OF assms(1), of "Some (js_number q)"] assms(1)
    by (simp add: reducePosition_def Let_def case_prod_beta)
next
  case (CancelOrder s c)
  have "pos_paper (b\<lparr>pb_closed := c, pb_orders := remove1 ord (pb_orders b)\<rparr>)" for c ord
    by (rule pos_same [OF _ _ assms(1)]) (simp_all add: set_remove1_subset)
  then show ?thesis using CancelOrder assms(1) by (simp add: cancelOrder_def split: option.split)
next
  case (CancelAll s)
  have "pos_paper (cancel_orders (\<lambda>ord. ov_symbol ord = s) b)" by (rule pos_same [OF _ _ assms(1)]) auto
  then show ?thesis using CancelAll by (simp add: cancelAll_def)
qed (use assms(1) in \<open>auto simp: setMark_def setLeverage_def placeStop_def placeTakeProfit_def protective_def pos_paper_def\<close>)

section \<open>One protective order per tick\<close>

lemma tick_fold_events:
  "\<forall>pe\<in>set (snd (foldl (tick_limit s m) st os)). pe \<in> set (snd st) \<or> pe_kind pe = PE_entry_filled"
proof (induction os arbitrary: st)
  case (Cons ord os)
  have "\<forall>pe\<in>set (snd (tick_limit s m st ord)). pe \<in> set (snd st) \<or> pe_kind pe = PE_entry_filled"
    by (cases st) (auto simp: tick_limit_def Let_def)
  then show ?case using Cons.IH [of "tick_limit s m st ord"] by auto
qed simp

definition closed_out :: "string \<Rightarrow> paper_event \<Rightarrow> paper \<Rightarrow> bool" where
  "closed_out s pe b = (map_of (pb_positions b) s = None
     \<and> (\<forall>ord\<in>set (pb_orders b). ov_reduce_only ord \<longrightarrow> ov_symbol ord \<noteq> s)
     \<and> (\<exists>v. map_of (pb_closed b) (pe_client_order_id pe) = Some v \<and> os_status v = ''FILLED'' \<and> os_avg_price v = Some (pe_price pe)))"

lemma protection_events:
  assumes "pos_paper b"
  shows "snd (tick_protection s m b) = []
    \<or> (\<exists>pe. snd (tick_protection s m b) = [pe] \<and> pe_kind pe \<noteq> PE_entry_filled \<and> closed_out s pe (fst (tick_protection s m b)))"
proof (cases "map_of (pb_positions b) s")
  case (Some p)
  have "qty_ok (pp_qty p)" using assms Some by (simp add: pos_paper_def)
  from shave_le [OF this] have "pp_qty p - lit (1/10^12) \<le> js_min (pp_qty p) (pp_qty p)"
    using js_min_cases [of "pp_qty p" "pp_qty p"] by auto
  then have "snd (closeAt s trig None b) = cancel_orders (\<lambda>ord. ov_symbol ord = s \<and> ov_reduce_only ord)
      (b\<lparr>pb_wallet := pb_wallet b + fst (closeAt s trig None b), pb_positions := map_delete (pb_positions b) s\<rparr>)" for trig
    using closeAt_Some [OF Some, of trig None] by (simp add: Let_def)
  then show ?thesis using Some
    by (cases "List.find (protection_hit p m) (filter (\<lambda>x. ov_symbol x = s \<and> ov_reduce_only x) (pb_orders b))")
      (auto simp: tick_protection_def Let_def case_prod_beta closed_out_def)
qed (simp add: tick_protection_def)

section \<open>Properties\<close>

definition fresh_paper :: "jsnum \<Rightarrow> paper_op list \<Rightarrow> paper" where
  "fresh_paper equity ops = foldl paper_step (new_paper equity None) ops"

lemma fresh_wf: "wf_paper (fresh_paper e ops)"
  unfolding fresh_paper_def
  by (rule paper_disk.run_ok) (simp add: new_paper_def restore_def wf_paper_def)

lemma fresh_pos: "\<forall>x\<in>set ops. valid_op x \<Longrightarrow> pos_paper (fresh_paper e ops)"
proof -
  have "pos_paper b \<Longrightarrow> \<forall>x\<in>set ops. valid_op x \<Longrightarrow> pos_paper (foldl paper_step b ops)" for b
    by (induction ops arbitrary: b) (simp_all add: pos_step)
  moreover have "pos_paper (new_paper e None)" by (simp add: new_paper_def restore_def pos_paper_def)
  ultimately show "\<forall>x\<in>set ops. valid_op x \<Longrightarrow> pos_paper (fresh_paper e ops)" unfolding fresh_paper_def by blast
qed

lemma getOrder_known: "(getOrder c b \<noteq> None) = (c \<in> known b)"
proof (cases "List.find (\<lambda>x. ov_client_order_id x = c) (pb_orders b)")
  case (Some x)
  then have "x \<in> set (pb_orders b)" "ov_client_order_id x = c" by (auto simp: find_Some_iff)
  then show ?thesis using Some by (auto simp: getOrder_def known_def)
next
  case None
  then have "c \<notin> ov_client_order_id ` set (pb_orders b)" by (auto simp: find_None_iff)
  moreover have "(map_of (pb_closed b) c \<noteq> None) = (c \<in> fst ` set (pb_closed b))" by (metis map_of_eq_None_iff)
  ultimately show ?thesis using None by (simp add: getOrder_def known_def)
qed

lemma known_run: "wf_paper b \<Longrightarrow> known b \<subseteq> known (foldl paper_step b ops)"
proof (induction ops arbitrary: b)
  case (Cons x ops)
  have "known b \<subseteq> known (paper_step b x)"
    using step_saved [OF Cons.prems, of x] by (elim saved_elim) (simp_all add: keeps_def)
  then show ?case using Cons.IH [OF paper_disk.step_ok [OF Cons.prems, of x]] by auto
qed simp

text \<open>The example of the witnesses: a long position of 2 bought at 100, its stop at 90 and its target at 120.\<close>

definition example_entry :: entry_request where
  "example_entry = \<lparr>er_symbol = ''X'', er_direction = Long, er_qty = ''2'', er_entry = Market, er_limit_price = None,
     er_client_order_id = ''e1''\<rparr>"

definition example_ops :: "paper_op list" where
  "example_ops = [SetMark ''X'' ''100'', PlaceEntry example_entry, PlaceStop ''X'' Long ''90'' ''s1'', PlaceTp ''X'' Long ''120'' ''t1'']"







text \<open>C23 A price tick fires at most one stop or target of a symbol: after it the position is gone together with every
  order that could only have reduced it, and the order that fired is on record as filled at its trigger.\<close>

theorem tick_protects_once:
  assumes "\<forall>x\<in>set ops. valid_op x"
    and "pe \<in> set (fst (tick s mark (fresh_paper e ops)))" "pe_kind pe \<noteq> PE_entry_filled"
  shows "filter (\<lambda>x. pe_kind x \<noteq> PE_entry_filled) (fst (tick s mark (fresh_paper e ops))) = [pe]
    \<and> closed_out s pe (snd (tick s mark (fresh_paper e ops)))"
proof -
  let ?b = "fresh_paper e ops"
  let ?mk = "?b\<lparr>pb_marks := map_set (pb_marks ?b) s mark\<rparr>"
  let ?os = "filter (\<lambda>x. ov_symbol x = s \<and> ov_type x = ''LIMIT'') (pb_orders ?mk)"
  define st where "st = foldl (tick_limit s (js_number mark)) (?mk, []) ?os"
  have t: "tick s mark ?b = (snd st @ snd (tick_protection s (js_number mark) (fst st)),
      save (fst (tick_protection s (js_number mark) (fst st))))"
    unfolding tick_def st_def Let_def case_prod_beta by (rule refl)
  have pos: "pos_paper ?b" by (rule fresh_pos [OF assms(1)])
  then have "pos_paper (fst st)" unfolding st_def
    by (intro pos_tick_fold) (auto simp: pos_paper_def)
  from protection_events [OF this, of s "js_number mark"]
  have p: "snd (tick_protection s (js_number mark) (fst st)) = [] \<or> (\<exists>pe. snd (tick_protection s (js_number mark) (fst st)) = [pe]
      \<and> pe_kind pe \<noteq> PE_entry_filled \<and> closed_out s pe (fst (tick_protection s (js_number mark) (fst st))))" .
  have l: "\<forall>pe\<in>set (snd st). pe_kind pe = PE_entry_filled"
    using tick_fold_events [of s "js_number mark" "(?mk, [])" ?os] by (simp add: st_def)
  then have f: "filter (\<lambda>x. pe_kind x \<noteq> PE_entry_filled) (snd st) = []" by (simp add: filter_empty_conv)
  show ?thesis using p assms(2,3) l unfolding t by (auto simp: f closed_out_def)
qed

theorem tick_protects_once_witness:
  "(\<exists>pe. filter (\<lambda>x. pe_kind x \<noteq> PE_entry_filled) (fst (tick ''X'' ''89'' (fresh_paper (Fin 10000) example_ops))) = [pe]
     \<and> closed_out ''X'' pe (snd (tick ''X'' ''89'' (fresh_paper (Fin 10000) example_ops))))"
proof -
  have v: "\<forall>x\<in>set example_ops. valid_op x" by code_simp
  have "\<exists>pe\<in>set (fst (tick ''X'' ''89'' (fresh_paper (Fin 10000) example_ops))). pe_kind pe \<noteq> PE_entry_filled" by code_simp
  then show ?thesis using tick_protects_once [OF v] by blast
qed

end
