(* ===== verification/Transitions.thy ===== *)
theory Transitions imports Prelude begin

text \<open>
  The four state machines of the contracts package (\<open>generated/transitions.ts\<close>) and the helpers over them
  (\<open>transitions.ts\<close>). A machine is a table of strings, as in the code; the checks of this theory make the
  tables' promises (no self loop, no edge out of a terminal state, one target per state and event) facts, and the
  runs of a machine are paths of its table.
\<close>

section \<open>Tables\<close>

datatype machine_name = Attempt_result | Authorization_status | Exchange_order_status | Intent_status

record transition_row =
  tr_from :: string
  tr_to :: string
  tr_event :: string

record machine_table =
  mt_initial :: string
  mt_states :: "string list"
  mt_terminal :: "string list"
  mt_transitions :: "transition_row list"

definition edge_row :: "string \<Rightarrow> string \<Rightarrow> string \<Rightarrow> transition_row" where
  "edge_row a b e = \<lparr>tr_from = a, tr_to = b, tr_event = e\<rparr>"

definition attempt_result_table :: machine_table where
  "attempt_result_table = \<lparr>mt_initial = ''pending'',
     mt_states = [''pending'', ''acked'', ''rejected'', ''unknown'', ''not_received''],
     mt_terminal = [''acked'', ''rejected'', ''not_received''],
     mt_transitions = [edge_row ''pending'' ''acked'' ''exchange_acked'',
       edge_row ''pending'' ''rejected'' ''exchange_rejected'',
       edge_row ''pending'' ''unknown'' ''ambiguous'',
       edge_row ''pending'' ''not_received'' ''never_submitted'',
       edge_row ''unknown'' ''acked'' ''reconciled_found'',
       edge_row ''unknown'' ''rejected'' ''reconciled_rejected'',
       edge_row ''unknown'' ''not_received'' ''confirmed_not_received'']\<rparr>"

definition authorization_status_table :: machine_table where
  "authorization_status_table = \<lparr>mt_initial = ''active'',
     mt_states = [''active'', ''consumed'', ''expired'', ''invalidated'', ''revoked''],
     mt_terminal = [''consumed'', ''expired'', ''invalidated'', ''revoked''],
     mt_transitions = [edge_row ''active'' ''consumed'' ''dispatched'',
       edge_row ''active'' ''expired'' ''ttl_elapsed'',
       edge_row ''active'' ''invalidated'' ''plan_changed'',
       edge_row ''active'' ''invalidated'' ''regate_rejected'',
       edge_row ''active'' ''invalidated'' ''account_version_changed'',
       edge_row ''active'' ''revoked'' ''user_revoked'',
       edge_row ''active'' ''revoked'' ''emergency_stop'']\<rparr>"

definition exchange_order_status_table :: machine_table where
  "exchange_order_status_table = \<lparr>mt_initial = ''new'',
     mt_states = [''new'', ''partially_filled'', ''filled'', ''canceled'', ''expired'', ''rejected''],
     mt_terminal = [''filled'', ''canceled'', ''expired'', ''rejected''],
     mt_transitions = [edge_row ''new'' ''partially_filled'' ''partial_fill'',
       edge_row ''new'' ''filled'' ''fill'',
       edge_row ''new'' ''canceled'' ''cancel'',
       edge_row ''new'' ''expired'' ''expire'',
       edge_row ''new'' ''rejected'' ''reject'',
       edge_row ''partially_filled'' ''filled'' ''fill'',
       edge_row ''partially_filled'' ''canceled'' ''cancel'',
       edge_row ''partially_filled'' ''expired'' ''expire'']\<rparr>"

definition intent_status_table :: machine_table where
  "intent_status_table = \<lparr>mt_initial = ''proposed'',
     mt_states = [''proposed'', ''rejected'', ''awaiting_approval'', ''authorized'', ''recorded'', ''dispatching'', ''execution_unknown'', ''executing'', ''completed'', ''canceled'', ''expired''],
     mt_terminal = [''rejected'', ''recorded'', ''completed'', ''canceled'', ''expired''],
     mt_transitions = [edge_row ''proposed'' ''rejected'' ''gate_rejected'',
       edge_row ''proposed'' ''awaiting_approval'' ''plan_materialized'',
       edge_row ''proposed'' ''authorized'' ''policy_auto_authorized'',
       edge_row ''proposed'' ''recorded'' ''observe_only'',
       edge_row ''proposed'' ''expired'' ''proposal_ttl_elapsed'',
       edge_row ''awaiting_approval'' ''authorized'' ''user_approved'',
       edge_row ''awaiting_approval'' ''expired'' ''approval_ttl_elapsed'',
       edge_row ''awaiting_approval'' ''rejected'' ''user_rejected'',
       edge_row ''awaiting_approval'' ''rejected'' ''regate_rejected'',
       edge_row ''authorized'' ''dispatching'' ''executor_claimed'',
       edge_row ''authorized'' ''rejected'' ''regate_rejected'',
       edge_row ''authorized'' ''expired'' ''authorization_ttl_elapsed'',
       edge_row ''authorized'' ''canceled'' ''halted_before_dispatch'',
       edge_row ''dispatching'' ''executing'' ''exchange_acked'',
       edge_row ''dispatching'' ''rejected'' ''exchange_rejected'',
       edge_row ''dispatching'' ''rejected'' ''regate_rejected'',
       edge_row ''dispatching'' ''execution_unknown'' ''submit_ambiguous'',
       edge_row ''dispatching'' ''canceled'' ''halted_before_submit'',
       edge_row ''execution_unknown'' ''executing'' ''reconciled_found'',
       edge_row ''execution_unknown'' ''canceled'' ''confirmed_not_received'',
       edge_row ''executing'' ''completed'' ''effect_satisfied'',
       edge_row ''executing'' ''canceled'' ''cancel_confirmed'',
       edge_row ''executing'' ''canceled'' ''expired_on_exchange'',
       edge_row ''executing'' ''canceled'' ''compensation_close'']\<rparr>"

fun table_of :: "machine_name \<Rightarrow> machine_table" where
  "table_of Attempt_result = attempt_result_table"
| "table_of Authorization_status = authorization_status_table"
| "table_of Exchange_order_status = exchange_order_status_table"
| "table_of Intent_status = intent_status_table"

section \<open>Helpers\<close>

definition machines :: "machine_name list" where
  "machines = [Attempt_result, Authorization_status, Exchange_order_status, Intent_status]"

definition canTransition :: "machine_name \<Rightarrow> string \<Rightarrow> string \<Rightarrow> bool" where
  "canTransition machine src dst = list_ex (\<lambda>e. tr_from e = src \<and> tr_to e = dst) (mt_transitions (table_of machine))"

definition nextState :: "machine_name \<Rightarrow> string \<Rightarrow> string \<Rightarrow> string option" where
  "nextState machine src event
    = map_option tr_to (List.find (\<lambda>e. tr_from e = src \<and> tr_event e = event) (mt_transitions (table_of machine)))"

definition isTerminal :: "machine_name \<Rightarrow> string \<Rightarrow> bool" where
  "isTerminal machine state = (state \<in> set (mt_terminal (table_of machine)))"

section \<open>Checks of the tables\<close>

text \<open>A layering of the states: every edge goes from a lower to a higher position of \<open>mt_order\<close>, so no run can return.\<close>

fun mt_order :: "machine_name \<Rightarrow> string list" where
  "mt_order Attempt_result = [''pending'', ''unknown'', ''acked'', ''rejected'', ''not_received'']"
| "mt_order Intent_status = [''proposed'', ''awaiting_approval'', ''authorized'', ''dispatching'', ''execution_unknown'',
     ''executing'', ''rejected'', ''recorded'', ''completed'', ''canceled'', ''expired'']"
| "mt_order m = mt_states (table_of m)"

fun position :: "string list \<Rightarrow> string \<Rightarrow> nat" where
  "position [] s = 0"
| "position (x # xs) s = (if x = s then 0 else Suc (position xs s))"

definition rank :: "machine_name \<Rightarrow> string \<Rightarrow> nat" where
  "rank m s = position (mt_order m) s"

definition table_ok :: "machine_name \<Rightarrow> bool" where
  "table_ok m = (let t = table_of m in
     mt_initial t \<in> set (mt_states t) \<and> set (mt_order m) = set (mt_states t)
     \<and> list_all (\<lambda>e. tr_from e \<in> set (mt_states t) \<and> tr_to e \<in> set (mt_states t)) (mt_transitions t)
     \<and> list_all (\<lambda>s. (s \<in> set (mt_terminal t)) = (\<not> list_ex (\<lambda>e. tr_from e = s) (mt_transitions t))) (mt_states t)
     \<and> set (mt_terminal t) \<subseteq> set (mt_states t)
     \<and> distinct (List.map (\<lambda>e. (tr_from e, tr_event e)) (mt_transitions t))
     \<and> list_all (\<lambda>e. rank m (tr_from e) < rank m (tr_to e)) (mt_transitions t))"

lemma tables_ok: "table_ok m"
proof -
  have "table_ok Attempt_result" "table_ok Authorization_status" "table_ok Exchange_order_status" "table_ok Intent_status"
    by code_simp+
  then show ?thesis by (cases m) simp_all
qed

lemma position_le: "position xs s \<le> length xs"
  by (induction xs) auto

lemma position_less: "s \<in> set xs \<Longrightarrow> position xs s < length xs"
  by (induction xs) auto

lemmas table_facts = tables_ok [unfolded table_ok_def Let_def list_all_iff list_ex_iff]

lemma edge_states:
  assumes "e \<in> set (mt_transitions (table_of m))"
  shows "tr_from e \<in> set (mt_states (table_of m))" "tr_to e \<in> set (mt_states (table_of m))" "rank m (tr_from e) < rank m (tr_to e)"
  using table_facts [of m] assms by blast+

lemma terminal_iff:
  "s \<in> set (mt_states (table_of m)) \<Longrightarrow> isTerminal m s = (\<forall>e\<in>set (mt_transitions (table_of m)). tr_from e \<noteq> s)"
  using table_facts [of m] by (auto simp: isTerminal_def)

lemma terminal_state: "isTerminal m s \<Longrightarrow> s \<in> set (mt_states (table_of m))"
  using table_facts [of m] by (auto simp: isTerminal_def)

lemma edge_row_eta [simp]: "edge_row (tr_from e) (tr_to e) (tr_event e) = e"
  by (cases e) (simp add: edge_row_def)

lemma nextState_edge:
  "nextState m s ev = Some s' \<longleftrightarrow> edge_row s s' ev \<in> set (mt_transitions (table_of m))"
proof
  assume "nextState m s ev = Some s'"
  then show "edge_row s s' ev \<in> set (mt_transitions (table_of m))"
    unfolding nextState_def by (auto simp: find_Some_iff)
next
  let ?es = "mt_transitions (table_of m)"
  assume e: "edge_row s s' ev \<in> set ?es"
  obtain x where x: "List.find (\<lambda>e. tr_from e = s \<and> tr_event e = ev) ?es = Some x"
    using e by (cases "List.find (\<lambda>e. tr_from e = s \<and> tr_event e = ev) ?es") (force simp: find_None_iff edge_row_def)+
  then have mem: "x \<in> set ?es" and key: "tr_from x = s" "tr_event x = ev" by (auto simp: find_Some_iff)
  have "inj_on (\<lambda>e. (tr_from e, tr_event e)) (set ?es)" using table_facts [of m] by (auto simp: distinct_map)
  moreover have "(tr_from x, tr_event x) = (tr_from (edge_row s s' ev), tr_event (edge_row s s' ev))"
    by (simp add: edge_row_def key)
  ultimately have "x = edge_row s s' ev" using mem e by (rule inj_onD)
  then show "nextState m s ev = Some s'" using x by (simp add: nextState_def edge_row_def)
qed

section \<open>Runs\<close>

text \<open>An event without an edge from the current state is refused and leaves the state alone.\<close>

definition fire :: "machine_name \<Rightarrow> string \<Rightarrow> string \<Rightarrow> string" where
  "fire m s ev = (case nextState m s ev of None \<Rightarrow> s | Some s' \<Rightarrow> s')"

definition machine_edges :: "machine_name \<Rightarrow> (string \<times> string) set" where
  "machine_edges m = {(s, s'). canTransition m s s'}"

lemma canTransition_iff: "canTransition m s s' \<longleftrightarrow> (\<exists>ev. nextState m s ev = Some s')"
proof
  assume "canTransition m s s'"
  then obtain e where "e \<in> set (mt_transitions (table_of m))" "tr_from e = s" "tr_to e = s'"
    unfolding canTransition_def list_ex_iff by blast
  then have "edge_row s s' (tr_event e) \<in> set (mt_transitions (table_of m))" using edge_row_eta by metis
  then show "\<exists>ev. nextState m s ev = Some s'" using nextState_edge by blast
qed (auto simp: nextState_edge canTransition_def list_ex_iff edge_row_def intro!: bexI)

interpretation machine_run: status_machine "fire m" "\<lambda>s. s" "machine_edges m" for m
  by unfold_locales (auto simp: fire_def machine_edges_def canTransition_iff split: option.split)

lemma machine_rank: "(s, s') \<in> machine_edges m \<Longrightarrow> rank m s < rank m s'"
  using edge_states(3) by (fastforce simp: machine_edges_def canTransition_def list_ex_iff)

lemma machine_rank_path: "(s, s') \<in> (machine_edges m)\<^sup>* \<Longrightarrow> s = s' \<or> rank m s < rank m s'"
  by (induction rule: rtrancl_induct) (auto dest: machine_rank)

definition moves :: "machine_name \<Rightarrow> string \<Rightarrow> string list \<Rightarrow> nat" where
  "moves m s evs = length (filter (\<lambda>i. foldl (fire m) s (take (Suc i) evs) \<noteq> foldl (fire m) s (take i evs)) [0..<length evs])"

lemma moves_Cons: "moves m s (ev # evs) = (if fire m s ev \<noteq> s then 1 else 0) + moves m (fire m s ev) evs"
proof -
  have "[0..<length (ev # evs)] = 0 # List.map Suc [0..<length evs]"
    by (simp add: upt_conv_Cons map_Suc_upt del: upt_Suc)
  then show ?thesis by (simp add: moves_def filter_map comp_def)
qed

lemma moves_rank: "rank m s + moves m s evs \<le> rank m (foldl (fire m) s evs)"
proof (induction evs arbitrary: s)
  case (Cons ev evs)
  have "fire m s ev \<noteq> s \<Longrightarrow> rank m s < rank m (fire m s ev)"
    using machine_rank machine_run.step_edge [of m s ev] by blast
  then show ?case using Cons.IH [of "fire m s ev"] by (auto simp: moves_Cons)
qed (simp add: moves_def)

lemma nonterminal_event:
  assumes "s \<in> set (mt_states (table_of m))"
  shows "isTerminal m s = (\<forall>ev. nextState m s ev = None)"
proof -
  have "(\<forall>ev. nextState m s ev = None) = (\<forall>e\<in>set (mt_transitions (table_of m)). tr_from e \<noteq> s)"
    by (auto simp: nextState_def find_None_iff)
  then show ?thesis using terminal_iff [OF assms] by simp
qed

lemma nonterminal_move:
  assumes "s \<in> set (mt_states (table_of m))" "\<not> isTerminal m s"
  obtains ev where "canTransition m s (fire m s ev)"
proof -
  obtain ev s' where "nextState m s ev = Some s'" using nonterminal_event [OF assms(1)] assms(2) by fastforce
  then have "canTransition m s (fire m s ev)" by (auto simp: canTransition_iff fire_def)
  then show thesis by (rule that)
qed

lemma fire_states: "s \<in> set (mt_states (table_of m)) \<Longrightarrow> fire m s ev \<in> set (mt_states (table_of m))"
  using edge_states(2) by (fastforce simp: fire_def nextState_edge edge_row_def split: option.split)

text \<open>The intent machine, guarded: past \<open>authorized\<close> every state was entered from there or by an approval.\<close>

definition approved_states :: "string list" where
  "approved_states = [''authorized'', ''dispatching'', ''execution_unknown'', ''executing'', ''completed'']"

definition approvals :: "string list" where
  "approvals = [''user_approved'', ''policy_auto_authorized'']"

lemma approval_edges:
  "list_all (\<lambda>e. tr_to e \<in> set approved_states \<longrightarrow> tr_from e \<in> set approved_states \<or> tr_event e \<in> set approvals)
     (mt_transitions (table_of Intent_status))"
  by code_simp

lemma approval_step:
  "fire Intent_status s ev \<in> set approved_states \<Longrightarrow> s \<in> set approved_states \<or> ev \<in> set approvals"
  using approval_edges by (fastforce simp: fire_def nextState_edge edge_row_def list_all_iff split: option.splits)

lemma approval_run:
  "foldl (fire Intent_status) s evs \<in> set approved_states \<Longrightarrow> s \<in> set approved_states \<or> (\<exists>ev\<in>set evs. ev \<in> set approvals)"
  by (induction evs arbitrary: s) (auto dest: approval_step)

section \<open>Properties\<close>

text \<open>The declared terminal states are exactly the states no event leaves, and a machine that has reached one stays
  there whatever events follow; the state a transition reaches is again a state of the machine.\<close>

theorem machine_terminal:
  assumes "s \<in> set (mt_states (table_of m))"
  shows "isTerminal m s = (\<forall>ev. nextState m s ev = None)
    \<and> foldl (fire m) s evs \<in> set (mt_states (table_of m))
    \<and> (if isTerminal m s then foldl (fire m) s evs = s else \<exists>ev. canTransition m s (fire m s ev))"
proof -
  have "s \<in> set (mt_states (table_of m)) \<Longrightarrow> foldl (fire m) s evs \<in> set (mt_states (table_of m))"
    by (induction evs arbitrary: s) (simp_all add: fire_states)
  moreover have "foldl (fire m) s evs = s" if "isTerminal m s"
    by (rule machine_run.terminal_fixed) (use that nonterminal_event [OF assms] in \<open>auto simp: machine_edges_def canTransition_iff\<close>)
  moreover have "\<exists>ev. canTransition m s (fire m s ev)" if "\<not> isTerminal m s"
    using nonterminal_move [OF assms that] by blast
  ultimately show ?thesis using nonterminal_event [OF assms] assms by simp
qed

theorem machine_terminal_witness:
  "foldl (fire Attempt_result) ''acked'' [''ambiguous'', ''reconciled_rejected''] = ''acked''"
proof -
  have "''acked'' \<in> set (mt_states (table_of Attempt_result))" "isTerminal Attempt_result ''acked''" by code_simp+
  then show ?thesis using machine_terminal [of "''acked''" Attempt_result "[''ambiguous'', ''reconciled_rejected'']"]
    by (metis (no_types))
qed

text \<open>C24 Every machine comes to an end: no sequence of events, however long, changes the state as often as there are
  states, and from every state some sequence of events reaches a terminal state.\<close>

theorem machine_ends:
  assumes "s \<in> set (mt_states (table_of m))"
  shows "moves m s evs < length (mt_order m) \<and> (\<exists>evs'. isTerminal m (foldl (fire m) s evs'))"
proof
  have "s \<in> set (mt_states (table_of m)) \<Longrightarrow> foldl (fire m) s evs \<in> set (mt_states (table_of m))"
    by (induction evs arbitrary: s) (simp_all add: fire_states)
  then have "rank m (foldl (fire m) s evs) < length (mt_order m)"
    using assms table_facts [of m] position_less by (simp add: rank_def)
  then show "moves m s evs < length (mt_order m)" using moves_rank [of m s evs] by linarith
  show "\<exists>evs'. isTerminal m (foldl (fire m) s evs')" using assms
  proof (induction "length (mt_order m) - rank m s" arbitrary: s rule: less_induct)
    case less
    show ?case
    proof (cases "isTerminal m s")
      case True
      then have "isTerminal m (foldl (fire m) s [])" by simp
      then show ?thesis by blast
    next
      case False
      then obtain ev where ev: "canTransition m s (fire m s ev)"
        using nonterminal_move [OF less.prems] by blast
      then have "rank m s < rank m (fire m s ev)" using machine_rank by (auto simp: machine_edges_def)
      moreover have "rank m (fire m s ev) < length (mt_order m)"
        using fire_states [OF less.prems, of ev] table_facts [of m] position_less by (simp add: rank_def)
      ultimately obtain evs' where "isTerminal m (foldl (fire m) (fire m s ev) evs')"
        using less.hyps [OF _ fire_states [OF less.prems, of ev]] by (metis diff_less_mono2 order_less_trans)
      then have "isTerminal m (foldl (fire m) s (ev # evs'))" by simp
      then show ?thesis by blast
    qed
  qed
qed

theorem machine_ends_witness:
  "moves Intent_status ''proposed'' [''plan_materialized'', ''user_approved'', ''user_approved'', ''executor_claimed''] < 11"
proof -
  have "''proposed'' \<in> set (mt_states (table_of Intent_status))" by code_simp
  moreover have "length (mt_order Intent_status) = 11" by simp
  ultimately show ?thesis using machine_ends by (metis (no_types))
qed

text \<open>C25 No intent is dispatched, executing or completed without an approval: among the events that led there from
  \<open>proposed\<close> is the user's approval or the policy's automatic authorization.\<close>

theorem no_execution_without_approval:
  assumes "foldl (fire Intent_status) (mt_initial (table_of Intent_status)) evs
      \<in> {''authorized'', ''dispatching'', ''execution_unknown'', ''executing'', ''completed''}"
  shows "''user_approved'' \<in> set evs \<or> ''policy_auto_authorized'' \<in> set evs"
proof -
  have "mt_initial (table_of Intent_status) \<notin> set approved_states" by code_simp
  then show ?thesis using approval_run [of "mt_initial (table_of Intent_status)" evs] assms
    by (auto simp: approved_states_def approvals_def)
qed

theorem no_execution_without_approval_witness:
  "''user_approved'' \<in> set [''plan_materialized'', ''user_approved'', ''executor_claimed'', ''exchange_acked'']
   \<or> ''policy_auto_authorized'' \<in> set [''plan_materialized'', ''user_approved'', ''executor_claimed'', ''exchange_acked'']"
proof (rule no_execution_without_approval)
  have "foldl (fire Intent_status) (mt_initial (table_of Intent_status))
      [''plan_materialized'', ''user_approved'', ''executor_claimed'', ''exchange_acked''] = ''executing''" by code_simp
  then show "foldl (fire Intent_status) (mt_initial (table_of Intent_status))
      [''plan_materialized'', ''user_approved'', ''executor_claimed'', ''exchange_acked'']
    \<in> {''authorized'', ''dispatching'', ''execution_unknown'', ''executing'', ''completed''}" by simp
qed

end
