(* ===== verification/JsonText.thy ===== *)
theory JsonText imports JsText "HOL-Library.List_Lexorder" "HOL-Library.Char_ord" begin

text \<open>
  JavaScript objects and JSON text, on strings of single-byte characters: the order an object keeps its members in,
  \<open>JSON.stringify\<close> and \<open>JSON.parse\<close>. A value of JSON whose numbers are safe integers survives printing and parsing;
  so printing is injective on those values, which is what a digest of the text rests on.
\<close>

section \<open>Objects\<close>

text \<open>A key that is a canonical array index; those members come first, in numeric order, the others in the order of
  their insertion.\<close>

definition is_index :: "string \<Rightarrow> bool" where
  "is_index k = (k \<noteq> [] \<and> list_all is_digit k \<and> (hd k = CHR ''0'' \<longrightarrow> length k = 1) \<and> digits_val k < 4294967295)"

fun obj_put :: "(string \<times> 'v) list \<Rightarrow> string \<Rightarrow> 'v \<Rightarrow> (string \<times> 'v) list" where
  "obj_put [] k v = [(k, v)]"
| "obj_put ((k', v') # m) k v = (if k' = k then (k, v) # m
     else if is_index k \<and> (is_index k' \<longrightarrow> digits_val k < digits_val k') then (k, v) # (k', v') # m
     else (k', v') # obj_put m k v)"

definition obj_puts :: "(string \<times> 'v) list \<Rightarrow> (string \<times> 'v) list \<Rightarrow> (string \<times> 'v) list" where
  "obj_puts m es = foldl (\<lambda>m (k, v). obj_put m k v) m es"

definition key_before :: "string \<Rightarrow> string \<Rightarrow> bool" where
  "key_before k k' = (if is_index k then (is_index k' \<longrightarrow> digits_val k < digits_val k') else \<not> is_index k')"

definition obj_ordered :: "(string \<times> 'v) list \<Rightarrow> bool" where
  "obj_ordered m = (distinct (List.map fst m) \<and> sorted_wrt key_before (List.map fst m))"

lemma nat_str_snoc: "0 < n \<Longrightarrow> 0 \<le> d \<Longrightarrow> d < 10 \<Longrightarrow> nat_str (10 * n + d) = nat_str n @ [digit d]"
  by (subst nat_str.simps) simp

lemma digit_code: "is_digit c \<Longrightarrow> digit (code c - 48) = c"
  by (simp add: digit_def code_def is_digit_def)

lemma digit_zero: "digit 0 = CHR ''0''"
  by code_simp

lemma nat_str_digits_val:
  "k \<noteq> [] \<Longrightarrow> list_all is_digit k \<Longrightarrow> (hd k = CHR ''0'' \<longrightarrow> length k = 1) \<Longrightarrow> nat_str (digits_val k) = k
    \<and> (hd k \<noteq> CHR ''0'' \<longrightarrow> 0 < digits_val k)"
proof (induction k rule: rev_induct)
  case (snoc c k)
  have c: "is_digit c" "0 \<le> code c - 48" "code c - 48 < 10" "digit (code c - 48) = c"
    using snoc.prems(2) by (simp_all add: digit_code) (simp_all add: is_digit_def)
  show ?case
  proof (cases k)
    case Nil
    have "c \<noteq> CHR ''0'' \<Longrightarrow> code c - 48 \<noteq> 0" using c(4) digit_zero by metis
    then show ?thesis using Nil c by (auto simp: digits_val_def) (subst nat_str.simps, simp)
  next
    case (Cons a r)
    then have "hd k \<noteq> CHR ''0''" using snoc.prems(3) by auto
    then have IH: "nat_str (digits_val k) = k" "0 < digits_val k" using snoc Cons by auto
    then show ?thesis using nat_str_snoc [OF IH(2) c(2,3)] c by simp
  qed
qed simp

lemma index_inject: "is_index k \<Longrightarrow> is_index k' \<Longrightarrow> digits_val k = digits_val k' \<Longrightarrow> k = k'"
  using nat_str_digits_val unfolding is_index_def by metis

lemma obj_put_keys [simp]: "fst ` set (obj_put m k v) = insert k (fst ` set m)"
  by (induction m k v rule: obj_put.induct) auto

lemma map_of_obj_put [simp]: "map_of (obj_put m k v) j = (if j = k then Some v else map_of m j)"
  by (induction m k v rule: obj_put.induct) auto

lemma map_of_obj_puts: "map_of (obj_puts m es) j = (case map_of (rev es) j of Some v \<Rightarrow> Some v | None \<Rightarrow> map_of m j)"
  by (induction es arbitrary: m) (auto simp: obj_puts_def map_add_def split: option.splits)

lemma obj_ordered_put: "obj_ordered m \<Longrightarrow> obj_ordered (obj_put m k v)"
proof (induction m k v rule: obj_put.induct)
  case (2 k' v' m k v)
  have keys: "fst ` set m = set (List.map fst m)" by simp
  have trans: "key_before k x" if "is_index k" "is_index k' \<longrightarrow> digits_val k < digits_val k'" "key_before k' x" for x
    using that by (auto simp: key_before_def split: if_splits)
  have skip: "key_before k' k" if "k' \<noteq> k" "\<not> (is_index k \<and> (is_index k' \<longrightarrow> digits_val k < digits_val k'))"
  proof -
    have "is_index k \<Longrightarrow> is_index k' \<Longrightarrow> digits_val k \<noteq> digits_val k'" using that(1) index_inject [of k k'] by blast
    then show ?thesis using that(2) by (auto simp: key_before_def)
  qed
  consider "k' = k" | "k' \<noteq> k" "is_index k \<and> (is_index k' \<longrightarrow> digits_val k < digits_val k')"
    | "k' \<noteq> k" "\<not> (is_index k \<and> (is_index k' \<longrightarrow> digits_val k < digits_val k'))" by blast
  then show ?case
  proof cases
    case 2
    have lt: "k \<noteq> x \<and> key_before k x" if "x \<in> set (List.map fst m)" for x
    proof -
      have "key_before k' x" using "2.prems" that by (auto simp: obj_ordered_def)
      then show ?thesis using trans 2(2) by (auto simp: key_before_def split: if_splits)
    qed
    have "key_before k k'" using 2(2) by (simp add: key_before_def)
    then show ?thesis using 2 "2.prems" lt by (auto simp: obj_ordered_def)
  next
    case 3
    have "obj_ordered (obj_put m k v)" using "2.IH" [OF 3] "2.prems" by (simp add: obj_ordered_def)
    moreover have "k' \<notin> fst ` set m" "\<forall>x\<in>fst ` set m. key_before k' x" using "2.prems" by (auto simp: obj_ordered_def)
    moreover have "obj_put ((k', v') # m) k v = (k', v') # obj_put m k v" using 3 by (simp only: obj_put.simps if_False)
    ultimately show ?thesis using 3 skip
      by (simp add: obj_ordered_def del: obj_put.simps flip: image_set)
  qed (use "2.prems" in \<open>simp add: obj_ordered_def\<close>)
qed (simp add: obj_ordered_def)

lemma obj_ordered_puts: "obj_ordered m \<Longrightarrow> obj_ordered (obj_puts m es)"
  by (induction es arbitrary: m) (auto simp: obj_puts_def obj_ordered_put)

lemma obj_put_append: "(\<forall>x\<in>set (List.map fst m). x \<noteq> k \<and> key_before x k) \<Longrightarrow> obj_put m k v = m @ [(k, v)]"
  by (induction m k v rule: obj_put.induct) (auto simp: key_before_def split: if_splits)

lemma obj_puts_append: "obj_ordered (m @ es) \<Longrightarrow> obj_puts m es = m @ es"
proof (induction es arbitrary: m)
  case (Cons e es)
  obtain k v where e: "e = (k, v)" by force
  have "obj_put m k v = m @ [(k, v)]"
    using Cons.prems e by (intro obj_put_append) (auto simp: obj_ordered_def sorted_wrt_append)
  then show ?case using Cons.IH [of "m @ [(k, v)]"] Cons.prems e by (simp add: obj_puts_def)
qed (simp add: obj_puts_def)

lemma obj_puts_id: "obj_ordered es \<Longrightarrow> obj_puts [] es = es"
  using obj_puts_append [of "[]" es] by simp

section \<open>Printing\<close>

definition hex_digit :: "int \<Rightarrow> char" where
  "hex_digit n = (if n < 10 then char_of (48 + n) else char_of (87 + n))"

definition bs :: char where "bs = char_of (92 :: int)"

definition dq :: char where "dq = char_of (34 :: int)"

definition escape :: "char \<Rightarrow> string" where
  "escape c = (let k = code c in
     if k = 34 then [bs, dq] else if k = 92 then [bs, bs]
     else if k = 8 then [bs, CHR ''b''] else if k = 9 then [bs, CHR ''t''] else if k = 10 then [bs, CHR ''n'']
     else if k = 12 then [bs, CHR ''f''] else if k = 13 then [bs, CHR ''r'']
     else if k < 32 then [bs, CHR ''u'', CHR ''0'', CHR ''0'', hex_digit (k div 16), hex_digit (k mod 16)]
     else [c])"

definition quote :: "string \<Rightarrow> string" where
  "quote s = [dq] @ concat (List.map escape s) @ [dq]"

text \<open>A number that is not finite prints as \<open>null\<close>, an undefined element as \<open>null\<close>, an undefined member not at all.\<close>

fun stringify :: "json \<Rightarrow> string" where
  "stringify JUndef = ''null''"
| "stringify JNull = ''null''"
| "stringify (JBool b) = (if b then ''true'' else ''false'')"
| "stringify (JNum n) = (if is_fin n then num_str n else ''null'')"
| "stringify (JStr s) = quote s"
| "stringify (JArr xs) = ''['' @ join_str '','' (List.map stringify xs) @ '']''"
| "stringify (JObj kvs) = ''{'' @ join_str '',''
     (List.map (\<lambda>(k, v). quote k @ '':'' @ stringify v) (filter (\<lambda>(k, v). v \<noteq> JUndef) kvs)) @ ''}''"

section \<open>Parsing\<close>

definition json_space :: "char \<Rightarrow> bool" where
  "json_space c = (code c = 32 \<or> code c = 9 \<or> code c = 10 \<or> code c = 13)"

definition skip :: "string \<Rightarrow> string" where "skip s = dropWhile json_space s"

definition hex_val :: "char \<Rightarrow> int option" where "hex_val c = digit_in 16 c"

text \<open>The four hex digits of a \<open>\u\<close> escape; a code above 255 is no character of the model.\<close>

definition unicode :: "string \<Rightarrow> char option" where
  "unicode s = (case radix_val 16 0 (take 4 s) of
     Some n \<Rightarrow> if length s < 4 \<or> 255 < n then None else Some (char_of n) | None \<Rightarrow> None)"

definition unescape :: "char \<Rightarrow> char option" where
  "unescape c = (let k = code c in
     if k = 34 \<or> k = 92 \<or> k = 47 then Some c
     else if c = CHR ''b'' then Some (char_of (8 :: int)) else if c = CHR ''t'' then Some (char_of (9 :: int))
     else if c = CHR ''n'' then Some (char_of (10 :: int)) else if c = CHR ''f'' then Some (char_of (12 :: int))
     else if c = CHR ''r'' then Some (char_of (13 :: int)) else None)"

fun parse_string :: "string \<Rightarrow> (string \<times> string) option" where
  "parse_string [] = None"
| "parse_string (c # s) = (if c = dq then Some ([], s)
     else if c = bs then (case s of [] \<Rightarrow> None
       | e # s' \<Rightarrow> if e = CHR ''u'' then (case unicode s' of None \<Rightarrow> None
             | Some u \<Rightarrow> map_option (\<lambda>(t, r). (u # t, r)) (parse_string (drop 4 s')))
         else (case unescape e of None \<Rightarrow> None | Some u \<Rightarrow> map_option (\<lambda>(t, r). (u # t, r)) (parse_string s')))
     else if code c < 32 then None
     else map_option (\<lambda>(t, r). (c # t, r)) (parse_string s))"

definition num_char :: "char \<Rightarrow> bool" where
  "num_char c = (is_digit c \<or> c = CHR ''-'' \<or> c = CHR ''+'' \<or> c = CHR ''.'' \<or> c = CHR ''e'' \<or> c = CHR ''E'')"

definition number_ok :: "string \<Rightarrow> bool" where
  "number_ok t = (let u = (if t \<noteq> [] \<and> hd t = CHR ''-'' then tl t else t);
     ip = takeWhile is_digit u; r = dropWhile is_digit u;
     dot = (r \<noteq> [] \<and> hd r = CHR ''.'');
     r2 = (if dot then dropWhile is_digit (tl r) else r)
   in ip \<noteq> [] \<and> (hd ip = CHR ''0'' \<longrightarrow> length ip = 1) \<and> (dot \<longrightarrow> takeWhile is_digit (tl r) \<noteq> [])
      \<and> exponent_part r2 \<noteq> None)"

definition parse_atom :: "string \<Rightarrow> (json \<times> string) option" where
  "parse_atom s = (
     if take 4 s = ''null'' then Some (JNull, drop 4 s)
     else if take 4 s = ''true'' then Some (JBool True, drop 4 s)
     else if take 5 s = ''false'' then Some (JBool False, drop 5 s)
     else if number_ok (takeWhile num_char s) then Some (JNum (js_number (takeWhile num_char s)), dropWhile num_char s)
     else None)"

text \<open>The fuel counts nested calls; two calls read at least one character, so twice the length is enough.\<close>

fun parse_value :: "nat \<Rightarrow> string \<Rightarrow> (json \<times> string) option"
  and parse_elems :: "nat \<Rightarrow> string \<Rightarrow> json list \<Rightarrow> (json \<times> string) option"
  and parse_members :: "nat \<Rightarrow> string \<Rightarrow> (string \<times> json) list \<Rightarrow> (json \<times> string) option" where
  "parse_value 0 s = None"
| "parse_value (Suc f) s = (case skip s of [] \<Rightarrow> None
   | c # r \<Rightarrow> if c = dq then map_option (\<lambda>(t, r). (JStr t, r)) (parse_string r)
     else if c = CHR ''['' then
       (if skip r \<noteq> [] \<and> hd (skip r) = CHR '']'' then Some (JArr [], tl (skip r)) else parse_elems f r [])
     else if c = CHR ''{'' then
       (if skip r \<noteq> [] \<and> hd (skip r) = CHR ''}'' then Some (JObj [], tl (skip r)) else parse_members f r [])
     else parse_atom (c # r))"
| "parse_elems 0 s xs = None"
| "parse_elems (Suc f) s xs = (case parse_value f s of None \<Rightarrow> None
   | Some (v, r) \<Rightarrow> (case skip r of [] \<Rightarrow> None
     | c # r' \<Rightarrow> if c = CHR '','' then parse_elems f r' (xs @ [v])
       else if c = CHR '']'' then Some (JArr (xs @ [v]), r') else None))"
| "parse_members 0 s m = None"
| "parse_members (Suc f) s m = (case skip s of [] \<Rightarrow> None
   | c # r \<Rightarrow> if c \<noteq> dq then None
     else (case parse_string r of None \<Rightarrow> None
       | Some (k, r1) \<Rightarrow> (case skip r1 of [] \<Rightarrow> None
         | c1 # r2 \<Rightarrow> if c1 \<noteq> CHR '':'' then None
           else (case parse_value f r2 of None \<Rightarrow> None
             | Some (v, r3) \<Rightarrow> (case skip r3 of [] \<Rightarrow> None
               | c2 # r4 \<Rightarrow> if c2 = CHR '','' then parse_members f r4 (obj_put m k v)
                 else if c2 = CHR ''}'' then Some (JObj (obj_put m k v), r4) else None)))))"

definition json_parse :: "string \<Rightarrow> json option" where
  "json_parse s = (case parse_value (2 * length s + 2) s of
     Some (v, r) \<Rightarrow> if skip r = [] then Some v else None | None \<Rightarrow> None)"

section \<open>Reading back what was printed\<close>

lemma code_bounds: "0 \<le> code c" "code c < 256" "char_of (code c) = c"
proof -
  have "code c = int (of_char c)" by (simp only: code_def of_nat_of_char)
  then show "0 \<le> code c" "code c < 256" using nat_of_char_less_256 [of c] by simp_all
  show "char_of (code c) = c" by (simp add: code_def)
qed

lemma code_special [simp]: "code bs = 92" "code dq = 34"
  by (simp_all add: code_def bs_def dq_def)

lemma code_eq_iff: "c = d \<longleftrightarrow> code c = code d"
  using code_bounds(3) by metis

lemma dq_bs [simp]: "dq \<noteq> bs" "bs \<noteq> dq"
  by (simp_all add: code_eq_iff)

lemma unicode_low:
  assumes "0 \<le> k" "k < 32"
  shows "unicode (CHR ''0'' # CHR ''0'' # hex_digit (k div 16) # hex_digit (k mod 16) # t) = Some (char_of k)"
proof -
  have "list_all (\<lambda>k. radix_val 16 0 [CHR ''0'', CHR ''0'', hex_digit (k div 16), hex_digit (k mod 16)] = Some k) [0..31]"
    by code_simp
  then have "radix_val 16 0 [CHR ''0'', CHR ''0'', hex_digit (k div 16), hex_digit (k mod 16)] = Some k"
    using assms by (simp add: list_all_iff)
  then show ?thesis using assms by (simp add: unicode_def del: radix_val.simps)
qed

lemma parse_escape: "parse_string (escape c @ t) = map_option (\<lambda>(u, r). (c # u, r)) (parse_string t)"
proof -
  have plain: "\<not> code c < 32 \<Longrightarrow> code c \<noteq> 34 \<Longrightarrow> code c \<noteq> 92 \<Longrightarrow> escape c = [c]"
    by (simp add: escape_def Let_def)
  have un: "unescape (CHR ''b'') = Some (char_of (8 :: int))" "unescape (CHR ''t'') = Some (char_of (9 :: int))"
    "unescape (CHR ''n'') = Some (char_of (10 :: int))" "unescape (CHR ''f'') = Some (char_of (12 :: int))"
    "unescape (CHR ''r'') = Some (char_of (13 :: int))" "unescape dq = Some dq" "unescape bs = Some bs"
    by code_simp+
  have ne: "dq \<noteq> CHR ''u''" "bs \<noteq> CHR ''u''" by code_simp+
  have c: "code c = k \<Longrightarrow> char_of k = c" for k using code_bounds(3) by blast
  have c2: "code c = 34 \<Longrightarrow> c = dq" "code c = 92 \<Longrightarrow> c = bs" by (simp_all add: code_eq_iff)
  have esc: "escape c = [bs, e] \<Longrightarrow> e \<noteq> CHR ''u'' \<Longrightarrow> unescape e = Some c \<Longrightarrow> ?thesis" for e by simp
  consider "code c \<in> {34, 92}" | "code c \<in> {8, 9, 10, 12, 13}" | "code c < 32" "code c \<notin> {8, 9, 10, 12, 13}"
    | "\<not> code c < 32" "code c \<noteq> 34" "code c \<noteq> 92" by blast
  then show ?thesis
  proof cases
    case 1
    have "unescape c = Some c" "c \<noteq> CHR ''u''" "escape c = [bs, c]"
      using 1 c2 un ne by (auto simp: escape_def Let_def)
    then show ?thesis using esc [of c] by blast
  next
    case 2
    have k: "escape c = [bs, e] \<Longrightarrow> e \<noteq> CHR ''u'' \<Longrightarrow> unescape e = Some (char_of k) \<Longrightarrow> code c = k \<Longrightarrow> ?thesis" for e k
      by (rule esc) (use c [of k] in simp_all)
    have e: "code c = 8 \<Longrightarrow> escape c = [bs, CHR ''b'']" "code c = 9 \<Longrightarrow> escape c = [bs, CHR ''t'']"
      "code c = 10 \<Longrightarrow> escape c = [bs, CHR ''n'']" "code c = 12 \<Longrightarrow> escape c = [bs, CHR ''f'']"
      "code c = 13 \<Longrightarrow> escape c = [bs, CHR ''r'']"
      by (simp_all add: escape_def Let_def)
    consider "code c = 8" | "code c = 9" | "code c = 10" | "code c = 12" | "code c = 13" using 2 by blast
    then show ?thesis
      by cases (rule k [OF e(1) _ un(1)] k [OF e(2) _ un(2)] k [OF e(3) _ un(3)] k [OF e(4) _ un(4)] k [OF e(5) _ un(5)],
        assumption, simp, assumption)+
  next
    case 3
    then have "escape c = [bs, CHR ''u'', CHR ''0'', CHR ''0'', hex_digit (code c div 16), hex_digit (code c mod 16)]"
      by (simp add: escape_def Let_def)
    then show ?thesis using unicode_low [of "code c" t] 3 code_bounds by simp
  next
    case 4
    then show ?thesis using plain by (simp add: code_eq_iff)
  qed
qed

lemma parse_quote: "parse_string (concat (List.map escape s) @ dq # r) = Some (s, r)"
proof (induction s)
  case (Cons c s)
  then show ?case using parse_escape [of c "concat (List.map escape s) @ dq # r"] by simp
qed simp

definition safe_num :: "jsnum \<Rightarrow> bool" where
  "safe_num n = (case n of Fin x \<Rightarrow> x = of_int \<lfloor>x\<rfloor> \<and> \<bar>x\<bar> < 2 ^ 53 | _ \<Rightarrow> False)"

text \<open>The values of JSON text with safe integers only.\<close>

fun plain :: "json \<Rightarrow> bool" where
  "plain JUndef = False"
| "plain (JNum n) = safe_num n"
| "plain (JArr xs) = list_all plain xs"
| "plain (JObj kvs) = (obj_ordered kvs \<and> list_all (\<lambda>kv. plain (snd kv)) kvs)"
| "plain _ = True"

lemma safe_numE:
  assumes "safe_num n"
  obtains m where "n = Fin (of_int m)" "\<bar>m\<bar> < 2 ^ 53"
proof -
  obtain x where x: "n = Fin x" "x = of_int \<lfloor>x\<rfloor>" "\<bar>x\<bar> < 2 ^ 53" using assms by (auto simp: safe_num_def split: jsnum.splits)
  have "of_int \<bar>\<lfloor>x\<rfloor>\<bar> < (of_int (2 ^ 53) :: rat)" using x(2,3) by simp
  then have "\<bar>\<lfloor>x\<rfloor>\<bar> < 2 ^ 53" by (simp only: of_int_less_iff)
  then show thesis using that x by metis
qed

lemma nat_str_hd: "0 < m \<Longrightarrow> hd (nat_str m) \<noteq> CHR ''0''"
proof (induction m rule: nat_str.induct)
  case (1 m)
  then show ?case
  proof (cases "m < 10")
    case True
    have "code (digit m) \<noteq> code (CHR ''0'')" using True 1 by (simp add: digit_zero [symmetric])
    then show ?thesis using True by (subst nat_str.simps) auto
  next
    case False
    then show ?thesis using 1 by (subst nat_str.simps) simp
  qed
qed

definition stops :: "string \<Rightarrow> bool" where "stops r = (r = [] \<or> \<not> num_char (hd r))"

lemma number_text:
  assumes "\<bar>m\<bar> < 2 ^ 53" "stops r"
  shows "takeWhile num_char (int_str m @ r) = int_str m" "dropWhile num_char (int_str m @ r) = r"
    "number_ok (int_str m)" "js_number (int_str m) = Fin (of_int m)"
    "int_str m \<noteq> []" "is_digit (hd (int_str m)) \<or> hd (int_str m) = CHR ''-''"
proof -
  have dig: "list_all is_digit (nat_str \<bar>m\<bar>)" by (simp add: nat_str_digits)
  have all: "\<forall>c\<in>set (int_str m). num_char c"
    using dig by (auto simp: int_str_def num_char_def list_all_iff)
  show "takeWhile num_char (int_str m @ r) = int_str m" "dropWhile num_char (int_str m @ r) = r"
    using all assms(2) by (auto simp: stops_def takeWhile_append2 dropWhile_append2 takeWhile_eq_Nil_iff) (cases r; simp)
  have tw: "takeWhile is_digit (nat_str \<bar>m\<bar>) = nat_str \<bar>m\<bar>" "dropWhile is_digit (nat_str \<bar>m\<bar>) = []"
    using takeWhile_digits [OF dig, of "[]"] by simp_all
  have z: "hd (nat_str \<bar>m\<bar>) = CHR ''0'' \<longrightarrow> length (nat_str \<bar>m\<bar>) = 1"
    using nat_str_hd [of "\<bar>m\<bar>"] by (cases "m = 0") (simp_all add: nat_str.simps)
  have nd: "hd (nat_str \<bar>m\<bar>) \<noteq> CHR ''-''"
    using dig by (cases "nat_str \<bar>m\<bar>") (auto simp: is_digit_def code_def)
  have strip: "(if int_str m \<noteq> [] \<and> hd (int_str m) = CHR ''-'' then tl (int_str m) else int_str m) = nat_str \<bar>m\<bar>"
    using nd by (auto simp: int_str_def)
  show "number_ok (int_str m)"
    unfolding number_ok_def strip Let_def tw using z by (simp add: exponent_part_def)
  have d: "list_all (\<lambda>c. is_digit c \<or> c = CHR ''.'') (nat_str \<bar>m\<bar>)" using dig by (simp add: list_all_iff)
  have q: "decimal (nat_str \<bar>m\<bar>) = Some (of_int \<bar>m\<bar>)" using decimal_fixed [of "\<bar>m\<bar>" 0] by (simp add: fixed_str_def)
  show "js_number (int_str m) = Fin (of_int m)"
    using number_of_chars [OF d q] rnd_int [of "\<bar>m\<bar>"] assms(1) by (auto simp: int_str_def)
  show "int_str m \<noteq> []" by (simp add: int_str_def)
  show "is_digit (hd (int_str m)) \<or> hd (int_str m) = CHR ''-''"
    using dig by (cases "nat_str \<bar>m\<bar>") (auto simp: int_str_def)
qed

lemma join_str_Cons: "join_str sep [x] = x" "join_str sep (x # y # ys) = x @ sep @ join_str sep (y # ys)"
  by (simp_all add: join_str_def)

lemma skip_id: "\<not> json_space c \<Longrightarrow> skip (c # t) = c # t"
  by (simp add: skip_def)

lemma punct [simp]: "\<not> json_space (CHR '','')" "\<not> json_space (CHR '']'')" "\<not> json_space (CHR ''}'')" "\<not> json_space (CHR '':'')"
  "\<not> json_space (CHR ''['')" "\<not> json_space (CHR ''{'')" "\<not> json_space dq"
  "\<not> num_char (CHR '','')" "\<not> num_char (CHR '']'')" "\<not> num_char (CHR ''}'')"
  "\<not> is_space dq" "dq \<noteq> CHR '']''" "CHR ''['' \<noteq> dq" "CHR ''{'' \<noteq> dq" "dq \<noteq> CHR ''['' " "dq \<noteq> CHR ''{''" "dq \<noteq> CHR ''}''"
  by code_simp+

lemma stringify_first:
  "plain v \<Longrightarrow> stringify v \<noteq> [] \<and> \<not> json_space (hd (stringify v)) \<and> hd (stringify v) \<noteq> CHR '']'' \<and> \<not> is_space (hd (stringify v))"
proof (cases v)
  case (JNum n)
  assume "plain v"
  then obtain m where m: "n = Fin (of_int m)" "\<bar>m\<bar> < 2 ^ 53" unfolding JNum plain.simps by (rule safe_numE)
  have "is_digit c \<or> c = CHR ''-'' \<Longrightarrow> \<not> json_space c \<and> c \<noteq> CHR '']'' \<and> \<not> is_space c" for c
    by (auto simp: is_digit_def json_space_def is_space_def code_def)
  then show ?thesis using JNum m num_str_int [OF m(2)] number_text(5,6) [OF m(2), of "[]"] by (auto simp: stops_def)
qed (auto simp: quote_def, simp_all add: json_space_def is_space_def code_def)

lemma stringify_head:
  "plain v \<Longrightarrow> stringify v \<noteq> [] \<and> \<not> json_space (hd (stringify v)) \<and> hd (stringify v) \<noteq> CHR '']''"
  using stringify_first by blast

lemma parse_atom_text:
  assumes "stops r" "plain v" "v \<in> {JNull, JBool True, JBool False} \<or> (\<exists>n. v = JNum n)"
  shows "parse_atom (stringify v @ r) = Some (v, r)"
proof (cases "\<exists>n. v = JNum n")
  case True
  then obtain n where n: "v = JNum n" by blast
  then have "safe_num n" using assms(2) by simp
  then obtain m where "n = Fin (of_int m)" and m: "\<bar>m\<bar> < 2 ^ 53" by (rule safe_numE)
  then have v: "v = JNum (Fin (of_int m))" using n by simp
  note t = number_text [OF m assms(1)]
  have "hd (int_str m) \<notin> {CHR ''n'', CHR ''t'', CHR ''f''}" using t(6) by (auto simp: is_digit_def code_def)
  then have "take 4 (int_str m @ r) \<noteq> ''null''" "take 4 (int_str m @ r) \<noteq> ''true''" "take 5 (int_str m @ r) \<noteq> ''false''"
    using t(5) by (cases "int_str m"; auto)+
  then show ?thesis unfolding v using t num_str_int [OF m] by (simp add: parse_atom_def)
qed (use assms in \<open>auto simp: parse_atom_def\<close>)

lemma join_nonempty: "(\<forall>x\<in>set xs. x \<noteq> []) \<Longrightarrow> xs \<noteq> [] \<Longrightarrow> join_str sep xs \<noteq> []"
  by (simp add: join_str_def)

lemma parse_elems_text:
  assumes "\<And>x f r. x \<in> set xs \<Longrightarrow> stops r \<Longrightarrow> 2 * length (stringify x) \<le> f \<Longrightarrow> parse_value f (stringify x @ r) = Some (x, r)"
    "xs \<noteq> []" "2 * length (join_str '','' (List.map stringify xs)) < f"
  shows "parse_elems f (join_str '','' (List.map stringify xs) @ '']'' @ r) ys = Some (JArr (ys @ xs), r)"
  using assms
proof (induction xs arbitrary: f ys)
  case (Cons x xs)
  obtain g where f: "f = Suc g" using Cons.prems(3) by (cases f) auto
  show ?case
  proof (cases xs)
    case Nil
    have "parse_value g (stringify x @ '']'' @ r) = Some (x, '']'' @ r)"
      using Cons.prems Nil f by (intro Cons.prems(1)) (auto simp: stops_def join_str_Cons)
    then show ?thesis using Nil f by (simp add: join_str_Cons skip_id)
  next
    case (Cons y zs)
    let ?rest = "join_str '','' (List.map stringify xs) @ '']'' @ r"
    have split: "join_str '','' (List.map stringify (x # xs)) = stringify x @ '','' @ join_str '','' (List.map stringify xs)"
      using Cons by (simp add: join_str_Cons)
    have "parse_value g (stringify x @ '','' @ ?rest) = Some (x, '','' @ ?rest)"
      using Cons.prems(3) f unfolding split by (intro Cons.prems(1)) (auto simp: stops_def)
    moreover have "parse_elems g ?rest (ys @ [x]) = Some (JArr ((ys @ [x]) @ xs), r)"
      using Cons.prems(3) f Cons unfolding split by (intro Cons.IH Cons.prems(1)) auto
    ultimately show ?thesis unfolding split f by (simp add: skip_id)
  qed
qed simp

definition member_text :: "string \<times> json \<Rightarrow> string" where
  "member_text kv = quote (fst kv) @ '':'' @ stringify (snd kv)"

lemma parse_members_text:
  assumes "\<And>kv f r. kv \<in> set kvs \<Longrightarrow> stops r \<Longrightarrow> 2 * length (stringify (snd kv)) \<le> f
      \<Longrightarrow> parse_value f (stringify (snd kv) @ r) = Some (snd kv, r)"
    "kvs \<noteq> []" "2 * length (join_str '','' (List.map member_text kvs)) < f"
  shows "parse_members f (join_str '','' (List.map member_text kvs) @ ''}'' @ r) m = Some (JObj (obj_puts m kvs), r)"
  using assms
proof (induction kvs arbitrary: f m)
  case (Cons kv kvs)
  obtain g where f: "f = Suc g" using Cons.prems(3) by (cases f) auto
  obtain k v where kv: "kv = (k, v)" by force
  have key: "parse_members f (member_text kv @ s) m = (case parse_value g (stringify v @ s) of None \<Rightarrow> None
      | Some (v, r3) \<Rightarrow> (case skip r3 of [] \<Rightarrow> None
        | c2 # r4 \<Rightarrow> if c2 = CHR '','' then parse_members g r4 (obj_put m k v)
          else if c2 = CHR ''}'' then Some (JObj (obj_put m k v), r4) else None))" for s
    using parse_quote [of k "'':'' @ stringify v @ s"]
    by (simp add: f kv member_text_def quote_def skip_id)
  show ?case
  proof (cases kvs)
    case Nil
    have "parse_value g (stringify v @ ''}'' @ r) = Some (v, ''}'' @ r)"
      using Cons.prems(1) [of kv "''}'' @ r" g] Cons.prems(3) Nil f kv by (simp add: stops_def join_str_Cons member_text_def)
    then show ?thesis using Nil key kv by (simp add: join_str_Cons skip_id obj_puts_def)
  next
    case (Cons y zs)
    let ?rest = "join_str '','' (List.map member_text kvs) @ ''}'' @ r"
    have split: "join_str '','' (List.map member_text (kv # kvs)) = member_text kv @ '','' @ join_str '','' (List.map member_text kvs)"
      using Cons by (simp add: join_str_Cons)
    have "parse_value g (stringify v @ '','' @ ?rest) = Some (v, '','' @ ?rest)"
      using Cons.prems(1) [of kv "'','' @ ?rest" g] Cons.prems(3) f kv unfolding split by (simp add: stops_def member_text_def)
    moreover have "parse_members g ?rest (obj_put m k v) = Some (JObj (obj_puts (obj_put m k v) kvs), r)"
    proof (rule Cons.IH)
      show "2 * length (join_str '','' (List.map member_text kvs)) < g" using Cons.prems(3) f unfolding split by simp
    qed (use Cons Cons.prems(1) in auto)
    ultimately show ?thesis unfolding split using key [of "'','' @ ?rest"] by (simp add: skip_id obj_puts_def kv)
  qed
qed simp

lemma parse_value_atom:
  assumes "plain v" "stops r" "2 * length (stringify v) \<le> f" "v \<in> {JNull, JBool True, JBool False} \<or> (\<exists>n. v = JNum n)"
  shows "parse_value f (stringify v @ r) = Some (v, r)"
proof -
  have h: "stringify v \<noteq> []" "\<not> json_space (hd (stringify v))" using stringify_head [OF assms(1)] by blast+
  obtain c t where ct: "stringify v = c # t" using h(1) by (cases "stringify v") auto
  obtain g where f: "f = Suc g" using assms(3) ct by (cases f) auto
  have "c \<notin> {dq, CHR ''['', CHR ''{''}"
  proof (cases "\<exists>n. v = JNum n")
    case True
    then obtain n where n: "v = JNum n" by blast
    then have "safe_num n" using assms(1) by simp
    then obtain m where m: "n = Fin (of_int m)" "\<bar>m\<bar> < 2 ^ 53" by (rule safe_numE)
    have "is_digit c \<or> c = CHR ''-''" using number_text(6) [OF m(2), of "[]"] num_str_int [OF m(2)] ct n m(1) by (simp add: stops_def)
    then show ?thesis by (auto simp: is_digit_def code_eq_iff, simp_all add: code_def)
  next
    case False
    then have "c \<in> {CHR ''n'', CHR ''t'', CHR ''f''}" using assms(4) ct by auto
    moreover have "CHR ''n'' \<noteq> dq" "CHR ''t'' \<noteq> dq" "CHR ''f'' \<noteq> dq" by code_simp+
    ultimately show ?thesis by auto
  qed
  moreover have "skip (stringify v @ r) = c # t @ r" using h(2) ct by (simp add: skip_id)
  moreover have "parse_atom (c # t @ r) = Some (v, r)" using parse_atom_text [OF assms(2,1,4)] ct by simp
  ultimately show ?thesis unfolding f by simp
qed

lemma parse_stringify:
  "plain v \<Longrightarrow> stops r \<Longrightarrow> 2 * length (stringify v) \<le> f \<Longrightarrow> parse_value f (stringify v @ r) = Some (v, r)"
proof (induction v arbitrary: f r)
  case (JStr s)
  then obtain g where "f = Suc g" by (cases f) (auto simp: quote_def)
  then show ?case using parse_quote [of s r] by (simp add: quote_def skip_id)
next
  case (JArr xs)
  let ?t = "join_str '','' (List.map stringify xs)"
  obtain g where f: "f = Suc g" using JArr.prems(3) by (cases f) auto
  show ?case
  proof (cases xs)
    case Nil
    then show ?thesis by (simp add: f skip_id join_str_def)
  next
    case (Cons x ys)
    have "stringify x \<noteq> [] \<and> \<not> json_space (hd (stringify x)) \<and> hd (stringify x) \<noteq> CHR '']''"
      using JArr.prems(1) Cons by (intro stringify_head) simp
    then have h: "skip (?t @ '']'' @ r) = ?t @ '']'' @ r" "hd (?t @ '']'' @ r) \<noteq> CHR '']''"
      using Cons by (cases "stringify x"; cases ys; simp add: join_str_Cons skip_id)+
    have "parse_elems g (?t @ '']'' @ r) [] = Some (JArr ([] @ xs), r)"
    proof (rule parse_elems_text)
      show "parse_value f (stringify x @ r) = Some (x, r)"
        if "x \<in> set xs" "stops r" "2 * length (stringify x) \<le> f" for x f r
        using that JArr by (auto simp: list_all_iff)
      show "2 * length ?t < g" using JArr.prems(3) f by simp
    qed (simp add: Cons)
    then show ?thesis using h by (simp add: f skip_id)
  qed
next
  case (JObj kvs)
  let ?t = "join_str '','' (List.map member_text kvs)"
  obtain g where f: "f = Suc g" using JObj.prems(3) by (cases f) auto
  have ud: "\<forall>kv\<in>set kvs. snd kv \<noteq> JUndef" using JObj.prems(1) by (auto simp: list_all_iff)
  have s: "stringify (JObj kvs) = ''{'' @ ?t @ ''}''"
    using ud by (auto simp: member_text_def case_prod_beta filter_id_conv intro!: arg_cong [of _ _ "join_str '',''"])
  show ?case
  proof (cases kvs)
    case Nil
    then show ?thesis by (simp add: f skip_id join_str_def)
  next
    case (Cons kv kvs')
    have h: "skip (?t @ ''}'' @ r) = ?t @ ''}'' @ r" "hd (?t @ ''}'' @ r) \<noteq> CHR ''}''"
      using Cons by (cases kvs'; simp add: join_str_Cons skip_id member_text_def quote_def)+
    have "parse_members g (?t @ ''}'' @ r) [] = Some (JObj (obj_puts [] kvs), r)"
    proof (rule parse_members_text)
      show "parse_value f (stringify (snd kv) @ r) = Some (snd kv, r)"
        if "kv \<in> set kvs" "stops r" "2 * length (stringify (snd kv)) \<le> f" for kv f r
        using that(2,3) that(1) JObj.prems(1) JObj.IH [of kv "snd kv"] by (cases kv) (force simp: list_all_iff)
      show "2 * length ?t < g" using JObj.prems(3) f unfolding s by simp
    qed (simp add: Cons)
    moreover have "obj_puts [] kvs = kvs" using JObj.prems(1) by (simp add: obj_puts_id)
    ultimately show ?thesis unfolding s using h by (simp add: f skip_id)
  qed
next
  case JNull
  then show ?case by (intro parse_value_atom) simp_all
next
  case (JBool b)
  then show ?case by (intro parse_value_atom) auto
next
  case (JNum n)
  then show ?case by (intro parse_value_atom) simp_all
qed simp

theorem json_roundtrip: "plain v \<Longrightarrow> json_parse (stringify v) = Some v"
  using parse_stringify [of v "[]" "2 * length (stringify v) + 2"] by (simp add: json_parse_def stops_def skip_def)

lemma stringify_inject: "plain v \<Longrightarrow> plain w \<Longrightarrow> stringify v = stringify w \<longleftrightarrow> v = w"
  using json_roundtrip by (metis option.inject)

section \<open>Characters of the text\<close>

lemma escape_chars: "c \<in> set (escape d) \<Longrightarrow> 32 \<le> code c"
proof -
  have "list_all (\<lambda>k. list_all (\<lambda>c. 32 \<le> code c) (escape (char_of (k :: int)))) [0..31]" by code_simp
  moreover have "code d < 32 \<Longrightarrow> code d \<in> set [0..31]" using code_bounds [of d] by simp
  ultimately have "code d < 32 \<Longrightarrow> list_all (\<lambda>c. 32 \<le> code c) (escape d)"
    using code_bounds(3) [of d] by (metis list_all_iff)
  moreover have "\<not> code d < 32 \<Longrightarrow> list_all (\<lambda>c. 32 \<le> code c) (escape d)"
    by (simp add: escape_def Let_def)
  ultimately show "c \<in> set (escape d) \<Longrightarrow> 32 \<le> code c" by (auto simp: list_all_iff)
qed

lemma quote_chars: "c \<in> set (quote s) \<Longrightarrow> 32 \<le> code c"
  by (auto simp: quote_def dest: escape_chars)

lemma join_str_chars: "c \<in> set (join_str sep xs) \<Longrightarrow> c \<in> set sep \<or> (\<exists>x\<in>set xs. c \<in> set x)"
  by (cases xs) (auto simp: join_str_def split: if_splits)

end
