(* ===== verification/Canonical.thy ===== *)
theory Canonical imports JsonText "HOL-Library.Multiset" begin

text \<open>
  Canonical JSON and what is derived from it (\<open>canonical.ts\<close> with the tables of \<open>generated/tables.ts\<close>): the
  plan hash an authorization binds to, the account version, the confirmation fields and the client order ids. SHA-256
  is a parameter. Results that the code throws are the left side of a sum.
\<close>

section \<open>Tables\<close>

datatype leg = Leg_entry | Leg_stop | Leg_take_profit | Leg_cancel | Leg_close | Leg_transfer

fun leg_codes :: "leg \<Rightarrow> string" where
  "leg_codes Leg_entry = ''e''"
| "leg_codes Leg_stop = ''s''"
| "leg_codes Leg_take_profit = ''t''"
| "leg_codes Leg_cancel = ''c''"
| "leg_codes Leg_close = ''x''"
| "leg_codes Leg_transfer = ''f''"

definition cid_prefix :: string where "cid_prefix = ''tg-''"

definition cid_max_len :: nat where "cid_max_len = 36"

definition confirm_by_kind :: "(string \<times> string list) list" where
  "confirm_by_kind = [
     (''order'', [''symbol'', ''side'', ''qty'', ''order_type'', ''price'', ''trigger_price'', ''leverage'', ''reduce_only'']),
     (''protect'', [''symbol'', ''position_side'', ''legs'']),
     (''cancel'', [''symbol'', ''exchange_order_id'', ''client_order_id'']),
     (''transfer'', [''asset'', ''amount'', ''from_account'', ''to_account''])]"

section \<open>Canonical JSON\<close>

text \<open>The only refusal: a number that is not an integer.\<close>

datatype canonical_error = Non_integer jsnum

lemma size_list_sort_key: "size_list f (sort_key g xs) = size_list f xs"
proof -
  have "size_list f ys = sum_mset (image_mset f (mset ys)) + length ys" for ys by (induction ys) auto
  then show ?thesis by simp
qed

text \<open>Assigning to a member of a fresh object: the name \<open>__proto__\<close> would set its prototype and is no member.\<close>

definition js_assign :: "(string \<times> json) list \<Rightarrow> string \<Rightarrow> json \<Rightarrow> (string \<times> json) list" where
  "js_assign m k v = (if k = ''__proto__'' then m else obj_put m k v)"

function normalize :: "json \<Rightarrow> canonical_error + json"
  and normalize_elems :: "json list \<Rightarrow> canonical_error + json list"
  and normalize_members :: "(string \<times> json) list \<Rightarrow> (string \<times> json) list \<Rightarrow> canonical_error + json" where
  "normalize (JNum n) = (if is_integer n then Inr (JNum n) else Inl (Non_integer n))"
| "normalize (JArr xs) = (case normalize_elems xs of Inl e \<Rightarrow> Inl e | Inr ys \<Rightarrow> Inr (JArr ys))"
| "normalize (JObj kvs) = normalize_members (sort_key fst kvs) []"
| "normalize JUndef = Inr JUndef"
| "normalize JNull = Inr JNull"
| "normalize (JBool b) = Inr (JBool b)"
| "normalize (JStr s) = Inr (JStr s)"
| "normalize_elems [] = Inr []"
| "normalize_elems (x # xs) = (case normalize x of Inl e \<Rightarrow> Inl e
     | Inr y \<Rightarrow> (case normalize_elems xs of Inl e \<Rightarrow> Inl e | Inr ys \<Rightarrow> Inr (y # ys)))"
| "normalize_members [] m = Inr (JObj m)"
| "normalize_members ((k, v) # kvs) m = (if nullish v then normalize_members kvs m
     else case normalize v of Inl e \<Rightarrow> Inl e | Inr w \<Rightarrow> normalize_members kvs (js_assign m k w))"
  by pat_completeness auto
termination
  by (relation "measure (case_sum size (case_sum (size_list size) (\<lambda>(kvs, m). size_list (\<lambda>kv. Suc (size (snd kv))) kvs)))")
    (auto simp: size_list_sort_key size_prod_simp comp_def)

definition canonicalJson :: "json \<Rightarrow> canonical_error + string option" where
  "canonicalJson v = (case normalize v of Inl e \<Rightarrow> Inl e | Inr w \<Rightarrow> Inr (if w = JUndef then None else Some (stringify w)))"

text \<open>The digest of an object, \<open>sha\<close> standing for the hexadecimal SHA-256 of a text.\<close>

definition planHash :: "(string \<Rightarrow> string) \<Rightarrow> (string \<times> json) list \<Rightarrow> canonical_error + string" where
  "planHash sha economic = (case canonicalJson (JObj economic) of Inl e \<Rightarrow> Inl e
     | Inr t \<Rightarrow> Inr (sha (case t of Some x \<Rightarrow> x | None \<Rightarrow> [])))"

definition accountVersion :: "(string \<Rightarrow> string) \<Rightarrow> json \<Rightarrow> json \<Rightarrow> json \<Rightarrow> json \<Rightarrow> canonical_error + string" where
  "accountVersion sha balances positions open_orders position_mode = planHash sha
     [(''balances'', balances), (''positions'', positions), (''open_orders'', open_orders), (''position_mode'', position_mode)]"

section \<open>Confirmation fields\<close>

definition confirmFieldValue :: "json \<Rightarrow> canonical_error + string option" where
  "confirmFieldValue v = (case v of JUndef \<Rightarrow> Inr None | JNull \<Rightarrow> Inr None
     | JBool b \<Rightarrow> Inr (Some (if b then ''true'' else ''false''))
     | JNum n \<Rightarrow> if is_integer n then Inr (Some (num_str n)) else Inl (Non_integer n)
     | JStr s \<Rightarrow> Inr (Some s)
     | _ \<Rightarrow> canonicalJson v)"

fun confirm_loop :: "(string \<times> json) list \<Rightarrow> string list \<Rightarrow> (string \<times> string) list \<Rightarrow> canonical_error + (string \<times> string) list" where
  "confirm_loop economic [] out = Inr out"
| "confirm_loop economic (f # fs) out = (case confirmFieldValue (jget (JObj economic) f) of Inl e \<Rightarrow> Inl e
     | Inr None \<Rightarrow> confirm_loop economic fs out
     | Inr (Some t) \<Rightarrow> confirm_loop economic fs (map_set out f t))"

definition confirmFields :: "string \<Rightarrow> string list \<Rightarrow> (string \<times> json) list \<Rightarrow> canonical_error + (string \<times> string) list" where
  "confirmFields plan_hash fields economic = confirm_loop economic fields [(''plan_hash'', plan_hash)]"

section \<open>Client order ids\<close>

record cid_params =
  cp_intent_id :: string
  cp_leg :: leg
  cp_leg_index :: int
  cp_attempt_no :: int

definition intent12 :: "string \<Rightarrow> string" where
  "intent12 i = take 12 (lower (filter (\<lambda>c. c \<noteq> CHR ''-'') i))"

definition clientOrderId :: "cid_params \<Rightarrow> string + string" where
  "clientOrderId p = (let cid = cid_prefix @ intent12 (cp_intent_id p) @ ''-'' @ leg_codes (cp_leg p) @ int_str (cp_leg_index p)
       @ ''-'' @ int_str (cp_attempt_no p)
     in if cid_max_len < length cid then Inl cid else Inr cid)"

datatype order_origin = Origin_local | Origin_foreign

definition classifyOrderOrigin :: "string \<Rightarrow> order_origin" where
  "classifyOrderOrigin cid = (if take (length cid_prefix) cid = cid_prefix then Origin_local else Origin_foreign)"

section \<open>What normalisation keeps\<close>

text \<open>Values that come from JSON text with safe integers, in any member order.\<close>

fun json_value :: "json \<Rightarrow> bool" where
  "json_value JUndef = False"
| "json_value (JNum n) = safe_num n"
| "json_value (JArr xs) = list_all json_value xs"
| "json_value (JObj kvs) = (distinct (List.map fst kvs) \<and> list_all (\<lambda>kv. json_value (snd kv)) kvs)"
| "json_value _ = True"

lemma safe_num_integer: "safe_num n \<Longrightarrow> is_integer n"
  by (auto simp: safe_num_def split: jsnum.splits)

lemma normalize_plain:
  "json_value v \<Longrightarrow> \<exists>w. normalize v = Inr w \<and> plain w \<and> (nullish w = nullish v)"
  "list_all json_value xs \<Longrightarrow> \<exists>ys. normalize_elems xs = Inr ys \<and> list_all plain ys"
  "list_all (\<lambda>kv. json_value (snd kv)) kvs \<Longrightarrow> plain (JObj m) \<Longrightarrow> \<exists>m'. normalize_members kvs m = Inr (JObj m') \<and> plain (JObj m')"
proof (induction v and xs and kvs m rule: normalize_normalize_elems_normalize_members.induct)
  case (3 kvs)
  have "list_all (\<lambda>kv. json_value (snd kv)) (sort_key fst kvs)" using 3 by (simp add: list_all_iff)
  then show ?case using 3 by (fastforce simp: nullish_def obj_ordered_def)
next
  case (11 k v kvs m)
  show ?case
  proof (cases "nullish v")
    case False
    then obtain w where w: "normalize v = Inr w" "plain w" using 11 by auto
    have "list_all (\<lambda>kv. plain (snd kv)) (obj_put m k w)" if "list_all (\<lambda>kv. plain (snd kv)) m"
      using that w(2) by (induction m k w rule: obj_put.induct) auto
    then have "plain (JObj (js_assign m k w))" using "11.prems" by (simp add: js_assign_def obj_ordered_put)
    then show ?thesis using 11 False w by simp
  qed (use 11 in simp)
qed (auto simp: safe_num_integer nullish_def)

definition content :: "(string \<times> json) list \<Rightarrow> string \<Rightarrow> json option" where
  "content kvs k = (case map_of kvs k of None \<Rightarrow> None | Some v \<Rightarrow> if nullish v \<or> k = ''__proto__'' then None
     else (case normalize v of Inr w \<Rightarrow> Some w | Inl _ \<Rightarrow> None))"

lemma content_Cons: "map_of kvs k = None \<Longrightarrow> content ((k, v) # kvs) = content [(k, v)] ++ content kvs"
  by (rule ext) (simp add: content_def map_add_def split: option.split)

lemma normalize_members_map:
  "normalize_members kvs m = Inr w \<Longrightarrow> distinct (List.map fst kvs) \<Longrightarrow>
    \<exists>m'. w = JObj m' \<and> map_of m' = map_of m ++ content kvs"
proof (induction kvs arbitrary: m)
  case (Cons kv kvs)
  obtain k v where kv: "kv = (k, v)" by force
  have nk: "map_of kvs k = None" using Cons.prems kv by (simp add: map_of_eq_None_iff)
  have "\<exists>y m2. normalize_members kvs m2 = Inr w \<and> map_of m2 = map_of m ++ content [(k, v)]"
  proof (cases "nullish v")
    case True
    then have "content [(k, v)] = Map.empty" by (auto simp: content_def)
    then show ?thesis using Cons.prems True kv by auto
  next
    case False
    then obtain y where y: "normalize v = Inr y" "normalize_members kvs (js_assign m k y) = Inr w"
      using Cons.prems kv by (auto split: sum.splits)
    have "map_of (js_assign m k y) = map_of m ++ content [(k, v)]"
      using False y(1) by (intro ext) (simp add: content_def js_assign_def map_add_def)
    then show ?thesis using y by blast
  qed
  then obtain m2 m' where "w = JObj m'" "map_of m' = (map_of m ++ content [(k, v)]) ++ content kvs"
    using Cons.IH Cons.prems by fastforce
  then show ?case using kv content_Cons [OF nk, of v] by (simp only: map_add_assoc) auto
next
  case Nil
  have "content [] = Map.empty" by (auto simp: content_def)
  then show ?case using Nil by (intro exI [of _ m]) simp
qed

lemma distinct_sort_key: "distinct (List.map fst (sort_key fst kvs)) = distinct (List.map fst kvs)"
proof -
  have "mset (List.map fst (sort_key fst kvs)) = mset (List.map fst kvs)" by simp
  then show ?thesis by (rule mset_eq_imp_distinct_iff)
qed

lemma map_of_sort_key: "distinct (List.map fst kvs) \<Longrightarrow> map_of (sort_key fst kvs) = map_of kvs"
  using distinct_sort_key [of kvs] by (subst map_of_inject_set) simp_all

lemma canonical_object:
  assumes "json_value (JObj kvs)"
  obtains m where "normalize (JObj kvs) = Inr (JObj m)" "canonicalJson (JObj kvs) = Inr (Some (stringify (JObj m)))"
    "plain (JObj m)" "map_of m = content kvs"
proof -
  obtain w where w: "normalize (JObj kvs) = Inr w" "plain w" using normalize_plain(1) [OF assms] by blast
  have d: "distinct (List.map fst kvs)" using assms by simp
  then have "distinct (List.map fst (sort_key fst kvs))" by (simp only: distinct_sort_key)
  moreover have "normalize_members (sort_key fst kvs) [] = Inr w" using w(1) by simp
  ultimately obtain m where m: "w = JObj m" "map_of m = content (sort_key fst kvs)"
    using normalize_members_map by fastforce
  have "content (sort_key fst kvs) = content kvs" using map_of_sort_key [OF d] by (intro ext) (simp add: content_def)
  then show thesis using that w m by (simp add: canonicalJson_def)
qed

lemma sort_key_cong:
  assumes "distinct (List.map fst xs)" "distinct (List.map fst ys)" "set xs = set ys"
  shows "sort_key fst xs = sort_key fst (ys :: (string \<times> 'a) list)"
proof -
  have d: "distinct (List.map fst (sort_key fst xs))" "distinct (List.map fst (sort_key fst ys))"
    using assms(1,2) by (simp_all only: distinct_sort_key)
  have "inj_on fst (set xs)" using assms(1) by (simp add: distinct_map)
  then show ?thesis
    by (intro map_sorted_distinct_set_unique [where f = fst] d) (simp_all add: assms(3))
qed

lemma normalize_members_filter:
  "normalize_members (filter (\<lambda>kv. \<not> nullish (snd kv)) kvs) m = normalize_members kvs m"
  by (induction kvs arbitrary: m) (auto split: sum.split)

text \<open>Keys are sorted by code point and then stored in an object, which keeps keys that look like array indices in numeric
  order: two such keys come out in the other order. No key of the contracts looks like an index.\<close>

lemma index_keys_numeric:
  "canonicalJson (JObj [(''9'', JBool True), (''10'', JBool True)])
      = Inr (Some (stringify (JObj [(''9'', JBool True), (''10'', JBool True)])))
   \<and> sort [''9'', ''10''] = [''10'', ''9'']"
  by code_simp

section \<open>Ids apart\<close>

lemma split_at_dash:
  "CHR ''-'' \<notin> set xs \<Longrightarrow> CHR ''-'' \<notin> set ys \<Longrightarrow> xs @ CHR ''-'' # r = ys @ CHR ''-'' # r' \<Longrightarrow> xs = ys \<and> r = r'"
  by (induction xs arbitrary: ys) (case_tac [!] ys, auto)

lemma intent12_dashless: "CHR ''-'' \<notin> set (intent12 i)"
proof -
  have c: "char_of (nat (code c + 32)) \<noteq> CHR ''-''" if "65 \<le> code c" "code c \<le> 90" for c
  proof -
    have "code (char_of (nat (code c + 32))) = int (of_char (char_of (nat (code c + 32))))"
      by (simp only: code_def of_nat_of_char)
    moreover have "nat (code c + 32) mod 256 = nat (code c + 32)" using that by (intro mod_less) linarith
    ultimately have "code (char_of (nat (code c + 32))) = code c + 32" unfolding of_char_of using that by simp
    then have "code (char_of (nat (code c + 32))) \<noteq> code (CHR ''-'')" using that by (simp add: code_def)
    then show ?thesis by metis
  qed
  have "CHR ''-'' \<notin> set (lower (filter (\<lambda>c. c \<noteq> CHR ''-'') i))" using c by (auto simp: lower_def) metis
  then show ?thesis unfolding intent12_def by (meson in_set_takeD)
qed

lemma nat_str_dashless: "0 \<le> n \<Longrightarrow> CHR ''-'' \<notin> set (nat_str n)"
  using nat_str_digits [of n] by (auto simp: list_all_iff is_digit_def code_def)

lemma leg_code_inject: "leg_codes l @ x = leg_codes l' @ y \<longleftrightarrow> l = l' \<and> x = y"
  by (cases l; cases l') auto

lemma leg_code_dashless: "CHR ''-'' \<notin> set (leg_codes l)"
  by (cases l) auto

section \<open>Properties\<close>


definition example_order :: "(string \<times> json) list" where
  "example_order = [(''symbol'', JStr ''BTCUSDT''), (''qty'', JStr ''0.002''), (''leverage'', JNum (Fin 2)), (''reduce_only'', JBool False)]"




text \<open>Client order ids of different legs, leg indices or attempts of an intent differ, ids of intents that differ in
  their first twelve digits differ, and every id the function returns fits the exchange's limit and is recognised as one
  of our own.\<close>

theorem client_order_ids_apart:
  assumes "clientOrderId p = Inr c" "0 \<le> cp_leg_index p" "0 \<le> cp_attempt_no p"
  shows "length c \<le> 36 \<and> classifyOrderOrigin c = Origin_local
    \<and> (\<forall>q. clientOrderId q = Inr c \<longrightarrow> 0 \<le> cp_leg_index q \<longrightarrow> 0 \<le> cp_attempt_no q \<longrightarrow>
        intent12 (cp_intent_id q) = intent12 (cp_intent_id p) \<and> cp_leg q = cp_leg p
        \<and> cp_leg_index q = cp_leg_index p \<and> cp_attempt_no q = cp_attempt_no p)"
proof (intro conjI allI impI)
  have c: "c = cid_prefix @ intent12 (cp_intent_id p) @ ''-'' @ leg_codes (cp_leg p) @ nat_str (cp_leg_index p) @ ''-'' @ nat_str (cp_attempt_no p)"
    using assms by (simp add: clientOrderId_def Let_def int_str_def split: if_splits)
  show "length c \<le> 36" using assms(1) by (auto simp: clientOrderId_def Let_def cid_max_len_def split: if_splits)
  show "classifyOrderOrigin c = Origin_local" unfolding c classifyOrderOrigin_def by simp
  fix q assume q: "clientOrderId q = Inr c" "0 \<le> cp_leg_index q" "0 \<le> cp_attempt_no q"
  have c': "c = cid_prefix @ intent12 (cp_intent_id q) @ ''-'' @ leg_codes (cp_leg q) @ nat_str (cp_leg_index q) @ ''-'' @ nat_str (cp_attempt_no q)"
    using q by (simp add: clientOrderId_def Let_def int_str_def split: if_splits)
  have one: "intent12 (cp_intent_id q) = intent12 (cp_intent_id p)"
    "leg_codes (cp_leg q) @ nat_str (cp_leg_index q) @ ''-'' @ nat_str (cp_attempt_no q)
       = leg_codes (cp_leg p) @ nat_str (cp_leg_index p) @ ''-'' @ nat_str (cp_attempt_no p)"
    using split_at_dash [OF intent12_dashless intent12_dashless] c c' by (auto dest: split_at_dash)
  then have two: "cp_leg q = cp_leg p" "nat_str (cp_leg_index q) @ ''-'' @ nat_str (cp_attempt_no q)
       = nat_str (cp_leg_index p) @ ''-'' @ nat_str (cp_attempt_no p)" by (simp_all add: leg_code_inject)
  then have "nat_str (cp_leg_index q) = nat_str (cp_leg_index p) \<and> nat_str (cp_attempt_no q) = nat_str (cp_attempt_no p)"
    using split_at_dash [OF nat_str_dashless [OF q(2)] nat_str_dashless [OF assms(2)]] by simp
  then show "intent12 (cp_intent_id q) = intent12 (cp_intent_id p)" "cp_leg q = cp_leg p"
    "cp_leg_index q = cp_leg_index p" "cp_attempt_no q = cp_attempt_no p"
    using one two nat_str_inject q assms by simp_all
qed

theorem client_order_ids_apart_witness:
  "classifyOrderOrigin ''tg-0f8fad5bd9cb-t1-2'' = Origin_local"
proof -
  let ?p = "\<lparr>cp_intent_id = ''0f8fad5b-d9cb-469f-a165-70867728950e'', cp_leg = Leg_take_profit, cp_leg_index = 1, cp_attempt_no = 2\<rparr>"
  have "clientOrderId ?p = Inr ''tg-0f8fad5bd9cb-t1-2''" by code_simp
  from client_order_ids_apart [OF this] show ?thesis by simp
qed

end
