(* ===== verification/Rpc.thy ===== *)
theory Rpc imports JsonText begin

text \<open>
  The JSON-RPC frames between the gateway and execd (\<open>rpc.ts\<close>): error codes, the kinds of frame, and the
  newline-delimited codec. A text is its bytes; the model holds ASCII text, where a character is one byte. However
  the bytes of a stream of frames are cut into chunks, the decoder returns the frames sent, in order.
\<close>

section \<open>Error codes\<close>

definition error_kinds :: "(string \<times> int) list" where
  "error_kinds = [(''invalid_params'', -32602), (''internal'', -32603), (''not_found'', 1001), (''forbidden'', 1002),
     (''halted'', 1003), (''stale'', 1004), (''unavailable'', 1005), (''conflict'', 1006), (''expired'', 1007),
     (''invalid_transition'', 1008), (''gate_rejected'', 1009), (''exchange_rejected'', 1010), (''unauthorized'', 1011),
     (''rate_limited'', 1012), (''transport_ambiguous'', 1013)]"

definition retryable_default :: "(string \<times> bool) list" where
  "retryable_default = [(''invalid_params'', False), (''internal'', False), (''not_found'', False), (''forbidden'', False),
     (''halted'', False), (''stale'', True), (''unavailable'', True), (''conflict'', False), (''expired'', False),
     (''invalid_transition'', False), (''gate_rejected'', False), (''exchange_rejected'', False), (''unauthorized'', False),
     (''rate_limited'', True), (''transport_ambiguous'', False)]"

text \<open>None where the code throws, or returns undefined.\<close>

definition errorCodeFor :: "string \<Rightarrow> int option" where
  "errorCodeFor kind = map_of error_kinds kind"

definition kindForCode :: "int \<Rightarrow> string option" where
  "kindForCode c = map_option fst (List.find (\<lambda>(kind, mapped). mapped = c) error_kinds)"

definition retryableDefault :: "string \<Rightarrow> bool option" where
  "retryableDefault kind = map_of retryable_default kind"

lemma error_codes_inverse: "errorCodeFor k = Some c \<Longrightarrow> kindForCode c = Some k"
proof -
  have "list_all (\<lambda>(k, c). kindForCode c = Some k) error_kinds" by code_simp
  then show "errorCodeFor k = Some c \<Longrightarrow> kindForCode c = Some k"
    by (auto simp: errorCodeFor_def list_all_iff dest: map_of_SomeD)
qed

section \<open>Kinds of frames\<close>

fun isPlainObject :: "json \<Rightarrow> bool" where
  "isPlainObject (JObj _) = True"
| "isPlainObject _ = False"

fun has_member :: "json \<Rightarrow> string \<Rightarrow> bool" where
  "has_member (JObj kvs) k = (map_of kvs k \<noteq> None)"
| "has_member _ k = False"

fun is_string :: "json \<Rightarrow> bool" where
  "is_string (JStr _) = True"
| "is_string _ = False"

definition isRpcRequest :: "json \<Rightarrow> bool" where
  "isRpcRequest v = (isPlainObject v \<and> jget v ''jsonrpc'' = JStr ''2.0'' \<and> has_member v ''id'' \<and> is_string (jget v ''method'')
     \<and> jget v ''method'' \<noteq> JStr ''exec.event'' \<and> has_member v ''params'')"

definition isRpcSuccess :: "json \<Rightarrow> bool" where
  "isRpcSuccess v = (isPlainObject v \<and> jget v ''jsonrpc'' = JStr ''2.0'' \<and> has_member v ''id'' \<and> has_member v ''result''
     \<and> \<not> has_member v ''error'' \<and> \<not> has_member v ''method'')"

definition isRpcFailure :: "json \<Rightarrow> bool" where
  "isRpcFailure v = (isPlainObject v \<and> jget v ''jsonrpc'' = JStr ''2.0'' \<and> has_member v ''id'' \<and> has_member v ''error'')"

definition isRpcNotification :: "json \<Rightarrow> bool" where
  "isRpcNotification v = (isPlainObject v \<and> jget v ''jsonrpc'' = JStr ''2.0'' \<and> \<not> has_member v ''id''
     \<and> jget v ''method'' = JStr ''exec.event'' \<and> has_member v ''params'')"

section \<open>The codec\<close>

definition newline :: char where "newline = char_of (10 :: int)"

definition encodeFrame :: "json \<Rightarrow> string" where
  "encodeFrame v = stringify v @ [newline]"

definition DEFAULT_MAX_FRAME_BYTES :: nat where "DEFAULT_MAX_FRAME_BYTES = 4 * 1024 * 1024"

datatype decoder_error = FrameTooLarge nat nat | SyntaxError string

definition line_of :: "string \<Rightarrow> string" where "line_of b = takeWhile (\<lambda>c. c \<noteq> newline) b"

definition after_line :: "string \<Rightarrow> string" where "after_line b = tl (dropWhile (\<lambda>c. c \<noteq> newline) b)"

lemma after_line_shorter: "newline \<in> set b \<Longrightarrow> length (after_line b) < length b"
  unfolding after_line_def by (induction b) auto

function decode_lines :: "nat \<Rightarrow> string \<Rightarrow> json list \<Rightarrow> decoder_error + json list \<times> string" where
  "decode_lines mx b frames = (if newline \<notin> set b then Inr (frames, b)
     else if mx < length (line_of b) then Inl (FrameTooLarge (length (line_of b)) mx)
     else if js_trim (line_of b) \<noteq> [] then
       (case json_parse (line_of b) of None \<Rightarrow> Inl (SyntaxError (line_of b))
        | Some v \<Rightarrow> decode_lines mx (after_line b) (frames @ [v]))
     else decode_lines mx (after_line b) frames)"
  by auto
termination by (relation "measure (\<lambda>(mx, b, frames). length b)") (auto simp: after_line_shorter)

declare decode_lines.simps [simp del]

text \<open>One \<open>push\<close>: the frames it returns or what it throws, and the bytes it keeps. When it throws on a line the chunk
  stays in the buffer.\<close>

definition push :: "nat \<Rightarrow> string \<Rightarrow> string \<Rightarrow> (decoder_error + json list) \<times> string" where
  "push mx buffer chunk = (case decode_lines mx (buffer @ chunk) [] of
     Inl e \<Rightarrow> (Inl e, buffer @ chunk)
   | Inr (frames, rest) \<Rightarrow> if mx < length rest then (Inl (FrameTooLarge (length rest) mx), rest) else (Inr frames, rest))"

section \<open>Chunks do not matter\<close>

fun feed :: "nat \<Rightarrow> string \<Rightarrow> string list \<Rightarrow> decoder_error + json list \<times> string" where
  "feed mx b [] = Inr ([], b)"
| "feed mx b (c # cs) = (case push mx b c of
     (Inl e, _) \<Rightarrow> Inl e
   | (Inr fs, b') \<Rightarrow> (case feed mx b' cs of Inl e \<Rightarrow> Inl e | Inr (gs, b'') \<Rightarrow> Inr (fs @ gs, b'')))"

lemma line_frame: "newline \<notin> set l \<Longrightarrow> line_of (l @ newline # r) = l \<and> after_line (l @ newline # r) = r"
  unfolding line_of_def after_line_def by (induction l) auto

text \<open>\<open>frame_line mx v l\<close>: a line of the stream that the decoder reads as \<open>v\<close>.\<close>

definition frame_line :: "nat \<Rightarrow> json \<Rightarrow> string \<Rightarrow> bool" where
  "frame_line mx v l = (newline \<notin> set l \<and> length l \<le> mx \<and> js_trim l \<noteq> [] \<and> json_parse l = Some v)"

lemma decode_frame: "frame_line mx v l \<Longrightarrow> decode_lines mx (l @ newline # r) fs = decode_lines mx r (fs @ [v])"
  using line_frame [of l r] by (subst decode_lines.simps) (simp add: frame_line_def)

lemma decode_frames:
  "list_all2 (frame_line mx) vs ls \<Longrightarrow> newline \<notin> set r \<Longrightarrow>
    decode_lines mx (concat (List.map (\<lambda>l. l @ [newline]) ls) @ r) fs = Inr (fs @ vs, r)"
proof (induction vs ls arbitrary: fs rule: list_all2_induct)
  case Nil
  then show ?case by (simp add: decode_lines.simps)
next
  case (Cons v l vs ls)
  then show ?case by (simp add: decode_frame)
qed

text \<open>A prefix of the stream is some whole lines and a part of the next.\<close>

lemma stream_prefix:
  assumes "b @ c = concat (List.map (\<lambda>l. l @ [newline]) ls)" "\<forall>l\<in>set ls. newline \<notin> set l"
  obtains k r where "k \<le> length ls" "b = concat (List.map (\<lambda>l. l @ [newline]) (take k ls)) @ r" "newline \<notin> set r"
    "r = [] \<or> (k < length ls \<and> length r \<le> length (ls ! k))"
    "r @ c = concat (List.map (\<lambda>l. l @ [newline]) (drop k ls))"
  using assms
proof (induction ls arbitrary: b thesis)
  case Nil
  then show ?case by simp
next
  case (Cons l ls)
  show ?case
  proof (cases "length b \<le> length l")
    case True
    have "b = take (length b) (b @ c)" by simp
    also have "\<dots> = take (length b) l" unfolding Cons.prems(2) using True by simp
    finally have "b = take (length b) l" .
    then have "newline \<notin> set b" using Cons.prems(3) by (metis in_set_takeD list.set_intros(1))
    then show ?thesis using Cons.prems(1) [of 0 b] Cons.prems(2) True by simp
  next
    case False
    have "b = take (length b) (b @ c)" by simp
    also have "\<dots> = (l @ [newline]) @ take (length b - Suc (length l)) (concat (List.map (\<lambda>l. l @ [newline]) ls))"
      unfolding Cons.prems(2) using False by (simp add: take_Cons')
    finally obtain b' where b: "b = (l @ [newline]) @ b'" by blast
    then have "b' @ c = concat (List.map (\<lambda>l. l @ [newline]) ls)" using Cons.prems(2) by simp
    then obtain k r where "k \<le> length ls" "b' = concat (List.map (\<lambda>l. l @ [newline]) (take k ls)) @ r" "newline \<notin> set r"
      "r = [] \<or> (k < length ls \<and> length r \<le> length (ls ! k))" "r @ c = concat (List.map (\<lambda>l. l @ [newline]) (drop k ls))"
      using Cons.IH Cons.prems(3) by (metis list.set_intros(2))
    then show ?thesis using Cons.prems(1) [of "Suc k" r] b by simp
  qed
qed

lemma feed_lines:
  assumes "list_all2 (frame_line mx) vs ls" "b @ concat cs = concat (List.map (\<lambda>l. l @ [newline]) ls)" "newline \<notin> set b"
  shows "feed mx b cs = Inr (vs, [])"
  using assms
proof (induction cs arbitrary: b vs ls)
  case Nil
  have "vs = [] \<and> ls = []"
  proof (cases ls)
    case (Cons l ls')
    then have "newline \<in> set b" using Nil.prems(2) by (metis append_Nil2 concat.simps list.simps(9) set_append UnCI list.set_intros(1))
    then show ?thesis using Nil.prems(3) by simp
  qed (use Nil.prems(1) in simp)
  then show ?case using Nil.prems(2) by simp
next
  case (Cons c cs)
  have nl: "\<forall>l\<in>set ls. newline \<notin> set l \<and> length l \<le> mx"
    using Cons.prems(1) by (auto simp: list_all2_conv_all_nth in_set_conv_nth frame_line_def)
  obtain k r where k: "k \<le> length ls" "b @ c = concat (List.map (\<lambda>l. l @ [newline]) (take k ls)) @ r" "newline \<notin> set r"
    "r = [] \<or> (k < length ls \<and> length r \<le> length (ls ! k))" "r @ concat cs = concat (List.map (\<lambda>l. l @ [newline]) (drop k ls))"
    using stream_prefix [of "b @ c" "concat cs" ls] Cons.prems(2) nl by (metis append_assoc concat.simps(2))
  have v: "list_all2 (frame_line mx) (take k vs) (take k ls)" "list_all2 (frame_line mx) (drop k vs) (drop k ls)"
    using Cons.prems(1) by (simp_all add: list_all2_takeI list_all2_dropI)
  have "length r \<le> mx" using k(4) nl by (metis le_trans list.size(3) nth_mem zero_le)
  then have "push mx b c = (Inr (take k vs), r)"
    using decode_frames [OF v(1) k(3), of "[]"] k(2) by (simp add: push_def)
  moreover have "feed mx r cs = Inr (drop k vs, [])" by (rule Cons.IH [OF v(2) k(5,3)])
  ultimately show ?case by simp
qed

section \<open>Frames as printed\<close>

lemma printed_chars: "plain v \<Longrightarrow> c \<in> set (stringify v) \<Longrightarrow> 32 \<le> code c"
proof (induction v)
  case (JNum n)
  from JNum.prems(1) have "safe_num n" by simp
  then obtain m where "n = Fin (of_int m)" "\<bar>m\<bar> < 2 ^ 53" by (rule safe_numE)
  then have "c \<in> set (int_str m)" using JNum.prems(2) num_str_int by simp
  then have "is_digit c \<or> c = CHR ''-''"
    using nat_str_digits [of "\<bar>m\<bar>"] by (auto simp: int_str_def list_all_iff split: if_splits)
  then show ?case by (auto simp: is_digit_def code_def)
next
  case (JStr s)
  then show ?case using quote_chars by simp
next
  case (JArr xs)
  have "c \<in> {CHR ''['', CHR '']'', CHR '',''} \<or> (\<exists>x\<in>set xs. c \<in> set (stringify x))"
    using JArr.prems(2) by (auto dest!: join_str_chars)
  then show ?case using JArr.IH JArr.prems(1) by (auto simp: list_all_iff code_def)
next
  case (JObj kvs)
  have "c \<in> {CHR ''{'', CHR ''}'', CHR '','', CHR '':''} \<or> (\<exists>(k, v)\<in>set kvs. c \<in> set (quote k) \<or> c \<in> set (stringify v))"
    using JObj.prems(2) by (force dest!: join_str_chars)
  then show ?case using JObj.IH JObj.prems(1) quote_chars by (fastforce simp: list_all_iff code_def)
qed (auto simp: code_def split: if_splits)

lemma printed_frame: "plain v \<Longrightarrow> length (stringify v) \<le> mx \<Longrightarrow> frame_line mx v (stringify v)"
proof -
  assume v: "plain v" "length (stringify v) \<le> mx"
  have "newline \<notin> set (stringify v)"
  proof
    assume "newline \<in> set (stringify v)"
    then have "32 \<le> code newline" by (rule printed_chars [OF v(1)])
    then show False by (simp add: newline_def code_def)
  qed
  moreover have "js_trim (stringify v) \<noteq> []"
  proof -
    have h: "stringify v \<noteq> []" "\<not> is_space (hd (stringify v))" using stringify_first [OF v(1)] by blast+
    then have "dropWhile is_space (stringify v) = stringify v" by (cases "stringify v") simp_all
    then show ?thesis using h by (auto simp: js_trim_def dropWhile_eq_Nil_conv)
  qed
  ultimately show ?thesis using v json_roundtrip by (simp add: frame_line_def)
qed

text \<open>C28 Whatever is sent arrives: for every list of frames the encoder writes, however the bytes of the stream are cut into
  chunks, the decoder returns exactly these frames in this order, keeps no bytes and throws nothing, as long as no frame
  is longer than the limit.\<close>

theorem frames_roundtrip:
  assumes "\<forall>v\<in>set vs. plain v \<and> length (stringify v) \<le> mx" "concat chunks = concat (List.map encodeFrame vs)"
  shows "feed mx [] chunks = Inr (vs, [])"
proof (rule feed_lines)
  show "list_all2 (frame_line mx) vs (List.map stringify vs)"
    using assms(1) by (simp add: list_all2_conv_all_nth printed_frame)
  show "[] @ concat chunks = concat (List.map (\<lambda>l. l @ [newline]) (List.map stringify vs))"
    using assms(2) by (simp add: comp_def flip: encodeFrame_def)
qed simp

definition example_frames :: "json list" where
  "example_frames = [JObj [(''id'', JStr ''1''), (''ok'', JBool True)], JArr [JNum (Fin (- 7)), JNull]]"

theorem frames_roundtrip_witness:
  "feed 100 [] [take 5 (concat (List.map encodeFrame example_frames)), drop 5 (concat (List.map encodeFrame example_frames))]
    = Inr (example_frames, [])"
proof (rule frames_roundtrip)
  show "\<forall>v\<in>set example_frames. plain v \<and> length (stringify v) \<le> 100" by code_simp
qed simp

end
