(* ===== verification/ExecClient.thy ===== *)
theory ExecClient imports Rpc "HOL-Library.Multiset" begin

text \<open>
  The gateway's client of execd (\<open>exec-client.ts\<close>): request ids and pending calls, the write queue, the one event
  subscription, reconnection with exponential backoff. The socket, the timers and the callers are the environment:
  their events are the input of a step, and what the client does to them is the list of effects of the step. A
  pending call has a running timer exactly as long as it is pending; a frame written to a writable socket is sent.
\<close>

section \<open>State\<close>

record client_options =
  co_default_timeout :: int
  co_snapshot_timeout :: int
  co_min_delay :: int
  co_max_delay :: int
  co_max_frame :: nat

record pending_request =
  pq_method :: string
  pq_timeout :: int

record active_subscription =
  as_handle :: nat
  as_last :: jsnum
  as_duplicates :: nat
  as_out_of_order :: nat

text \<open>The socket is None, or there with its writable flag; \<open>xc_handles\<close> numbers the subscription objects.\<close>

record exec_client =
  xc_socket :: "bool option"
  xc_ready :: bool
  xc_buffer :: string
  xc_next_id :: int
  xc_pending :: "(string \<times> pending_request) list"
  xc_queue :: "json list"
  xc_sub :: "active_subscription option"
  xc_handles :: nat
  xc_closed :: bool
  xc_delay :: int
  xc_timer :: bool

datatype reject_reason = ExecTimeout string string int | ExecRpcError json json json json json | Client_closed

datatype client_effect = Sent json | Resolved string json | Rejected string reject_reason | Delivered json
  | Connecting | Reconnect_in int | Destroyed | Call_refused | Subscribe_refused | Uncaught "string option"

section \<open>Calls\<close>

definition timeoutFor :: "client_options \<Rightarrow> string \<Rightarrow> int" where
  "timeoutFor opt m = (if m = ''exec.account.snapshot'' then co_snapshot_timeout opt else co_default_timeout opt)"

definition send :: "json \<Rightarrow> exec_client \<Rightarrow> exec_client \<times> client_effect list" where
  "send frame c = (if xc_socket c = Some True then (c, [Sent frame]) else (c\<lparr>xc_queue := xc_queue c @ [frame]\<rparr>, []))"

definition request_frame :: "string \<Rightarrow> string \<Rightarrow> json \<Rightarrow> json" where
  "request_frame rid m params = JObj [(''jsonrpc'', JStr ''2.0''), (''id'', JStr rid), (''method'', JStr m), (''params'', params)]"

definition call :: "client_options \<Rightarrow> string \<Rightarrow> json \<Rightarrow> int option \<Rightarrow> exec_client \<Rightarrow> exec_client \<times> client_effect list" where
  "call opt m params tmo c = (if xc_closed c then (c, [Call_refused])
     else let ms = (case tmo of Some t \<Rightarrow> t | None \<Rightarrow> timeoutFor opt m); rid = nat_str (xc_next_id c)
       in send (request_frame rid m params) (c\<lparr>xc_next_id := xc_next_id c + 1,
            xc_pending := map_set (xc_pending c) rid \<lparr>pq_method = m, pq_timeout = ms\<rparr>\<rparr>))"

definition on_timeout :: "string \<Rightarrow> exec_client \<Rightarrow> exec_client \<times> client_effect list" where
  "on_timeout rid c = (case map_of (xc_pending c) rid of None \<Rightarrow> (c, [])
     | Some p \<Rightarrow> (c\<lparr>xc_pending := map_delete (xc_pending c) rid\<rparr>, [Rejected rid (ExecTimeout (pq_method p) rid (pq_timeout p))]))"

section \<open>Subscription\<close>

definition requestSubscribe :: "client_options \<Rightarrow> jsnum \<Rightarrow> exec_client \<Rightarrow> exec_client \<times> client_effect list" where
  "requestSubscribe opt since c = call opt ''exec.events.subscribe'' (JObj [(''since_seq'', JNum since)]) None c"

definition subscribe :: "client_options \<Rightarrow> jsnum \<Rightarrow> exec_client \<Rightarrow> exec_client \<times> client_effect list" where
  "subscribe opt since c = (if xc_sub c \<noteq> None then (c, [Subscribe_refused])
     else requestSubscribe opt since (c\<lparr>xc_handles := xc_handles c + 1,
       xc_sub := Some \<lparr>as_handle = xc_handles c, as_last = since, as_duplicates = 0, as_out_of_order = 0\<rparr>\<rparr>))"

definition unsubscribe :: "nat \<Rightarrow> exec_client \<Rightarrow> exec_client" where
  "unsubscribe h c = (case xc_sub c of None \<Rightarrow> c | Some s \<Rightarrow> if as_handle s = h then c\<lparr>xc_sub := None\<rparr> else c)"

text \<open>An event must carry the next sequence number; reading a member of null throws.\<close>

definition handleEvent :: "json \<Rightarrow> exec_client \<Rightarrow> exec_client \<times> client_effect list" where
  "handleEvent event c = (case xc_sub c of None \<Rightarrow> (c, [])
     | Some s \<Rightarrow> if nullish event then (c, [Uncaught None])
       else let seq = jget event ''seq'' in
         if json_num seq \<le> as_last s then (c\<lparr>xc_sub := Some (s\<lparr>as_duplicates := as_duplicates s + 1\<rparr>)\<rparr>, [])
         else if (case seq of JNum n \<Rightarrow> \<not> js_eq n (as_last s + Fin 1) | _ \<Rightarrow> True)
           then (c\<lparr>xc_sub := Some (s\<lparr>as_out_of_order := as_out_of_order s + 1\<rparr>)\<rparr>, [])
         else (c\<lparr>xc_sub := Some (s\<lparr>as_last := json_num seq\<rparr>)\<rparr>, [Delivered event]))"

section \<open>Frames\<close>

text \<open>Answers to unknown ids are dropped. An error frame without its \<open>error.data\<close> throws after the call was taken off
  the pending map.\<close>

definition handleFrame :: "json \<Rightarrow> exec_client \<Rightarrow> exec_client \<times> client_effect list" where
  "handleFrame frame c = (
     if isRpcSuccess frame \<or> isRpcFailure frame then
       (if jget frame ''id'' = JNull then (c, [])
        else let rid = json_str (jget frame ''id'') in
          case map_of (xc_pending c) rid of None \<Rightarrow> (c, [])
          | Some p \<Rightarrow> let c1 = c\<lparr>xc_pending := map_delete (xc_pending c) rid\<rparr> in
              if isRpcFailure frame then
                (let e = jget frame ''error''; d = jget e ''data'' in
                 if nullish e \<or> nullish d then (c1, [Uncaught (Some rid)])
                 else (c1, [Rejected rid (ExecRpcError (jget e ''code'') (jget d ''kind'') (jget d ''retryable'')
                   (jget e ''message'') (jget d ''details''))]))
              else (c1, [Resolved rid (jget frame ''result'')]))
     else if isRpcNotification frame then handleEvent (jget frame ''params'') c
     else (c, []))"

fun throws :: "client_effect list \<Rightarrow> bool" where
  "throws [] = False"
| "throws (Uncaught _ # es) = True"
| "throws (_ # es) = throws es"

fun handle_frames :: "json list \<Rightarrow> exec_client \<Rightarrow> exec_client \<times> client_effect list" where
  "handle_frames [] c = (c, [])"
| "handle_frames (f # fs) c = (let (c1, es) = handleFrame f c in
     if throws es then (c1, es) else let (c2, es2) = handle_frames fs c1 in (c2, es @ es2))"

section \<open>Connection\<close>

definition connect :: "exec_client \<Rightarrow> exec_client \<times> client_effect list" where
  "connect c = (if xc_closed c then (c, []) else (c\<lparr>xc_socket := Some True\<rparr>, [Connecting]))"

definition on_connect :: "client_options \<Rightarrow> exec_client \<Rightarrow> exec_client \<times> client_effect list" where
  "on_connect opt c = (
     let c1 = c\<lparr>xc_ready := True, xc_delay := co_min_delay opt, xc_queue := []\<rparr>; flushed = List.map Sent (xc_queue c) in
     case xc_sub c1 of None \<Rightarrow> (c1, flushed)
     | Some s \<Rightarrow> let (c2, es) = requestSubscribe opt (as_last s) c1 in (c2, flushed @ es))"

definition on_data :: "client_options \<Rightarrow> string \<Rightarrow> exec_client \<Rightarrow> exec_client \<times> client_effect list" where
  "on_data opt chunk c = (case push (co_max_frame opt) (xc_buffer c) chunk of
     (Inl _, b) \<Rightarrow> (c\<lparr>xc_buffer := b, xc_socket := map_option (\<lambda>_. False) (xc_socket c)\<rparr>, [Destroyed])
   | (Inr frames, b) \<Rightarrow> handle_frames frames (c\<lparr>xc_buffer := b\<rparr>))"

definition scheduleReconnect :: "client_options \<Rightarrow> exec_client \<Rightarrow> exec_client \<times> client_effect list" where
  "scheduleReconnect opt c = (if xc_timer c then (c, [])
     else (c\<lparr>xc_delay := min (xc_delay c * 2) (co_max_delay opt), xc_timer := True\<rparr>, [Reconnect_in (xc_delay c)]))"

definition on_close :: "client_options \<Rightarrow> exec_client \<Rightarrow> exec_client \<times> client_effect list" where
  "on_close opt c = (let c1 = c\<lparr>xc_socket := None, xc_ready := False, xc_buffer := []\<rparr> in
     if xc_closed c1 then (c1, []) else scheduleReconnect opt c1)"

definition on_reconnect_timer :: "exec_client \<Rightarrow> exec_client \<times> client_effect list" where
  "on_reconnect_timer c = (if xc_timer c then connect (c\<lparr>xc_timer := False\<rparr>) else (c, []))"

definition close :: "exec_client \<Rightarrow> exec_client \<times> client_effect list" where
  "close c = (c\<lparr>xc_closed := True, xc_timer := False, xc_pending := [], xc_queue := [], xc_sub := None, xc_socket := None,
       xc_ready := False\<rparr>,
     List.map (\<lambda>(rid, p). Rejected rid Client_closed) (xc_pending c) @ (if xc_socket c = None then [] else [Destroyed]))"

definition new_client :: "client_options \<Rightarrow> exec_client" where
  "new_client opt = fst (connect \<lparr>xc_socket = None, xc_ready = False, xc_buffer = [], xc_next_id = 1, xc_pending = [],
     xc_queue = [], xc_sub = None, xc_handles = 0, xc_closed = False, xc_delay = co_min_delay opt, xc_timer = False\<rparr>)"

section \<open>Runs\<close>

datatype client_event = Ev_call string json "int option" | Ev_timeout string | Ev_subscribe jsnum | Ev_unsubscribe nat
  | Ev_close | Ev_connected | Ev_data string | Ev_socket_close | Ev_timer | Ev_unwritable

text \<open>A socket event needs a socket; the end of a destroyed socket may still come after \<open>close\<close>.\<close>

fun client_step :: "client_options \<Rightarrow> exec_client \<Rightarrow> client_event \<Rightarrow> exec_client \<times> client_effect list" where
  "client_step opt c (Ev_call m params tmo) = call opt m params tmo c"
| "client_step opt c (Ev_timeout rid) = on_timeout rid c"
| "client_step opt c (Ev_subscribe since) = subscribe opt since c"
| "client_step opt c (Ev_unsubscribe h) = (unsubscribe h c, [])"
| "client_step opt c Ev_close = close c"
| "client_step opt c Ev_connected = (if xc_socket c = None \<or> xc_ready c then (c, []) else on_connect opt c)"
| "client_step opt c (Ev_data chunk) = (if xc_socket c = None then (c, []) else on_data opt chunk c)"
| "client_step opt c Ev_socket_close = on_close opt c"
| "client_step opt c Ev_timer = on_reconnect_timer c"
| "client_step opt c Ev_unwritable = (c\<lparr>xc_socket := map_option (\<lambda>_. False) (xc_socket c)\<rparr>, [])"

fun client_run :: "client_options \<Rightarrow> exec_client \<Rightarrow> client_event list \<Rightarrow> exec_client \<times> client_effect list" where
  "client_run opt c [] = (c, [])"
| "client_run opt c (e # es) = (let (c1, fx) = client_step opt c e; (c2, gx) = client_run opt c1 es in (c2, fx @ gx))"

section \<open>Every call ends once\<close>

text \<open>The ids a list of effects takes off the pending map: answered, rejected, or lost to an exception.\<close>

definition ended :: "client_effect list \<Rightarrow> string list" where
  "ended fx = concat (List.map (\<lambda>x. case x of Resolved r _ \<Rightarrow> [r] | Rejected r _ \<Rightarrow> [r] | Uncaught (Some r) \<Rightarrow> [r] | _ \<Rightarrow> []) fx)"

lemma ended_simps [simp]: "ended [] = []" "ended (fx @ gx) = ended fx @ ended gx"
  "ended (Sent v # fx) = ended fx" "ended (Resolved r v # fx) = r # ended fx" "ended (Rejected r w # fx) = r # ended fx"
  "ended (Delivered v # fx) = ended fx" "ended (Connecting # fx) = ended fx" "ended (Reconnect_in d # fx) = ended fx"
  "ended (Destroyed # fx) = ended fx" "ended (Call_refused # fx) = ended fx" "ended (Subscribe_refused # fx) = ended fx"
  "ended (Uncaught u # fx) = (case u of Some r \<Rightarrow> [r] | None \<Rightarrow> []) @ ended fx" "ended (List.map Sent vs) = []"
  by (simp_all add: ended_def comp_def split: option.split)

definition wf_client :: "exec_client \<Rightarrow> bool" where
  "wf_client c = (1 \<le> xc_next_id c \<and> distinct (List.map fst (xc_pending c))
     \<and> fst ` set (xc_pending c) \<subseteq> nat_str ` {1..<xc_next_id c})"

definition ids_from :: "int \<Rightarrow> int \<Rightarrow> string multiset" where
  "ids_from a b = image_mset nat_str (mset [a..b - 1])"

text \<open>\<open>accounts c fx c'\<close>: from \<open>c\<close> to \<open>c'\<close> with the effects \<open>fx\<close>, the ids pending before and those issued are the ids ended
  and those pending after.\<close>

definition accounts :: "exec_client \<Rightarrow> client_effect list \<Rightarrow> exec_client \<Rightarrow> bool" where
  "accounts c fx c' = (wf_client c \<longrightarrow> wf_client c' \<and> xc_next_id c \<le> xc_next_id c'
     \<and> mset (List.map fst (xc_pending c)) + ids_from (xc_next_id c) (xc_next_id c')
       = mset (ended fx) + mset (List.map fst (xc_pending c')))"

lemma ids_from_empty [simp]: "ids_from a a = {#}"
  by (simp add: ids_from_def)

lemma ids_from_split: "a \<le> b \<Longrightarrow> b \<le> c \<Longrightarrow> ids_from a c = ids_from a b + ids_from b c"
  by (cases "b = c") (simp_all add: ids_from_def upto_split1 [of a b "c - 1"])

lemma ids_from_Suc: "ids_from a (a + 1) = {#nat_str a#}"
  by (simp add: ids_from_def)

lemma accounts_trans:
  assumes "accounts a fx b" "accounts b gx c"
  shows "accounts a (fx @ gx) c"
proof -
  have "ids_from (xc_next_id a) (xc_next_id c) = ids_from (xc_next_id a) (xc_next_id b) + ids_from (xc_next_id b) (xc_next_id c)"
    if "wf_client a" using assms that by (intro ids_from_split) (auto simp: accounts_def)
  then show ?thesis using assms by (auto simp: accounts_def algebra_simps) (metis (no_types) add.assoc add.left_commute)
qed

lemma accounts_same:
  "xc_pending c' = xc_pending c \<Longrightarrow> xc_next_id c' = xc_next_id c \<Longrightarrow> ended fx = [] \<Longrightarrow> accounts c fx c'"
  by (simp add: accounts_def wf_client_def)

lemma mset_map_delete:
  "distinct (List.map fst m) \<Longrightarrow> k \<in> fst ` set m \<Longrightarrow> mset (List.map fst m) = {#k#} + mset (List.map fst (map_delete m k))"
proof (induction m)
  case (Cons x m)
  show ?case
  proof (cases "fst x = k")
    case True
    then have "k \<notin> fst ` set m" using Cons.prems(1) by auto
    then have "map_delete m k = m" by (force simp: map_delete_def filter_id_conv)
    then show ?thesis using True by (cases x) (simp add: map_delete_def)
  qed (use Cons in \<open>cases x; auto simp: map_delete_def\<close>)
qed simp

lemma accounts_delete:
  assumes "map_of (xc_pending c) rid = Some p" "ended fx = [rid]"
  shows "accounts c fx (c\<lparr>xc_pending := map_delete (xc_pending c) rid\<rparr>)"
proof -
  have k: "rid \<in> fst ` set (xc_pending c)" using assms(1) by (metis map_of_eq_None_iff option.distinct(1))
  then show ?thesis using mset_map_delete [of "xc_pending c" rid] assms(2)
    by (auto simp: accounts_def wf_client_def distinct_map_delete)
qed

lemma accounts_send: "accounts c (snd (send frame c)) (fst (send frame c))"
  by (rule accounts_same) (simp_all add: send_def)

lemma accounts_call: "accounts c (snd (call opt m params tmo c)) (fst (call opt m params tmo c))"
proof (cases "xc_closed c")
  case False
  let ?p = "\<lparr>pq_method = m, pq_timeout = (case tmo of Some t \<Rightarrow> t | None \<Rightarrow> timeoutFor opt m)\<rparr>"
  let ?c = "c\<lparr>xc_next_id := xc_next_id c + 1, xc_pending := map_set (xc_pending c) (nat_str (xc_next_id c)) ?p\<rparr>"
  have "wf_client ?c \<and> mset (List.map fst (xc_pending ?c)) = mset (List.map fst (xc_pending c)) + {#nat_str (xc_next_id c)#}"
    if wf: "wf_client c"
  proof -
    have n: "1 \<le> xc_next_id c" using wf by (simp add: wf_client_def)
    have "nat_str (xc_next_id c) \<notin> nat_str ` {1..<xc_next_id c}"
    proof
      assume "nat_str (xc_next_id c) \<in> nat_str ` {1..<xc_next_id c}"
      then obtain i where "1 \<le> i" "i < xc_next_id c" "nat_str (xc_next_id c) = nat_str i" by auto
      then show False using nat_str_inject [of "xc_next_id c" i] n by simp
    qed
    then have fresh: "nat_str (xc_next_id c) \<notin> fst ` set (xc_pending c)" using wf by (auto simp: wf_client_def)
    have "{1..<xc_next_id c + 1} = insert (xc_next_id c) {1..<xc_next_id c}" using n by auto
    then show ?thesis using wf fresh by (auto simp: wf_client_def map_set_append)
  qed
  then have "accounts c [] ?c" by (simp add: accounts_def ids_from_Suc)
  from accounts_trans [OF this accounts_send] show ?thesis using False by (simp add: call_def Let_def)
qed (simp add: call_def accounts_same)

lemma handleFrame_answer:
  assumes "isRpcSuccess f \<or> isRpcFailure f"
  shows "handleFrame f c = (c, []) \<or> (\<exists>p x. map_of (xc_pending c) (json_str (jget f ''id'')) = Some p
    \<and> handleFrame f c = (c\<lparr>xc_pending := map_delete (xc_pending c) (json_str (jget f ''id''))\<rparr>, [x])
    \<and> ended [x] = [json_str (jget f ''id'')])"
proof (cases "jget f ''id'' = JNull \<or> map_of (xc_pending c) (json_str (jget f ''id'')) = None")
  case True
  then show ?thesis using assms unfolding handleFrame_def Let_def by (elim disjE) simp_all
next
  case False
  then obtain p where p: "map_of (xc_pending c) (json_str (jget f ''id'')) = Some p" "jget f ''id'' \<noteq> JNull" by blast
  show ?thesis unfolding handleFrame_def Let_def
    by (simp only: p assms if_True if_False option.case) (simp add: p)
qed

lemma accounts_handleFrame: "accounts c (snd (handleFrame f c)) (fst (handleFrame f c))"
proof (cases "isRpcSuccess f \<or> isRpcFailure f")
  case True
  from handleFrame_answer [OF this, of c] show ?thesis
    by (elim disjE exE conjE) (simp_all only: fst_conv snd_conv accounts_delete accounts_same [OF refl refl ended_simps(1)])
next
  case False
  then show ?thesis
    by (auto simp: handleFrame_def handleEvent_def Let_def split: option.split intro!: accounts_same)
qed

lemma accounts_handle_frames: "accounts c (snd (handle_frames fs c)) (fst (handle_frames fs c))"
proof (induction fs arbitrary: c)
  case (Cons f fs)
  then show ?case using accounts_trans [OF accounts_handleFrame Cons.IH] accounts_handleFrame
    by (simp add: Let_def case_prod_beta)
qed (simp add: accounts_same)

lemma accounts_pre: "xc_pending c' = xc_pending c \<Longrightarrow> xc_next_id c' = xc_next_id c \<Longrightarrow> accounts c' fx d \<Longrightarrow> accounts c fx d"
  using accounts_trans [OF accounts_same [of c' c "[]"], of fx d] by simp

lemma accounts_step: "accounts c (snd (client_step opt c e)) (fst (client_step opt c e))"
proof (cases e)
  case (Ev_timeout rid)
  then show ?thesis by (auto simp: on_timeout_def split: option.split intro!: accounts_delete accounts_same)
next
  case (Ev_subscribe since)
  then show ?thesis
    by (auto simp: subscribe_def requestSubscribe_def intro!: accounts_same accounts_pre [OF _ _ accounts_call])
next
  case Ev_connected
  let ?c = "c\<lparr>xc_ready := True, xc_delay := co_min_delay opt, xc_queue := []\<rparr>"
  have "accounts c (List.map Sent (xc_queue c)) ?c" by (rule accounts_same) simp_all
  from accounts_trans [OF this accounts_call] this show ?thesis using Ev_connected
    by (auto simp: on_connect_def requestSubscribe_def Let_def case_prod_beta accounts_same split: option.split)
next
  case (Ev_data chunk)
  then show ?thesis
    by (auto simp: on_data_def split: prod.split sum.split intro!: accounts_same accounts_pre [OF _ _ accounts_handle_frames])
next
  case Ev_close
  have "ended (List.map (\<lambda>(rid, p). Rejected rid Client_closed) ps) = List.map fst ps" for ps :: "(string \<times> pending_request) list"
    by (induction ps) auto
  then show ?thesis using Ev_close by (auto simp: close_def accounts_def wf_client_def)
qed (auto simp: accounts_call unsubscribe_def on_close_def scheduleReconnect_def on_reconnect_timer_def connect_def Let_def
    split: option.split intro!: accounts_same)

lemma accounts_run: "accounts c (snd (client_run opt c es)) (fst (client_run opt c es))"
proof (induction es arbitrary: c)
  case (Cons e es)
  show ?case using accounts_trans [OF accounts_step Cons.IH] by (simp add: Let_def case_prod_beta)
qed (simp add: accounts_same)

section \<open>Events in sequence\<close>

definition seqs :: "client_effect list \<Rightarrow> jsnum list" where
  "seqs fx = concat (List.map (\<lambda>x. case x of Delivered v \<Rightarrow> [json_num (jget v ''seq'')] | _ \<Rightarrow> []) fx)"

lemma seqs_simps [simp]: "seqs [] = []" "seqs (fx @ gx) = seqs fx @ seqs gx" "seqs (Sent v # fx) = seqs fx"
  "seqs (Resolved r v # fx) = seqs fx" "seqs (Rejected r w # fx) = seqs fx"
  "seqs (Delivered v # fx) = json_num (jget v ''seq'') # seqs fx" "seqs (Connecting # fx) = seqs fx"
  "seqs (Reconnect_in d # fx) = seqs fx" "seqs (Destroyed # fx) = seqs fx" "seqs (Call_refused # fx) = seqs fx"
  "seqs (Subscribe_refused # fx) = seqs fx" "seqs (Uncaught u # fx) = seqs fx" "seqs (List.map Sent vs) = []"
  by (simp_all add: seqs_def comp_def)

text \<open>\<open>chain a ds b\<close>: the numbers \<open>ds\<close> follow \<open>a\<close> one by one, each greater than the one before, and end in \<open>b\<close>.\<close>

fun chain :: "jsnum \<Rightarrow> jsnum list \<Rightarrow> jsnum \<Rightarrow> bool" where
  "chain a [] b = (a = b)"
| "chain a (d # ds) b = (d = a + Fin 1 \<and> \<not> d \<le> a \<and> chain d ds b)"

lemma chain_append: "chain a ds b \<Longrightarrow> chain b es c \<Longrightarrow> chain a (ds @ es) c"
  by (induction ds arbitrary: a) auto

definition tracks :: "exec_client \<Rightarrow> client_effect list \<Rightarrow> exec_client \<Rightarrow> bool" where
  "tracks c fx c' = (case xc_sub c of None \<Rightarrow> True
     | Some s \<Rightarrow> (case xc_sub c' of None \<Rightarrow> False | Some s' \<Rightarrow> as_handle s' = as_handle s \<and> chain (as_last s) (seqs fx) (as_last s')))"

lemma tracks_trans: "tracks a fx b \<Longrightarrow> tracks b gx c \<Longrightarrow> tracks a (fx @ gx) c"
  by (auto simp: tracks_def intro: chain_append split: option.splits)

lemma tracks_same: "xc_sub c' = xc_sub c \<Longrightarrow> seqs fx = [] \<Longrightarrow> tracks c fx c'"
  by (simp add: tracks_def split: option.split)

lemma tracks_call: "tracks c (snd (call opt m params tmo c)) (fst (call opt m params tmo c))"
  by (rule tracks_same) (simp_all add: call_def send_def Let_def)

lemma tracks_handleEvent: "tracks c (snd (handleEvent v c)) (fst (handleEvent v c))"
  by (cases "jget v ''seq''")
    (auto simp: handleEvent_def tracks_def Let_def js_eq_def split: option.splits)

lemma tracks_handleFrame: "tracks c (snd (handleFrame f c)) (fst (handleFrame f c))"
proof (cases "isRpcSuccess f \<or> isRpcFailure f")
  case True
  then have "xc_sub (fst (handleFrame f c)) = xc_sub c \<and> seqs (snd (handleFrame f c)) = []"
    using handleFrame_answer [OF True, of c] unfolding handleFrame_def Let_def by (auto split: option.split)
  then show ?thesis by (intro tracks_same) simp_all
next
  case False
  then show ?thesis using tracks_handleEvent by (simp add: handleFrame_def tracks_same)
qed

lemma tracks_handle_frames: "tracks c (snd (handle_frames fs c)) (fst (handle_frames fs c))"
proof (induction fs arbitrary: c)
  case (Cons f fs)
  then show ?case using tracks_trans [OF tracks_handleFrame Cons.IH] tracks_handleFrame
    by (simp add: Let_def case_prod_beta)
qed (simp add: tracks_same)

lemma tracks_pre: "xc_sub c' = xc_sub c \<Longrightarrow> tracks c' fx d \<Longrightarrow> tracks c fx d"
  by (simp add: tracks_def)

fun ends_subscription :: "client_event \<Rightarrow> bool" where
  "ends_subscription (Ev_unsubscribe _) = True"
| "ends_subscription Ev_close = True"
| "ends_subscription _ = False"

lemma tracks_step: "\<not> ends_subscription e \<Longrightarrow> tracks c (snd (client_step opt c e)) (fst (client_step opt c e))"
proof (cases e)
  case (Ev_timeout rid)
  then show ?thesis by (auto simp: on_timeout_def split: option.split intro!: tracks_same)
next
  case (Ev_subscribe since)
  then show ?thesis by (auto simp: subscribe_def tracks_same) (simp add: tracks_def)
next
  case Ev_connected
  let ?c = "c\<lparr>xc_ready := True, xc_delay := co_min_delay opt, xc_queue := []\<rparr>"
  have "tracks c (List.map Sent (xc_queue c)) ?c" by (rule tracks_same) simp_all
  from tracks_trans [OF this tracks_call] this show ?thesis using Ev_connected
    by (auto simp: on_connect_def requestSubscribe_def Let_def case_prod_beta tracks_same split: option.split)
next
  case (Ev_data chunk)
  then show ?thesis
    by (auto simp: on_data_def split: prod.split sum.split intro!: tracks_same tracks_pre [OF _ tracks_handle_frames])
qed (auto simp: tracks_call on_close_def scheduleReconnect_def on_reconnect_timer_def connect_def Let_def intro!: tracks_same)

lemma tracks_run: "\<forall>e\<in>set es. \<not> ends_subscription e \<Longrightarrow> tracks c (snd (client_run opt c es)) (fst (client_run opt c es))"
proof (induction es arbitrary: c)
  case (Cons e es)
  show ?case using tracks_trans [OF tracks_step Cons.IH] Cons.prems by (simp add: Let_def case_prod_beta)
qed (simp add: tracks_same)

text \<open>Below \<open>2^53\<close> a chain counts.\<close>

lemma chain_count:
  "chain (Fin (of_int a)) ds b \<Longrightarrow> 0 \<le> a \<Longrightarrow> a + int (length ds) < 2 ^ 53 \<Longrightarrow>
    ds = List.map (\<lambda>i. Fin (of_int i)) [a + 1..a + int (length ds)]"
proof (induction ds arbitrary: a)
  case (Cons d ds)
  have d: "d = Fin (of_int (a + 1))" using Cons.prems rnd_int [of "a + 1"] by simp
  have "chain (Fin (of_int (a + 1))) ds b" using Cons.prems(1) unfolding chain.simps d by blast
  then have "ds = List.map (\<lambda>i. Fin (of_int i)) [a + 1 + 1..a + 1 + int (length ds)]"
    by (rule Cons.IH) (use Cons.prems in simp_all)
  then show ?case using d upto_rec1 [of "a + 1" "a + int (length (d # ds))"] by (simp add: ac_simps)
qed simp

section \<open>Reconnection\<close>

definition delay_ok :: "client_options \<Rightarrow> exec_client \<Rightarrow> bool" where
  "delay_ok opt c = (co_min_delay opt \<le> xc_delay c \<and> xc_delay c \<le> co_max_delay opt)"

definition delays :: "client_effect list \<Rightarrow> int list" where
  "delays fx = concat (List.map (\<lambda>x. case x of Reconnect_in d \<Rightarrow> [d] | _ \<Rightarrow> []) fx)"

lemma delays_simps [simp]: "delays [] = []" "delays (fx @ gx) = delays fx @ delays gx" "delays (Sent v # fx) = delays fx"
  "delays (Resolved r v # fx) = delays fx" "delays (Rejected r w # fx) = delays fx" "delays (Delivered v # fx) = delays fx"
  "delays (Connecting # fx) = delays fx" "delays (Reconnect_in d # fx) = d # delays fx" "delays (Destroyed # fx) = delays fx"
  "delays (Call_refused # fx) = delays fx" "delays (Subscribe_refused # fx) = delays fx" "delays (Uncaught u # fx) = delays fx"
  "delays (List.map Sent vs) = []"
  by (simp_all add: delays_def comp_def)

section \<open>Properties\<close>


text \<open>C30 Events reach a subscriber in sequence: whatever arrives, in whatever order and however often, over any number of
  reconnections, the sequence numbers delivered to a subscription that began after event number \<open>n\<close> are \<open>n + 1, n + 2, ...\<close>
  without a gap, a repetition or a step back.\<close>

theorem events_in_sequence:
  assumes "xc_sub c = Some s" "as_last s = Fin (of_int n)" "0 \<le> n" "\<forall>e\<in>set evs. \<not> ends_subscription e"
    and "n + int (length (seqs (snd (client_run opt c evs)))) < 2 ^ 53"
  shows "seqs (snd (client_run opt c evs))
    = List.map (\<lambda>i. Fin (of_int i)) [n + 1..n + int (length (seqs (snd (client_run opt c evs))))]"
proof -
  obtain b where "chain (Fin (of_int n)) (seqs (snd (client_run opt c evs))) b"
    using tracks_run [OF assms(4), of c opt] assms(1,2) by (auto simp: tracks_def split: option.splits)
  then show ?thesis by (rule chain_count) (use assms in simp_all)
qed

definition example_options :: client_options where
  "example_options = \<lparr>co_default_timeout = 10000, co_snapshot_timeout = 30000, co_min_delay = 250, co_max_delay = 10000,
     co_max_frame = 4000\<rparr>"

definition example_event :: "jsnum \<Rightarrow> client_event" where
  "example_event n = Ev_data (encodeFrame (JObj [(''jsonrpc'', JStr ''2.0''), (''method'', JStr ''exec.event''),
     (''params'', JObj [(''seq'', JNum n)])]))"

theorem events_in_sequence_witness:
  "seqs (snd (client_run example_options
     (fst (client_run example_options (new_client example_options) [Ev_connected, Ev_subscribe (Fin 5)]))
     [example_event (Fin 6), example_event (Fin 6), example_event (Fin 8), Ev_socket_close, Ev_timer, Ev_connected, example_event (Fin 7)]))
   = [Fin 6, Fin 7]"
proof -
  let ?c = "fst (client_run example_options (new_client example_options) [Ev_connected, Ev_subscribe (Fin 5)])"
  let ?evs = "[example_event (Fin 6), example_event (Fin 6), example_event (Fin 8), Ev_socket_close, Ev_timer, Ev_connected,
    example_event (Fin 7)]"
  have l: "length (seqs (snd (client_run example_options ?c ?evs))) = 2" by code_simp
  have s: "xc_sub ?c = Some \<lparr>as_handle = 0, as_last = Fin (of_int 5), as_duplicates = 0, as_out_of_order = 0\<rparr>" by code_simp
  have e: "\<forall>e\<in>set ?evs. \<not> ends_subscription e" by (simp add: example_event_def)
  show ?thesis using events_in_sequence [OF s _ _ e, of 5 example_options] unfolding l by (simp add: upto_rec1)
qed

text \<open>C31 A call made while disconnected whose caller has already been told that it timed out is sent all the same when the
  connection comes back: the timeout takes it off the pending map and not off the write queue.\<close>

theorem timed_out_call_still_sent:
  assumes "\<not> xc_closed c" "xc_socket c = None" "\<not> xc_ready c" "xc_timer c"
  shows "\<exists>ms. {Rejected (nat_str (xc_next_id c)) (ExecTimeout m (nat_str (xc_next_id c)) ms),
      Sent (request_frame (nat_str (xc_next_id c)) m params)}
    \<subseteq> set (snd (client_run opt c [Ev_call m params tmo, Ev_timeout (nat_str (xc_next_id c)), Ev_timer, Ev_connected]))"
  using assms
  by (intro exI [of _ "case tmo of Some t \<Rightarrow> t | None \<Rightarrow> timeoutFor opt m"])
    (simp add: call_def send_def on_timeout_def on_reconnect_timer_def connect_def on_connect_def requestSubscribe_def Let_def
      case_prod_beta split: option.split)

theorem timed_out_call_still_sent_witness:
  "\<exists>ms. {Rejected ''1'' (ExecTimeout ''exec.intent.propose'' ''1'' ms),
      Sent (request_frame ''1'' ''exec.intent.propose'' (JObj []))}
    \<subseteq> set (snd (client_run example_options (fst (client_run example_options (new_client example_options) [Ev_socket_close]))
        [Ev_call ''exec.intent.propose'' (JObj []) None, Ev_timeout ''1'', Ev_timer, Ev_connected]))"
proof -
  let ?c = "fst (client_run example_options (new_client example_options) [Ev_socket_close])"
  have c: "\<not> xc_closed ?c" "xc_socket ?c = None" "\<not> xc_ready ?c" "xc_timer ?c" "nat_str (xc_next_id ?c) = ''1''"
    by code_simp+
  from timed_out_call_still_sent [OF c(1-4), of "''exec.intent.propose''" "JObj []" example_options None]
  show ?thesis unfolding c(5) .
qed

text \<open>The waits between reconnection attempts stay between the minimum and the maximum delay.\<close>

definition waits :: "client_options \<Rightarrow> exec_client \<times> client_effect list \<Rightarrow> bool" where
  "waits opt r = (delay_ok opt (fst r) \<and> (\<forall>d\<in>set (delays (snd r)). co_min_delay opt \<le> d \<and> d \<le> co_max_delay opt))"

lemma waits_call: "delay_ok opt c \<Longrightarrow> waits opt (call opt m p t c)"
  by (simp add: waits_def call_def send_def Let_def delay_ok_def)

lemma waits_handleFrame: "delay_ok opt c \<Longrightarrow> waits opt (handleFrame f c)"
  unfolding handleFrame_def handleEvent_def Let_def waits_def by (auto simp: delay_ok_def split: option.split)

lemma waits_handle_frames: "delay_ok opt c \<Longrightarrow> waits opt (handle_frames fs c)"
proof (induction fs arbitrary: c)
  case (Cons f fs)
  have "waits opt (handleFrame f c)" by (rule waits_handleFrame [OF Cons.prems])
  then show ?case using Cons.IH [of "fst (handleFrame f c)"] by (auto simp: waits_def Let_def case_prod_beta)
qed (simp add: waits_def)

lemma waits_step:
  assumes "co_min_delay opt \<le> co_max_delay opt" "0 \<le> co_min_delay opt" "delay_ok opt c"
  shows "waits opt (client_step opt c e)"
proof (cases e)
  case Ev_connected
  let ?c = "c\<lparr>xc_ready := True, xc_delay := co_min_delay opt, xc_queue := []\<rparr>"
  have ok: "delay_ok opt ?c" using assms(1) by (simp add: delay_ok_def)
  show ?thesis
  proof (cases "xc_sub c")
    case (Some s)
    have "waits opt (call opt ''exec.events.subscribe'' (JObj [(''since_seq'', JNum (as_last s))]) None ?c)" by (rule waits_call [OF ok])
    then show ?thesis using Some Ev_connected assms(3)
      by (auto simp: waits_def on_connect_def requestSubscribe_def Let_def case_prod_beta)
  qed (use Ev_connected assms(3) ok in \<open>auto simp: waits_def on_connect_def Let_def\<close>)
next
  case (Ev_data chunk)
  have f: "waits opt (handle_frames fs (c\<lparr>xc_buffer := b\<rparr>))" for fs b
    by (rule waits_handle_frames) (use assms(3) in \<open>simp add: delay_ok_def\<close>)
  have "waits opt (c, [])" "waits opt (c\<lparr>xc_buffer := b, xc_socket := s\<rparr>, [Destroyed])" for b s
    using assms(3) by (simp_all add: waits_def delay_ok_def)
  with f show ?thesis unfolding Ev_data client_step.simps on_data_def by (simp split: prod.split sum.split)
next
  case (Ev_subscribe since)
  have "waits opt (c, [Subscribe_refused])" using assms(3) by (simp add: waits_def)
  moreover have "waits opt (call opt m p t (c\<lparr>xc_handles := h, xc_sub := s\<rparr>))" for m p t h s
    by (rule waits_call) (use assms(3) in \<open>simp add: delay_ok_def\<close>)
  ultimately show ?thesis unfolding Ev_subscribe by (simp add: subscribe_def requestSubscribe_def)
next
  case (Ev_timeout rid)
  then show ?thesis using assms(3) by (simp add: waits_def on_timeout_def delay_ok_def split: option.split)
next
  case Ev_close
  have "delays (List.map (\<lambda>(rid, p). Rejected rid Client_closed) ps) = []" for ps :: "(string \<times> pending_request) list"
    by (induction ps) auto
  then show ?thesis using Ev_close assms(3) by (simp add: waits_def close_def delay_ok_def)
next
  case (Ev_call m p t)
  then show ?thesis using waits_call [OF assms(3)] by simp
qed (use assms in \<open>auto simp: waits_def unsubscribe_def on_close_def scheduleReconnect_def
    on_reconnect_timer_def connect_def Let_def delay_ok_def split: option.split\<close>)

text \<open>However the connection flaps, each wait before a reconnection attempt is at least the minimum and at most the
  maximum delay.\<close>

theorem reconnect_delays_bounded:
  assumes "0 \<le> co_min_delay opt" "co_min_delay opt \<le> co_max_delay opt"
    and "d \<in> set (delays (snd (client_run opt (new_client opt) evs)))"
  shows "co_min_delay opt \<le> d \<and> d \<le> co_max_delay opt"
proof -
  have "delay_ok opt c \<Longrightarrow> waits opt (client_run opt c evs)" for c
  proof (induction evs arbitrary: c)
    case (Cons e es)
    from waits_step [OF assms(2,1) Cons.prems] show ?case
      using Cons.IH [of "fst (client_step opt c e)"] by (auto simp: waits_def Let_def case_prod_beta)
  qed (simp add: waits_def)
  moreover have "delay_ok opt (new_client opt)" using assms(2) by (simp add: new_client_def connect_def delay_ok_def)
  ultimately show ?thesis using assms(3) by (auto simp: waits_def)
qed

theorem reconnect_delays_bounded_witness: "(250 :: int) \<le> 500 \<and> (500 :: int) \<le> 10000"
proof -
  have "500 \<in> set (delays (snd (client_run example_options (new_client example_options)
      [Ev_socket_close, Ev_timer, Ev_socket_close])))" by code_simp
  from reconnect_delays_bounded [OF _ _ this] show ?thesis by (simp add: example_options_def)
qed

end
