(* ===== verification/BarSeries.thy ===== *)
theory BarSeries imports JsText begin

text \<open>
  Series computed along a list of bars. A loop \<open>for i\<close> that writes \<open>out[i]\<close> and keeps some state is a \<open>scan\<close> over the
  indices. A series function is aligned (one output per input) and looks back only (its output on a prefix is the
  prefix of its output); the closure lemmas give both for compositions, so that an indicator is shown to be a
  series by its definition.
\<close>

section \<open>Loops\<close>

fun scan :: "('s \<Rightarrow> 'a \<Rightarrow> 's \<times> 'b) \<Rightarrow> 's \<Rightarrow> 'a list \<Rightarrow> 'b list" where
  "scan f s [] = []"
| "scan f s (x # xs) = (let (s', y) = f s x in y # scan f s' xs)"

lemma length_scan [simp]: "length (scan f s xs) = length xs"
  by (induction xs arbitrary: s) (simp_all add: case_prod_beta Let_def)

lemma scan_take: "scan f s (take n xs) = take n (scan f s xs)"
proof (induction xs arbitrary: s n)
  case (Cons x xs)
  then show ?case by (cases n) (simp_all add: case_prod_beta Let_def)
qed simp

lemma scan_cong: "(\<And>s x. x \<in> set xs \<Longrightarrow> f s x = g s x) \<Longrightarrow> scan f s xs = scan g s xs"
  by (induction xs arbitrary: s) simp_all

lemma scan_invariant:
  assumes "I s" "\<And>s x. x \<in> set xs \<Longrightarrow> I s \<Longrightarrow> I (fst (f s x)) \<and> P (snd (f s x))"
  shows "\<forall>y\<in>set (scan f s xs). P y"
  using assms
proof (induction xs arbitrary: s)
  case (Cons x xs)
  have "I (fst (f s x)) \<and> P (snd (f s x))" using Cons.prems by simp
  moreover have "\<forall>y\<in>set (scan f (fst (f s x)) xs). P y"
    by (rule Cons.IH) (use Cons.prems calculation in auto)
  ultimately show ?case by (simp add: case_prod_beta Let_def)
qed simp

definition window :: "nat \<Rightarrow> 'a list \<Rightarrow> nat \<Rightarrow> 'a list" where
  "window period xs i = List.map (\<lambda>j. xs ! j) [i + 1 - period..<i + 1]"

lemma window_take: "i < n \<Longrightarrow> window period (take n xs) i = window period xs i"
  unfolding window_def by (rule map_cong [OF refl]) (auto intro!: nth_take)

lemma window_set: "i < length xs \<Longrightarrow> set (window period xs i) \<subseteq> set xs"
  by (auto simp: window_def)

abbreviation num :: "nat \<Rightarrow> jsnum" where "num n \<equiv> rnd (of_nat n)"

section \<open>Series functions\<close>

locale series =
  fixes f :: "'a list \<Rightarrow> 'b list"
  assumes aligned: "length (f xs) = length xs"
    and looks_back: "f (take n xs) = take n (f xs)"
begin

text \<open>The value at a bar is the last value computed from the bars up to it, whatever comes after.\<close>

lemma value_at: "i < length xs \<Longrightarrow> f xs ! i = List.last (f (take (Suc i) xs))"
  using aligned [of xs] by (simp add: looks_back last_take_nth)

lemma same_past: "take n xs = take n ys \<Longrightarrow> take n (f xs) = take n (f ys)"
  by (metis looks_back)

end

lemma upt_prefix: "[0..<min m n] = take n [0..<m]"
  by (simp add: min_def)

lemma series_loop:
  assumes "\<And>xs n i s. i < n \<Longrightarrow> i < length xs \<Longrightarrow> step (take n xs) s i = step xs s i"
  shows "series (\<lambda>xs. scan (step xs) s0 [0..<length xs])"
proof
  fix n :: nat and xs :: "'a list"
  have p: "[0..<length (take n xs)] = take n [0..<length xs]" by (simp add: upt_prefix)
  have "scan (step (take n xs)) s0 [0..<length (take n xs)] = scan (step xs) s0 [0..<length (take n xs)]"
    by (rule scan_cong) (simp add: assms)
  then show "scan (step (take n xs)) s0 [0..<length (take n xs)] = take n (scan (step xs) s0 [0..<length xs])"
    unfolding p scan_take .
qed simp

lemma series_index:
  assumes "\<And>xs n i. i < n \<Longrightarrow> i < length xs \<Longrightarrow> f (take n xs) i = f xs i"
  shows "series (\<lambda>xs. List.map (f xs) [0..<length xs])"
proof
  fix n :: nat and xs :: "'a list"
  have p: "[0..<length (take n xs)] = take n [0..<length xs]" by (simp add: upt_prefix)
  have "List.map (f (take n xs)) [0..<length (take n xs)] = List.map (f xs) [0..<length (take n xs)]"
    by (rule map_cong) (simp_all add: assms)
  then show "List.map (f (take n xs)) [0..<length (take n xs)] = take n (List.map (f xs) [0..<length xs])"
    unfolding p take_map .
qed simp

lemma series_map: "series (\<lambda>xs. List.map g xs)"
  by unfold_locales (simp_all add: take_map)

lemma series_comp: "series f \<Longrightarrow> series g \<Longrightarrow> series (\<lambda>xs. f (g xs))"
  unfolding series_def by simp

lemma series_filled: "series (\<lambda>xs. replicate (length xs) c)"
  by unfold_locales (simp_all add: min_def)

lemma seriesD: "series f \<Longrightarrow> f (take n xs) = take n (f xs)" "series f \<Longrightarrow> length (f xs) = length xs"
  by (simp_all add: series_def)

section \<open>Extremes\<close>

text \<open>The loops \<open>if (x > h) h = x\<close> from minus infinity and \<open>if (x < l) l = x\<close> from infinity; NaN is passed over.\<close>

definition highest :: "jsnum list \<Rightarrow> jsnum" where
  "highest xs = foldl (\<lambda>h x. if h < x then x else h) NInf xs"

definition lowest :: "jsnum list \<Rightarrow> jsnum" where
  "lowest xs = foldl (\<lambda>l x. if x < l then x else l) PInf xs"

lemma highest_ge: "x \<in> set xs \<Longrightarrow> x \<noteq> NaN \<Longrightarrow> x \<le> highest xs"
proof -
  have "h \<noteq> NaN \<Longrightarrow> foldl (\<lambda>h x. if h < x then x else h) h xs \<noteq> NaN \<and> h \<le> foldl (\<lambda>h x. if h < x then x else h) h xs
    \<and> (\<forall>x\<in>set xs. x \<noteq> NaN \<longrightarrow> x \<le> foldl (\<lambda>h x. if h < x then x else h) h xs)" for h
  proof (induction xs arbitrary: h)
    case (Cons y ys)
    let ?h = "if h < y then y else h"
    have "?h \<noteq> NaN" "h \<le> ?h" "y \<noteq> NaN \<Longrightarrow> y \<le> ?h" using Cons.prems js_not_less [of h y] js_less_imp_le by (auto dest: js_less_not_NaN)
    then show ?case using Cons.IH [of ?h] by (auto intro: js_le_trans)
  qed simp
  then show "x \<in> set xs \<Longrightarrow> x \<noteq> NaN \<Longrightarrow> x \<le> highest xs" by (simp add: highest_def)
qed

lemma lowest_le: "x \<in> set xs \<Longrightarrow> x \<noteq> NaN \<Longrightarrow> lowest xs \<le> x"
proof -
  have "l \<noteq> NaN \<Longrightarrow> foldl (\<lambda>l x. if x < l then x else l) l xs \<noteq> NaN \<and> foldl (\<lambda>l x. if x < l then x else l) l xs \<le> l
    \<and> (\<forall>x\<in>set xs. x \<noteq> NaN \<longrightarrow> foldl (\<lambda>l x. if x < l then x else l) l xs \<le> x)" for l
  proof (induction xs arbitrary: l)
    case (Cons y ys)
    let ?l = "if y < l then y else l"
    have "?l \<noteq> NaN" "?l \<le> l" "y \<noteq> NaN \<Longrightarrow> ?l \<le> y" using Cons.prems js_not_less [of y l] js_less_imp_le by (auto dest: js_less_not_NaN)
    then show ?case using Cons.IH [of ?l] by (auto intro: js_le_trans)
  qed simp
  then show "x \<in> set xs \<Longrightarrow> x \<noteq> NaN \<Longrightarrow> lowest xs \<le> x" by (simp add: lowest_def)
qed

lemma highest_in: "highest xs = NInf \<or> highest xs \<in> set xs"
proof -
  have "foldl (\<lambda>h x. if h < x then x else h) h xs \<in> insert h (set xs)" for h
    by (rule foldl_invariant) auto
  then show ?thesis by (auto simp: highest_def)
qed

lemma lowest_in: "lowest xs = PInf \<or> lowest xs \<in> set xs"
proof -
  have "foldl (\<lambda>l x. if x < l then x else l) l xs \<in> insert l (set xs)" for l
    by (rule foldl_invariant) auto
  then show ?thesis by (auto simp: lowest_def)
qed

section \<open>Square roots\<close>

function isqrt :: "int \<Rightarrow> int" where
  "isqrt n = (if n < 1 then 0 else let r = 2 * isqrt (n div 4) in if (r + 1) * (r + 1) \<le> n then r + 1 else r)"
  by auto
termination by (relation "measure nat") auto

declare isqrt.simps [simp del]

lemma isqrt_bounds: "0 \<le> n \<Longrightarrow> 0 \<le> isqrt n \<and> isqrt n * isqrt n \<le> n \<and> n < (isqrt n + 1) * (isqrt n + 1)"
proof (induction n rule: isqrt.induct)
  case (1 n)
  show ?case
  proof (cases "n < 1")
    case True
    then show ?thesis using 1 by (simp add: isqrt.simps [of n])
  next
    case False
    let ?q = "isqrt (n div 4)"
    have IH: "0 \<le> ?q" "?q * ?q \<le> n div 4" "n div 4 < (?q + 1) * (?q + 1)" using 1 False by simp_all
    have "4 * (?q * ?q) \<le> n" using IH(2) by linarith
    moreover have "n < 4 * ((?q + 1) * (?q + 1))" using IH(3) by linarith
    moreover have "isqrt n = (if (2 * ?q + 1) * (2 * ?q + 1) \<le> n then 2 * ?q + 1 else 2 * ?q)"
      using False isqrt.simps [of n] by (simp add: Let_def)
    ultimately show ?thesis using IH(1) by (simp add: algebra_simps)
  qed
qed

text \<open>\<open>Math.sqrt\<close>: the double nearest to the square root. The root is taken with more than 60 bits; when it is not exact the
  half of the next bit stands for the rest, which keeps it on the same side of every rounding boundary.\<close>

fun js_sqrt :: "jsnum \<Rightarrow> jsnum" where
  "js_sqrt (Fin x) = (if x < 0 then NaN else if x = 0 then Fin 0
     else let k = 60 - expo x div 2; y = x * p2 (2 * k); m = isqrt \<lfloor>y\<rfloor>
          in if of_int (m * m) = y then rnd (of_int m * p2 (- k)) else rnd ((of_int m + 1/2) * p2 (- k)))"
| "js_sqrt PInf = PInf"
| "js_sqrt _ = NaN"

end
