(* ===== verification/Indicators.thy ===== *)
theory Indicators imports DemoTypes BarSeries begin

text \<open>
  The technical indicators of \<open>indicators.ts\<close>. A numeric array is a list of numbers, NaN during the warm-up; a loop
  over the bars is a \<open>scan\<close> with the variables it keeps as state. Periods are natural numbers; the functions without a
  guard on the period are called with positive ones. The square \<open>x ** 2\<close> is taken as correctly rounded.
\<close>

section \<open>Helpers\<close>

definition last_ready :: "('a \<Rightarrow> bool) \<Rightarrow> 'a list \<Rightarrow> 'a option" where
  "last_ready ready xs = List.find ready (rev xs)"

abbreviation last_num :: "jsnum list \<Rightarrow> jsnum option" where
  "last_num xs \<equiv> last_ready is_fin xs"

definition filled :: "nat \<Rightarrow> jsnum list" where "filled n = replicate n NaN"

definition highs :: "kline list \<Rightarrow> jsnum list" where "highs ks = List.map (\<lambda>k. js_number (k_high k)) ks"

definition lows :: "kline list \<Rightarrow> jsnum list" where "lows ks = List.map (\<lambda>k. js_number (k_low k)) ks"

definition closes :: "kline list \<Rightarrow> jsnum list" where "closes ks = List.map (\<lambda>k. js_number (k_close k)) ks"

definition opens :: "kline list \<Rightarrow> jsnum list" where "opens ks = List.map (\<lambda>k. js_number (k_open k)) ks"

definition volumes :: "kline list \<Rightarrow> jsnum list" where "volumes ks = List.map (\<lambda>k. js_number (k_volume k)) ks"

definition typicalPrices :: "kline list \<Rightarrow> jsnum list" where
  "typicalPrices ks = List.map (\<lambda>k. (js_number (k_high k) + js_number (k_low k) + js_number (k_close k)) / Fin 3) ks"

definition decimalsFor :: "jsnum \<Rightarrow> nat" where
  "decimalsFor price = (if Fin 100 < price then 0 else if Fin 1 < price then 2 else 5)"

section \<open>Moving averages\<close>

definition sma_step :: "nat \<Rightarrow> jsnum list \<Rightarrow> jsnum \<times> nat \<Rightarrow> nat \<Rightarrow> (jsnum \<times> nat) \<times> jsnum" where
  "sma_step period values = (\<lambda>(sum, cnt) i. let v = values ! i in
     if \<not> is_fin v then ((Fin 0, 0), NaN)
     else let sum1 = sum + v; cnt1 = cnt + 1;
              (sum2, cnt2) = (if period < cnt1
                then (let drop = values ! (i - period) in (sum1 - (if is_fin drop then drop else Fin 0), period))
                else (sum1, cnt1))
          in ((sum2, cnt2), if cnt2 = period then sum2 / num period else NaN))"

definition sma :: "jsnum list \<Rightarrow> nat \<Rightarrow> jsnum list" where
  "sma values period = (if period = 0 then filled (length values)
     else scan (sma_step period values) (Fin 0, 0) [0..<length values])"

text \<open>The loop \<open>ema\<close> and \<open>rma\<close> share: the mean of the first \<open>period\<close> values starts the average, \<open>upd\<close> moves it on.\<close>

definition average_step :: "(jsnum \<Rightarrow> jsnum \<Rightarrow> jsnum) \<Rightarrow> nat \<Rightarrow> jsnum list \<Rightarrow>
    jsnum option \<times> jsnum \<times> nat \<Rightarrow> nat \<Rightarrow> (jsnum option \<times> jsnum \<times> nat) \<times> jsnum" where
  "average_step upd period values = (\<lambda>(prev, sum, cnt) i. let v = values ! i in
     if \<not> is_fin v then ((prev, sum, cnt), NaN)
     else case prev of
       None \<Rightarrow> let sum1 = sum + v; cnt1 = cnt + 1 in
         if cnt1 = period then ((Some (sum1 / num period), sum1, cnt1), sum1 / num period) else ((None, sum1, cnt1), NaN)
     | Some p \<Rightarrow> ((Some (upd p v), sum, cnt), upd p v))"

definition ema_update :: "nat \<Rightarrow> jsnum \<Rightarrow> jsnum \<Rightarrow> jsnum" where
  "ema_update period prev v = (let k = Fin 2 / num (period + 1) in v * k + prev * (Fin 1 - k))"

definition ema :: "jsnum list \<Rightarrow> nat \<Rightarrow> jsnum list" where
  "ema values period = (if period = 0 \<or> length values < period then filled (length values)
     else scan (average_step (ema_update period) period values) (None, Fin 0, 0) [0..<length values])"

definition rma_update :: "nat \<Rightarrow> jsnum \<Rightarrow> jsnum \<Rightarrow> jsnum" where
  "rma_update period prev v = (prev * num (period - 1) + v) / num period"

definition rma :: "jsnum list \<Rightarrow> nat \<Rightarrow> jsnum list" where
  "rma values period = (if period = 0 then filled (length values)
     else scan (average_step (rma_update period) period values) (None, Fin 0, 0) [0..<length values])"

definition weighted :: "jsnum list \<Rightarrow> jsnum" where
  "weighted xs = foldl (\<lambda>acc j. acc + xs ! j * num (j + 1)) (Fin 0) [0..<length xs]"

definition wma :: "jsnum list \<Rightarrow> nat \<Rightarrow> jsnum list" where
  "wma values period = (if period = 0 then filled (length values)
     else List.map (\<lambda>i. if i + 1 < period \<or> \<not> list_all is_fin (window period values i) then NaN
       else weighted (window period values i) / (num (period * (period + 1)) / Fin 2)) [0..<length values])"

definition dema :: "jsnum list \<Rightarrow> nat \<Rightarrow> jsnum list" where
  "dema values period = (let e1 = ema values period; e2 = ema e1 period in
     List.map (\<lambda>i. if is_fin (e1 ! i) \<and> is_fin (e2 ! i) then Fin 2 * e1 ! i - e2 ! i else NaN) [0..<length values])"

definition tema :: "jsnum list \<Rightarrow> nat \<Rightarrow> jsnum list" where
  "tema values period = (let e1 = ema values period; e2 = ema e1 period; e3 = ema e2 period in
     List.map (\<lambda>i. if is_fin (e1 ! i) \<and> is_fin (e2 ! i) \<and> is_fin (e3 ! i) then Fin 3 * e1 ! i - Fin 3 * e2 ! i + e3 ! i else NaN)
       [0..<length values])"

definition stdev :: "jsnum list \<Rightarrow> nat \<Rightarrow> jsnum list" where
  "stdev values period = List.map (\<lambda>i. let w = window period values i in
     if i + 1 < period \<or> \<not> list_all is_fin w then NaN
     else let mean = js_sum w / num period
          in js_sqrt (js_sum (List.map (\<lambda>v. (v - mean) * (v - mean)) w) / num period)) [0..<length values]"

section \<open>Oscillators\<close>

definition gains :: "jsnum list \<Rightarrow> jsnum list" where
  "gains cl = List.map (\<lambda>i. if i = 0 then NaN else let d = cl ! i - cl ! (i - 1) in if Fin 0 < d then d else Fin 0) [0..<length cl]"

definition losses :: "jsnum list \<Rightarrow> jsnum list" where
  "losses cl = List.map (\<lambda>i. if i = 0 then NaN else let d = cl ! i - cl ! (i - 1) in if d < Fin 0 then - d else Fin 0) [0..<length cl]"

text \<open>100 - 100 / (1 + g / l), with 50 for no move at all and 100 for no loss.\<close>

definition strength_index :: "jsnum \<Rightarrow> jsnum \<Rightarrow> jsnum" where
  "strength_index g l = (if js_eq l (Fin 0) then (if js_eq g (Fin 0) then Fin 50 else Fin 100)
     else Fin 100 - Fin 100 / (Fin 1 + g / l))"

definition rsi :: "jsnum list \<Rightarrow> nat \<Rightarrow> jsnum list" where
  "rsi cl period = (let avgGain = rma (gains cl) period; avgLoss = rma (losses cl) period in
     List.map (\<lambda>i. let g = avgGain ! i; l = avgLoss ! i in
       if \<not> is_fin g \<or> \<not> is_fin l then NaN else strength_index g l) [0..<length cl])"

record macd_point =
  mc_macd :: jsnum
  mc_signal :: jsnum
  mc_hist :: jsnum

definition macd_line :: "jsnum list \<Rightarrow> nat \<Rightarrow> nat \<Rightarrow> jsnum list" where
  "macd_line cl fast slow = (let ef = ema cl fast; es = ema cl slow in
     List.map (\<lambda>i. if is_fin (ef ! i) \<and> is_fin (es ! i) then ef ! i - es ! i else NaN) [0..<length cl])"

definition macd :: "jsnum list \<Rightarrow> nat \<Rightarrow> nat \<Rightarrow> nat \<Rightarrow> macd_point list" where
  "macd cl fast slow signal = (let line = macd_line cl fast slow; sig = ema line signal in
     List.map (\<lambda>i. \<lparr>mc_macd = line ! i, mc_signal = sig ! i,
       mc_hist = (if is_fin (line ! i) \<and> is_fin (sig ! i) then line ! i - sig ! i else NaN)\<rparr>) [0..<length cl])"

record stoch_point =
  sk_fast_k :: jsnum
  sk_k :: jsnum
  sk_d :: jsnum

text \<open>The place of a value between the extremes, 0 to 100, or \<open>flat\<close> when they are equal.\<close>

definition place :: "jsnum \<Rightarrow> jsnum \<Rightarrow> jsnum \<Rightarrow> jsnum" where
  "place c hh ll = (if js_eq hh ll then Fin 50 else (c - ll) / (hh - ll) * Fin 100)"

definition fast_k :: "kline list \<Rightarrow> nat \<Rightarrow> jsnum list" where
  "fast_k ks k = List.map (\<lambda>i. if i + 1 < k then NaN
     else place (closes ks ! i) (highest (window k (highs ks) i)) (lowest (window k (lows ks) i))) [0..<length ks]"

definition stochastic :: "kline list \<Rightarrow> nat \<Rightarrow> nat \<Rightarrow> nat \<Rightarrow> stoch_point list" where
  "stochastic ks k d smooth = (let fast = fast_k ks k; slowK = sma fast smooth; dv = sma slowK d in
     List.map (\<lambda>i. \<lparr>sk_fast_k = fast ! i, sk_k = slowK ! i, sk_d = dv ! i\<rparr>) [0..<length ks])"

definition stochRsi :: "jsnum list \<Rightarrow> nat \<Rightarrow> jsnum list" where
  "stochRsi cl period = (let r = rsi cl period in
     List.map (\<lambda>i. if \<not> is_fin (r ! i) then NaN
       else let w = filter is_fin (window period r i) in
         if length w < period then NaN else place (r ! i) (highest w) (lowest w)) [0..<length cl])"

definition momentum :: "jsnum list \<Rightarrow> nat \<Rightarrow> jsnum list" where
  "momentum cl period = List.map (\<lambda>i. if period \<le> i \<and> is_fin (cl ! i) \<and> is_fin (cl ! (i - period))
     then cl ! i - cl ! (i - period) else NaN) [0..<length cl]"

definition roc :: "jsnum list \<Rightarrow> nat \<Rightarrow> jsnum list" where
  "roc cl period = List.map (\<lambda>i. let base = (if period \<le> i then cl ! (i - period) else NaN) in
     if is_fin base \<and> \<not> js_eq base (Fin 0) then (cl ! i / base - Fin 1) * Fin 100 else NaN) [0..<length cl]"

definition trix :: "jsnum list \<Rightarrow> nat \<Rightarrow> jsnum list" where
  "trix cl period = (let e3 = ema (ema (ema cl period) period) period in
     List.map (\<lambda>i. let prev = (if 0 < i then e3 ! (i - 1) else NaN) in
       if is_fin (e3 ! i) \<and> is_fin prev \<and> \<not> js_eq prev (Fin 0) then (e3 ! i - prev) / prev * Fin 100 else NaN) [0..<length e3])"

definition chaikin_step :: "kline list \<Rightarrow> jsnum \<Rightarrow> nat \<Rightarrow> jsnum \<times> jsnum" where
  "chaikin_step ks acc i = (let h = highs ks ! i; l = lows ks ! i; c = closes ks ! i; v = volumes ks ! i;
     acc1 = (if l < h \<and> is_fin v then acc + ((c - l) - (h - c)) / (h - l) * v else acc) in (acc1, acc1))"

definition chaikinAd :: "kline list \<Rightarrow> jsnum list" where
  "chaikinAd ks = scan (chaikin_step ks) (Fin 0) [0..<length ks]"

record aroon_point =
  ar_up :: jsnum
  ar_down :: jsnum
  ar_osc :: jsnum

text \<open>The index of the first strict maximum (minimum) from \<open>a\<close> to \<open>i\<close>.\<close>

definition arg_high :: "jsnum list \<Rightarrow> nat \<Rightarrow> nat \<Rightarrow> nat" where
  "arg_high hi a i = foldl (\<lambda>m j. if hi ! m < hi ! j then j else m) a [a..<i + 1]"

definition arg_low :: "jsnum list \<Rightarrow> nat \<Rightarrow> nat \<Rightarrow> nat" where
  "arg_low lo a i = foldl (\<lambda>m j. if lo ! j < lo ! m then j else m) a [a..<i + 1]"

definition freshness :: "nat \<Rightarrow> nat \<Rightarrow> nat \<Rightarrow> jsnum" where
  "freshness period i m = (num period - num (i - m)) / num period * Fin 100"

definition aroon :: "kline list \<Rightarrow> nat \<Rightarrow> aroon_point list" where
  "aroon ks period = List.map (\<lambda>i. if i < period then \<lparr>ar_up = NaN, ar_down = NaN, ar_osc = NaN\<rparr>
     else let up = freshness period i (arg_high (highs ks) (i - period) i);
              down = freshness period i (arg_low (lows ks) (i - period) i)
          in \<lparr>ar_up = up, ar_down = down, ar_osc = up - down\<rparr>) [0..<length ks]"

definition cci :: "kline list \<Rightarrow> nat \<Rightarrow> jsnum list" where
  "cci ks period = (let tp = typicalPrices ks; base = sma tp period in
     List.map (\<lambda>i. let m = base ! i in if i + 1 < period \<or> \<not> is_fin m then NaN
       else let md = js_sum (List.map (\<lambda>v. \<bar>v - m\<bar>) (window period tp i)) / num period
            in if js_eq md (Fin 0) then Fin 0 else (tp ! i - m) / (lit (15/1000) * md)) [0..<length ks])"

definition williamsR :: "kline list \<Rightarrow> nat \<Rightarrow> jsnum list" where
  "williamsR ks period = List.map (\<lambda>i. if i + 1 < period then NaN
     else let hh = highest (window period (highs ks) i); ll = lowest (window period (lows ks) i)
          in if js_eq hh ll then Fin (- 50) else (hh - closes ks ! i) / (hh - ll) * Fin (- 100)) [0..<length ks]"

definition flow_step :: "jsnum list \<Rightarrow> jsnum list \<Rightarrow> jsnum \<times> jsnum \<Rightarrow> nat \<Rightarrow> jsnum \<times> jsnum" where
  "flow_step tp vol = (\<lambda>(pos, neg) j. let flow = tp ! j * vol ! j in
     if tp ! (j - 1) < tp ! j then (pos + flow, neg) else if tp ! j < tp ! (j - 1) then (pos, neg + flow) else (pos, neg))"

definition mfi :: "kline list \<Rightarrow> nat \<Rightarrow> jsnum list" where
  "mfi ks period = (let tp = typicalPrices ks; vol = volumes ks in
     List.map (\<lambda>i. if i < period then NaN
       else let (pos, neg) = foldl (flow_step tp vol) (Fin 0, Fin 0) [i + 1 - period..<i + 1] in strength_index pos neg)
       [0..<length ks])"

definition obv_step :: "kline list \<Rightarrow> jsnum \<Rightarrow> nat \<Rightarrow> jsnum \<times> jsnum" where
  "obv_step ks acc i = (if i = 0 then (acc, acc)
     else let d = closes ks ! i - closes ks ! (i - 1); v = volumes ks ! i;
              acc1 = acc + (if Fin 0 < d then v else if d < Fin 0 then - v else Fin 0) in (acc1, acc1))"

definition obv :: "kline list \<Rightarrow> jsnum list" where
  "obv ks = scan (obv_step ks) (Fin 0) [0..<length ks]"

section \<open>Volatility\<close>

definition trueRange :: "kline list \<Rightarrow> jsnum list" where
  "trueRange ks = List.map (\<lambda>i. let h = highs ks ! i; l = lows ks ! i in
     if i = 0 then h - l else let pc = closes ks ! (i - 1) in js_max (js_max (h - l) \<bar>h - pc\<bar>) \<bar>l - pc\<bar>) [0..<length ks]"

definition atr :: "kline list \<Rightarrow> nat \<Rightarrow> jsnum list" where
  "atr ks period = rma (trueRange ks) period"

record bollinger_point =
  bo_mid :: jsnum
  bo_upper :: jsnum
  bo_lower :: jsnum
  bo_width_pct :: jsnum

definition bollinger :: "jsnum list \<Rightarrow> nat \<Rightarrow> jsnum \<Rightarrow> bollinger_point list" where
  "bollinger cl period mult = (let mid = sma cl period; sd = stdev cl period in
     List.map (\<lambda>i. let m = mid ! i; s = sd ! i in
       if \<not> is_fin m \<or> \<not> is_fin s then \<lparr>bo_mid = NaN, bo_upper = NaN, bo_lower = NaN, bo_width_pct = NaN\<rparr>
       else let upper = m + mult * s; lower = m - mult * s
            in \<lparr>bo_mid = m, bo_upper = upper, bo_lower = lower,
                bo_width_pct = (if js_eq m (Fin 0) then NaN else (upper - lower) / m * Fin 100)\<rparr>) [0..<length cl])"

record keltner_point =
  ke_mid :: jsnum
  ke_upper :: jsnum
  ke_lower :: jsnum

definition keltner :: "kline list \<Rightarrow> nat \<Rightarrow> jsnum \<Rightarrow> keltner_point list" where
  "keltner ks period mult = (let mid = ema (closes ks) period; a = atr ks period in
     List.map (\<lambda>i. let m = mid ! i; v = a ! i in
       if \<not> is_fin m \<or> \<not> is_fin v then \<lparr>ke_mid = NaN, ke_upper = NaN, ke_lower = NaN\<rparr>
       else \<lparr>ke_mid = m, ke_upper = m + mult * v, ke_lower = m - mult * v\<rparr>) [0..<length ks])"

record squeeze_point =
  sq_on :: bool
  sq_bars_on :: nat

definition squeeze_step :: "bollinger_point list \<Rightarrow> keltner_point list \<Rightarrow> nat \<Rightarrow> nat \<Rightarrow> nat \<times> squeeze_point" where
  "squeeze_step bb kc run i = (let b = bb ! i; k = kc ! i;
     ready = (is_fin (bo_upper b) \<and> is_fin (ke_upper k));
     sq = (ready \<and> bo_upper b < ke_upper k \<and> ke_lower k < bo_lower b);
     run1 = (if sq then run + 1 else 0) in (run1, \<lparr>sq_on = sq, sq_bars_on = run1\<rparr>))"

definition squeeze :: "kline list \<Rightarrow> nat \<Rightarrow> jsnum \<Rightarrow> nat \<Rightarrow> jsnum \<Rightarrow> squeeze_point list" where
  "squeeze ks bbPeriod bbMult kcPeriod kcMult
    = scan (squeeze_step (bollinger (closes ks) bbPeriod bbMult) (keltner ks kcPeriod kcMult)) 0 [0..<length ks]"

record donchian_point =
  dn_upper :: jsnum
  dn_lower :: jsnum
  dn_mid :: jsnum

definition donchian :: "kline list \<Rightarrow> nat \<Rightarrow> donchian_point list" where
  "donchian ks period = List.map (\<lambda>i. if i + 1 < period then \<lparr>dn_upper = NaN, dn_lower = NaN, dn_mid = NaN\<rparr>
     else let hh = highest (window period (highs ks) i); ll = lowest (window period (lows ks) i)
          in \<lparr>dn_upper = hh, dn_lower = ll, dn_mid = (hh + ll) / Fin 2\<rparr>) [0..<length ks]"

section \<open>Trend\<close>

record adx_point =
  ax_adx :: jsnum
  ax_plus_di :: jsnum
  ax_minus_di :: jsnum

definition plus_dm :: "kline list \<Rightarrow> jsnum list" where
  "plus_dm ks = List.map (\<lambda>i. if i = 0 then NaN
     else let up = highs ks ! i - highs ks ! (i - 1); down = lows ks ! (i - 1) - lows ks ! i
          in if down < up \<and> Fin 0 < up then up else Fin 0) [0..<length ks]"

definition minus_dm :: "kline list \<Rightarrow> jsnum list" where
  "minus_dm ks = List.map (\<lambda>i. if i = 0 then NaN
     else let up = highs ks ! i - highs ks ! (i - 1); down = lows ks ! (i - 1) - lows ks ! i
          in if up < down \<and> Fin 0 < down then down else Fin 0) [0..<length ks]"

text \<open>The true range without its first entry, to stay in phase with the movements.\<close>

definition tr_shift :: "kline list \<Rightarrow> jsnum list" where
  "tr_shift ks = List.map (\<lambda>i. if i = 0 then NaN else trueRange ks ! i) [0..<length ks]"

definition di :: "jsnum list \<Rightarrow> jsnum list \<Rightarrow> nat \<Rightarrow> jsnum" where
  "di smTr smDm i = (let t = smTr ! i in if \<not> is_fin t \<or> js_eq t (Fin 0) then NaN else smDm ! i / t * Fin 100)"

definition dx_of :: "jsnum \<Rightarrow> jsnum \<Rightarrow> jsnum" where
  "dx_of p m = (if js_eq (p + m) (Fin 0) then Fin 0 else \<bar>p - m\<bar> / (p + m) * Fin 100)"

definition adx :: "kline list \<Rightarrow> nat \<Rightarrow> adx_point list" where
  "adx ks period = (let smTr = rma (tr_shift ks) period;
     pdi = List.map (di smTr (rma (plus_dm ks) period)) [0..<length ks];
     mdi = List.map (di smTr (rma (minus_dm ks) period)) [0..<length ks];
     dx = List.map (\<lambda>i. let t = smTr ! i in if \<not> is_fin t \<or> js_eq t (Fin 0) then NaN else dx_of (pdi ! i) (mdi ! i)) [0..<length ks];
     adxv = rma dx period
   in List.map (\<lambda>i. \<lparr>ax_adx = adxv ! i, ax_plus_di = pdi ! i, ax_minus_di = mdi ! i\<rparr>) [0..<length ks])"

record dir_point =
  dp_value :: jsnum
  dp_dir :: int

text \<open>State: direction, whether it has started, and the bands of the bar before.\<close>

definition supertrend_step :: "kline list \<Rightarrow> jsnum list \<Rightarrow> jsnum \<Rightarrow> int \<times> bool \<times> jsnum \<times> jsnum \<Rightarrow> nat
    \<Rightarrow> (int \<times> bool \<times> jsnum \<times> jsnum) \<times> dir_point" where
  "supertrend_step ks a mult = (\<lambda>(dir, started, pUp, pDn) i. let v = a ! i in
     if \<not> is_fin v then ((dir, started, NaN, NaN), \<lparr>dp_value = NaN, dp_dir = 1\<rparr>)
     else let c = closes ks ! i; hl2 = (highs ks ! i + lows ks ! i) / Fin 2; bUp = hl2 + mult * v; bDn = hl2 - mult * v;
       (up, dn, d) = (if \<not> started then (bUp, bDn, if hl2 \<le> c then 1 else - 1)
         else let pc = closes ks ! (i - 1) in
           (if bUp < pUp \<or> pUp < pc then bUp else pUp, if pDn < bDn \<or> pc < pDn then bDn else pDn,
            if pUp < c then 1 else if c < pDn then - 1 else dir))
     in ((d, True, up, dn), \<lparr>dp_value = (if d = 1 then dn else up), dp_dir = d\<rparr>))"

definition supertrend :: "kline list \<Rightarrow> nat \<Rightarrow> jsnum \<Rightarrow> dir_point list" where
  "supertrend ks period mult = scan (supertrend_step ks (atr ks period) mult) (1, False, NaN, NaN) [0..<length ks]"

definition psar_clamp :: "jsnum list \<Rightarrow> jsnum list \<Rightarrow> int \<Rightarrow> jsnum \<Rightarrow> nat \<Rightarrow> jsnum" where
  "psar_clamp hi lo dir sar i = (if dir = 1 then js_min (js_min sar (lo ! (i - 1))) (if 2 \<le> i then lo ! (i - 2) else lo ! (i - 1))
     else js_max (js_max sar (hi ! (i - 1))) (if 2 \<le> i then hi ! (i - 2) else hi ! (i - 1)))"

definition psar_step :: "kline list \<Rightarrow> jsnum \<Rightarrow> jsnum \<Rightarrow> int \<times> jsnum \<times> jsnum \<times> jsnum \<Rightarrow> nat
    \<Rightarrow> (int \<times> jsnum \<times> jsnum \<times> jsnum) \<times> dir_point" where
  "psar_step ks step mx = (\<lambda>(dir, sar0, ep, af) i.
     if i = 0 then ((dir, sar0, ep, af), \<lparr>dp_value = sar0, dp_dir = dir\<rparr>)
     else let h = highs ks ! i; l = lows ks ! i; sar = psar_clamp (highs ks) (lows ks) dir (sar0 + af * (ep - sar0)) i;
       (d, s, e, a) = (if dir = 1 \<and> l < sar then (- 1, ep, l, step)
         else if dir = - 1 \<and> sar < h then (1, ep, h, step)
         else if dir = 1 \<and> ep < h then (dir, sar, h, js_min mx (af + step))
         else if dir = - 1 \<and> l < ep then (dir, sar, l, js_min mx (af + step))
         else (dir, sar, ep, af))
     in ((d, s, e, a), \<lparr>dp_value = s, dp_dir = d\<rparr>))"

definition psar :: "kline list \<Rightarrow> jsnum \<Rightarrow> jsnum \<Rightarrow> dir_point list" where
  "psar ks step mx = (if length ks < 2 then replicate (length ks) \<lparr>dp_value = NaN, dp_dir = 1\<rparr>
     else let dir = (if closes ks ! 0 \<le> closes ks ! 1 then 1 else - 1); h = highs ks ! 0; l = lows ks ! 0
          in scan (psar_step ks step mx) (dir, if dir = 1 then l else h, if dir = 1 then h else l, step) [0..<length ks])"

record ichimoku_point =
  ik_tenkan :: jsnum
  ik_kijun :: jsnum
  ik_senkou_a :: jsnum
  ik_senkou_b :: jsnum
  ik_cloud_top :: jsnum
  ik_cloud_bottom :: jsnum
  ik_chikou :: jsnum

definition midOf :: "kline list \<Rightarrow> nat \<Rightarrow> nat \<Rightarrow> jsnum" where
  "midOf ks period i = (if i + 1 < period then NaN
     else (highest (window period (highs ks) i) + lowest (window period (lows ks) i)) / Fin 2)"

definition senkou_a :: "kline list \<Rightarrow> nat \<Rightarrow> nat \<Rightarrow> nat \<Rightarrow> jsnum" where
  "senkou_a ks conversion base i = (let t = midOf ks conversion i; k = midOf ks base i in
     if is_fin t \<and> is_fin k then (t + k) / Fin 2 else NaN)"

definition ichimoku :: "kline list \<Rightarrow> nat \<Rightarrow> nat \<Rightarrow> nat \<Rightarrow> nat \<Rightarrow> ichimoku_point list" where
  "ichimoku ks conversion base spanB displacement = List.map (\<lambda>i.
     let a = (if displacement \<le> i then senkou_a ks conversion base (i - displacement) else NaN);
         b = (if displacement \<le> i then midOf ks spanB (i - displacement) else NaN);
         both = (is_fin a \<and> is_fin b)
     in \<lparr>ik_tenkan = midOf ks conversion i, ik_kijun = midOf ks base i, ik_senkou_a = senkou_a ks conversion base i,
         ik_senkou_b = midOf ks spanB i, ik_cloud_top = (if both then js_max a b else NaN),
         ik_cloud_bottom = (if both then js_min a b else NaN),
         ik_chikou = (if i + displacement < length ks then closes ks ! (i + displacement) else NaN)\<rparr>) [0..<length ks]"

section \<open>Volume\<close>

datatype vwap_anchor = Anchor_session | Anchor_day | Anchor_all

definition vwap_bucket :: "vwap_anchor \<Rightarrow> int \<Rightarrow> int" where
  "vwap_bucket anchor t = (case anchor of Anchor_all \<Rightarrow> 0 | Anchor_day \<Rightarrow> t div 86400000 | Anchor_session \<Rightarrow> t div 28800000)"

definition vwap_step :: "kline list \<Rightarrow> vwap_anchor \<Rightarrow> int option \<times> jsnum \<times> jsnum \<Rightarrow> nat \<Rightarrow> (int option \<times> jsnum \<times> jsnum) \<times> jsnum" where
  "vwap_step ks anchor = (\<lambda>(cur, cumPv, cumV) i.
     let b = vwap_bucket anchor (k_open_time (ks ! i)); v = volumes ks ! i; tp = typicalPrices ks ! i;
         (pv0, v0) = (if cur \<noteq> Some b then (Fin 0, Fin 0) else (cumPv, cumV));
         (pv1, v1) = (if is_fin v \<and> is_fin tp then (pv0 + tp * v, v0 + v) else (pv0, v0))
     in ((Some b, pv1, v1), if Fin 0 < v1 then pv1 / v1 else NaN))"

definition vwap :: "kline list \<Rightarrow> vwap_anchor \<Rightarrow> jsnum list" where
  "vwap ks anchor = scan (vwap_step ks anchor) (None, Fin 0, Fin 0) [0..<length ks]"

record volume_profile =
  vp_poc :: jsnum
  vp_vah :: jsnum
  vp_val :: jsnum
  vp_bins :: "(jsnum \<times> jsnum) list"

definition js_maxs :: "jsnum list \<Rightarrow> jsnum" where "js_maxs xs = foldl js_max NInf xs"

definition js_mins :: "jsnum list \<Rightarrow> jsnum" where "js_mins xs = foldl js_min PInf xs"

text \<open>The volume of a bar, spread evenly over the bins its range covers.\<close>

definition spread :: "nat \<Rightarrow> jsnum \<Rightarrow> jsnum \<Rightarrow> jsnum list \<Rightarrow> kline \<Rightarrow> jsnum list" where
  "spread bins lo step acc k = (let kh = js_number (k_high k); kl = js_number (k_low k); v = js_number (k_volume k) in
     if \<not> is_fin v \<or> v \<le> Fin 0 then acc
     else let a = js_max (Fin 0) (js_min (num (bins - 1)) (js_floor ((kl - lo) / step)));
              z = js_max (Fin 0) (js_min (num (bins - 1)) (js_floor ((kh - lo) / step)));
              share = v / (z - a + Fin 1)
          in List.map (\<lambda>b. if a \<le> num b \<and> num b \<le> z then acc ! b + share else acc ! b) [0..<length acc])"

definition peak :: "jsnum list \<Rightarrow> nat" where
  "peak acc = foldl (\<lambda>m b. if acc ! m < acc ! b then b else m) 0 [1..<length acc]"

text \<open>Growing the value area; every round takes one more bin, so \<open>length acc\<close> rounds are always enough.\<close>

fun grow :: "nat \<Rightarrow> jsnum list \<Rightarrow> jsnum \<Rightarrow> nat \<Rightarrow> nat \<Rightarrow> jsnum \<Rightarrow> nat \<times> nat" where
  "grow 0 acc target loIdx hiIdx covered = (loIdx, hiIdx)"
| "grow (Suc fuel) acc target loIdx hiIdx covered = (
     if covered < target \<and> (0 < loIdx \<or> hiIdx + 1 < length acc) then
       (let below = (if 0 < loIdx then acc ! (loIdx - 1) else Fin (- 1));
            above = (if hiIdx + 1 < length acc then acc ! (hiIdx + 1) else Fin (- 1))
        in if below \<le> above then grow fuel acc target loIdx (hiIdx + 1) (covered + js_max (Fin 0) above)
           else grow fuel acc target (loIdx - 1) hiIdx (covered + js_max (Fin 0) below))
     else (loIdx, hiIdx))"

definition volumeProfile :: "kline list \<Rightarrow> nat \<Rightarrow> nat \<Rightarrow> jsnum \<Rightarrow> volume_profile option" where
  "volumeProfile ks bins lookback valueAreaPct = (
     let win = drop (length ks - max 2 lookback) ks; hi = js_maxs (highs win); lo = js_mins (lows win) in
     if length win < 2 \<or> bins < 2 \<or> \<not> lo < hi then None
     else let step = (hi - lo) / num bins; acc = foldl (spread bins lo step) (replicate bins (Fin 0)) win;
              total = js_sum acc; price_of = (\<lambda>b. lo + step * (num b + lit (1/2))); poc = peak acc;
              (a, z) = grow bins acc (total * valueAreaPct) poc poc (acc ! poc)
          in Some \<lparr>vp_poc = price_of poc, vp_vah = lo + step * num (z + 1), vp_val = lo + step * num a,
                vp_bins = List.map (\<lambda>b. (price_of b, acc ! b)) [0..<bins]\<rparr>)"

section \<open>Ranks and swings\<close>

definition percentileRank :: "jsnum list \<Rightarrow> nat \<Rightarrow> jsnum list" where
  "percentileRank series_of w = List.map (\<lambda>i. let cur = series_of ! i in
     if \<not> is_fin cur then NaN
     else let vs = filter is_fin (window w series_of i); le = length (filter (\<lambda>v. v \<le> cur) vs)
          in if length vs < 5 then NaN else num le / num (length vs) * Fin 100) [0..<length series_of]"

definition swing_high :: "jsnum list \<Rightarrow> nat \<Rightarrow> nat \<Rightarrow> nat \<Rightarrow> bool" where
  "swing_high hi left right i = list_all (\<lambda>j. j = i \<or> \<not> hi ! i \<le> hi ! j) [i - left..<i + right + 1]"

definition swing_low :: "jsnum list \<Rightarrow> nat \<Rightarrow> nat \<Rightarrow> nat \<Rightarrow> bool" where
  "swing_low lo left right i = list_all (\<lambda>j. j = i \<or> \<not> lo ! j \<le> lo ! i) [i - left..<i + right + 1]"

definition swingPoints :: "kline list \<Rightarrow> nat \<Rightarrow> nat \<Rightarrow> (nat \<times> jsnum) list \<times> (nat \<times> jsnum) list" where
  "swingPoints ks left right = (let hi = highs ks; lo = lows ks; idx = [left..<length ks - right] in
     (List.map (\<lambda>i. (i, hi ! i)) (filter (swing_high hi left right) idx),
      List.map (\<lambda>i. (i, lo ! i)) (filter (swing_low lo left right) idx)))"

section \<open>Snapshot\<close>

datatype trend = Trend_up | Trend_down | Trend_flat

datatype trend_strength = Strength_none | Strength_weak | Strength_moderate | Strength_strong

datatype cloud_side = Cloud_above | Cloud_in | Cloud_below

record indicator_snapshot =
  is_tf :: string
  is_bars :: nat
  is_last_open_time :: int
  is_last_close :: jsnum
  is_ema20 :: "jsnum option"
  is_ema50 :: "jsnum option"
  is_ema200 :: "jsnum option"
  is_rsi14 :: "jsnum option"
  is_macd :: "macd_point option"
  is_bb :: "bollinger_point option"
  is_atr14 :: "jsnum option"
  is_atr_pct :: "jsnum option"
  is_atr_pct_rank_90 :: "jsnum option"
  is_bb_width_rank_90 :: "jsnum option"
  is_adx14 :: "adx_point option"
  is_vwap_day :: "jsnum option"
  is_vwap_session :: "jsnum option"
  is_dist_to_vwap_atr :: "jsnum option"
  is_donchian20 :: "donchian_point option"
  is_keltner20 :: "keltner_point option"
  is_squeeze :: "squeeze_point option"
  is_stoch :: "stoch_point option"
  is_stoch_rsi14 :: "jsnum option"
  is_cci20 :: "jsnum option"
  is_williams_r14 :: "jsnum option"
  is_mfi14 :: "jsnum option"
  is_natr14 :: "jsnum option"
  is_mom10 :: "jsnum option"
  is_roc10 :: "jsnum option"
  is_trix30 :: "jsnum option"
  is_aroon25 :: "aroon_point option"
  is_wma20 :: "jsnum option"
  is_dema20 :: "jsnum option"
  is_tema20 :: "jsnum option"
  is_stddev20 :: "jsnum option"
  is_ad :: "jsnum option"
  is_obv :: "jsnum option"
  is_obv_slope_10 :: "jsnum option"
  is_supertrend :: "dir_point option"
  is_psar :: "dir_point option"
  is_ichimoku :: "ichimoku_point option"
  is_price_vs_cloud :: "cloud_side option"
  is_volume_profile :: "(jsnum \<times> jsnum \<times> jsnum \<times> jsnum) option"
  is_swing_highs :: "(nat \<times> jsnum) list"
  is_swing_lows :: "(nat \<times> jsnum) list"
  is_trend :: trend
  is_trend_strength :: trend_strength

definition fin :: "jsnum option \<Rightarrow> jsnum option" where
  "fin v = (case v of Some n \<Rightarrow> if is_fin n then Some n else None | None \<Rightarrow> None)"

definition trendStrengthOf :: "jsnum option \<Rightarrow> trend_strength" where
  "trendStrengthOf v = (case v of None \<Rightarrow> Strength_none
     | Some a \<Rightarrow> if Fin 40 \<le> a then Strength_strong else if Fin 25 \<le> a then Strength_moderate
       else if Fin 20 \<le> a then Strength_weak else Strength_none)"

definition at_end :: "'a list \<Rightarrow> 'a option" where "at_end xs = (if xs = [] then None else Some (List.last xs))"

definition atr_pct_series :: "kline list \<Rightarrow> jsnum list" where
  "atr_pct_series ks = (let a = atr ks 14; cl = closes ks in
     List.map (\<lambda>i. if is_fin (a ! i) \<and> Fin 0 < cl ! i then a ! i / cl ! i * Fin 100 else NaN) [0..<length ks])"

definition obv_slope :: "jsnum list \<Rightarrow> jsnum option" where
  "obv_slope obvSeries = (if length obvSeries < 11 then None
     else let tail = drop (length obvSeries - 11) obvSeries;
              absStep = js_sum (List.map (\<lambda>i. \<bar>tail ! i - tail ! (i - 1)\<bar>) [1..<length tail]);
              mean = absStep / num (length tail - 1)
          in Some (if Fin 0 < mean then (List.last tail - hd tail) / (mean * num (length tail - 1)) else Fin 0))"

definition trend_of :: "jsnum option \<Rightarrow> jsnum option \<Rightarrow> jsnum option \<Rightarrow> trend" where
  "trend_of e20 e50 adxValue = (case (e20, e50, adxValue) of
     (Some a, Some b, Some x) \<Rightarrow> if x < Fin 20 then Trend_flat else if b < a then Trend_up else if a < b then Trend_down else Trend_flat
   | _ \<Rightarrow> Trend_flat)"

definition cloud_of :: "jsnum \<Rightarrow> ichimoku_point option \<Rightarrow> cloud_side option" where
  "cloud_of lastClose p = (case p of None \<Rightarrow> None
     | Some q \<Rightarrow> if \<not> is_fin (ik_cloud_top q) \<or> \<not> is_fin (ik_cloud_bottom q) then None
       else Some (if ik_cloud_top q < lastClose then Cloud_above else if lastClose < ik_cloud_bottom q then Cloud_below else Cloud_in))"

definition fins :: "jsnum list \<Rightarrow> bool" where "fins xs = list_all is_fin xs"

definition indicatorSnapshot :: "kline list \<Rightarrow> string \<Rightarrow> indicator_snapshot option" where
  "indicatorSnapshot ks tf = (if ks = [] then None else
     let lastK = List.last ks; lastClose = js_number (k_close lastK); cl = closes ks; atrPctSeries = atr_pct_series ks;
         bbSeries = bollinger cl 20 (Fin 2); obvSeries = obv ks; swings = swingPoints ks 3 3;
         atrLast = last_num (atr ks 14); atrPct = last_num atrPctSeries;
         adxLast = last_ready (\<lambda>p. fins [ax_adx p, ax_plus_di p, ax_minus_di p]) (adx ks 14);
         e20 = last_num (ema cl 20); e50 = last_num (ema cl 50); vwapDayLast = last_num (vwap ks Anchor_day);
         ichiLast = (case at_end (ichimoku ks 9 26 52 26) of None \<Rightarrow> None
           | Some p \<Rightarrow> if is_fin (ik_tenkan p) \<and> is_fin (ik_kijun p) then Some p else None);
         adxValue = fin (map_option ax_adx adxLast)
     in Some \<lparr>is_tf = tf, is_bars = length ks, is_last_open_time = k_open_time lastK, is_last_close = lastClose,
       is_ema20 = e20, is_ema50 = e50, is_ema200 = last_num (ema cl 200), is_rsi14 = last_num (rsi cl 14),
       is_macd = last_ready (\<lambda>p. fins [mc_macd p, mc_signal p, mc_hist p]) (macd cl 12 26 9),
       is_bb = last_ready (\<lambda>p. fins [bo_mid p, bo_upper p, bo_lower p, bo_width_pct p]) bbSeries,
       is_atr14 = atrLast, is_atr_pct = atrPct, is_atr_pct_rank_90 = last_num (percentileRank atrPctSeries 90),
       is_bb_width_rank_90 = last_num (percentileRank (List.map bo_width_pct bbSeries) 90), is_adx14 = adxLast,
       is_vwap_day = vwapDayLast, is_vwap_session = last_num (vwap ks Anchor_session),
       is_dist_to_vwap_atr = (case (vwapDayLast, atrLast) of
          (Some v, Some a) \<Rightarrow> if Fin 0 < a then Some ((lastClose - v) / a) else None | _ \<Rightarrow> None),
       is_donchian20 = last_ready (\<lambda>p. fins [dn_upper p, dn_lower p, dn_mid p]) (donchian ks 20),
       is_keltner20 = last_ready (\<lambda>p. fins [ke_mid p, ke_upper p, ke_lower p]) (keltner ks 20 (lit (3/2))),
       is_squeeze = (if 20 \<le> length ks then at_end (squeeze ks 20 (Fin 2) 20 (lit (3/2))) else None),
       is_stoch = last_ready (\<lambda>p. fins [sk_fast_k p, sk_k p, sk_d p]) (stochastic ks 14 3 3),
       is_stoch_rsi14 = last_num (stochRsi cl 14), is_cci20 = last_num (cci ks 20),
       is_williams_r14 = last_num (williamsR ks 14), is_mfi14 = last_num (mfi ks 14), is_natr14 = atrPct,
       is_mom10 = last_num (momentum cl 10), is_roc10 = last_num (roc cl 10), is_trix30 = last_num (trix cl 30),
       is_aroon25 = last_ready (\<lambda>p. fins [ar_up p, ar_down p, ar_osc p]) (aroon ks 25),
       is_wma20 = last_num (wma cl 20), is_dema20 = last_num (dema cl 20), is_tema20 = last_num (tema cl 20),
       is_stddev20 = last_num (stdev cl 20), is_ad = fin (at_end (chaikinAd ks)), is_obv = fin (at_end obvSeries),
       is_obv_slope_10 = obv_slope obvSeries,
       is_supertrend = last_ready (\<lambda>p. is_fin (dp_value p)) (supertrend ks 10 (Fin 3)),
       is_psar = last_ready (\<lambda>p. is_fin (dp_value p)) (psar ks (lit (2/100)) (lit (2/10))),
       is_ichimoku = ichiLast, is_price_vs_cloud = cloud_of lastClose ichiLast,
       is_volume_profile = map_option (\<lambda>vp. (vp_poc vp, vp_vah vp, vp_val vp,
          if Fin 0 < lastClose then (lastClose - vp_poc vp) / lastClose * Fin 100 else Fin 0)) (volumeProfile ks 24 120 (lit (7/10))),
       is_swing_highs = drop (length (fst swings) - 5) (fst swings), is_swing_lows = drop (length (snd swings) - 5) (snd swings),
       is_trend = trend_of e20 e50 adxValue, is_trend_strength = trendStrengthOf adxValue\<rparr>)"

end
