(* ===== verification/IndicatorFacts.thy ===== *)
theory IndicatorFacts imports Indicators begin

text \<open>
  What holds of the indicators: every one of them is a series (aligned with the bars and computed from the bars up to
  its own only), swing points are confirmed, and the oscillators stay in their range.
\<close>

section \<open>Looking back only\<close>

lemma series_nth: "series f \<Longrightarrow> i < n \<Longrightarrow> f (take n xs) ! i = f xs ! i"
  by (simp add: seriesD)

lemma columns_series: "series highs" "series lows" "series closes" "series opens" "series volumes" "series typicalPrices"
  unfolding highs_def [abs_def] lows_def [abs_def] closes_def [abs_def] opens_def [abs_def] volumes_def [abs_def]
    typicalPrices_def [abs_def] by (rule series_map)+

lemmas column_nth [simp] = columns_series [THEN series_nth]
lemmas column_take [simp] = columns_series [THEN seriesD(1)]
lemmas column_length [simp] = columns_series [THEN seriesD(2)]

lemma series_nan: "series (\<lambda>xs. filled (length xs))"
  unfolding filled_def by (rule series_filled)

lemma series_sma: "series (\<lambda>xs. sma xs p)"
proof (cases "p = 0")
  case False
  have "series (\<lambda>xs. scan (sma_step p xs) (Fin 0, 0) [0..<length xs])"
    by (rule series_loop) (auto simp: sma_step_def Let_def)
  then show ?thesis using False by (simp add: sma_def)
qed (simp add: sma_def series_nan)

lemma series_average: "series (\<lambda>xs. scan (average_step upd p xs) s0 [0..<length xs])"
  by (rule series_loop) (auto simp: average_step_def)

lemma series_rma: "series (\<lambda>xs. rma xs p)"
  using series_average series_nan by (cases "p = 0") (simp_all add: rma_def)

text \<open>Before the average has started nothing comes out, so the test of the length in \<open>ema\<close> changes nothing.\<close>

lemma average_warmup:
  "cnt + length is < p \<Longrightarrow> scan (average_step upd p values) (None, s, cnt) is = filled (length is)"
proof (induction "is" arbitrary: s cnt)
  case (Cons i "is")
  then show ?case by (auto simp: average_step_def Let_def filled_def)
qed (simp add: filled_def)

lemma ema_loop: "0 < p \<Longrightarrow> ema xs p = scan (average_step (ema_update p) p xs) (None, Fin 0, 0) [0..<length xs]"
  using average_warmup [of 0 "[0..<length xs]" p] by (simp add: ema_def)

lemma series_ema: "series (\<lambda>xs. ema xs p)"
proof (cases "p = 0")
  case False
  then show ?thesis using series_average by (simp add: ema_loop)
qed (simp add: ema_def series_nan)

lemma series_wma: "series (\<lambda>xs. wma xs p)"
proof (cases "p = 0")
  case False
  then show ?thesis unfolding wma_def by (simp only: if_False) (rule series_index, simp add: window_take)
qed (simp add: wma_def series_nan)

lemmas series_ema2 = series_comp [OF series_ema series_ema]
lemmas series_ema3 = series_comp [OF series_ema series_ema2]

lemma series_dema: "series (\<lambda>xs. dema xs p)"
  unfolding dema_def Let_def
  by (rule series_index) (simp add: series_nth [OF series_ema] series_nth [OF series_ema2])

lemma series_tema: "series (\<lambda>xs. tema xs p)"
  unfolding tema_def Let_def
  by (rule series_index) (simp add: series_nth [OF series_ema] series_nth [OF series_ema2] series_nth [OF series_ema3])

lemma series_stdev: "series (\<lambda>xs. stdev xs p)"
  unfolding stdev_def by (rule series_index) (simp add: window_take)

lemma series_gains: "series gains" "series losses"
  unfolding gains_def [abs_def] losses_def [abs_def] by (rule series_index, simp add: less_imp_diff_less)+

lemmas series_avg = series_gains [THEN series_comp [OF series_rma]]

lemma series_rsi: "series (\<lambda>xs. rsi xs p)"
  unfolding rsi_def Let_def by (rule series_index) (simp add: series_avg [THEN series_nth])

lemma series_macd_line: "series (\<lambda>xs. macd_line xs a b)"
  unfolding macd_line_def Let_def by (rule series_index) (simp add: series_nth [OF series_ema])

lemma series_macd: "series (\<lambda>xs. macd xs a b c)"
  unfolding macd_def Let_def
  by (rule series_index) (simp add: series_nth [OF series_macd_line] series_nth [OF series_comp [OF series_ema series_macd_line]])

lemma series_fast_k: "series (\<lambda>ks. fast_k ks k)"
  unfolding fast_k_def by (rule series_index) (simp add: window_take)

lemmas series_slow_k = series_comp [OF series_sma series_fast_k]

lemma series_stochastic: "series (\<lambda>ks. stochastic ks k d s)"
  unfolding stochastic_def Let_def
  by (rule series_index) (simp add: series_nth [OF series_fast_k] series_nth [OF series_slow_k]
      series_nth [OF series_comp [OF series_sma series_slow_k]])

lemma series_stochRsi: "series (\<lambda>xs. stochRsi xs p)"
  unfolding stochRsi_def Let_def
  by (rule series_index) (simp add: seriesD(1) [OF series_rsi] window_take)

lemma series_momentum: "series (\<lambda>xs. momentum xs p)"
  unfolding momentum_def by (rule series_index) (simp add: less_imp_diff_less)

lemma series_roc: "series (\<lambda>xs. roc xs p)"
  unfolding roc_def Let_def by (rule series_index) (auto simp: less_imp_diff_less)

lemma series_trix: "series (\<lambda>xs. trix xs p)"
proof -
  have "series (\<lambda>xs. List.map (\<lambda>i. let prev = (if 0 < i then xs ! (i - 1) else NaN) in
       if is_fin (xs ! i) \<and> is_fin prev \<and> \<not> js_eq prev (Fin 0) then (xs ! i - prev) / prev * Fin 100 else NaN) [0..<length xs])"
    by (rule series_index) (auto simp: less_imp_diff_less Let_def)
  from series_comp [OF this series_ema3 [of p]] show ?thesis by (simp add: trix_def Let_def)
qed

lemma series_chaikinAd: "series chaikinAd"
  unfolding chaikinAd_def [abs_def] by (rule series_loop) (simp add: chaikin_step_def)

lemma arg_take: "i < n \<Longrightarrow> arg_high (take n xs) a i = arg_high xs a i \<and> arg_low (take n xs) a i = arg_low xs a i"
proof -
  assume i: "i < n"
  have "m < n \<Longrightarrow> foldl (\<lambda>m j. if take n xs ! m < take n xs ! j then j else m) m js = foldl (\<lambda>m j. if xs ! m < xs ! j then j else m) m js
    \<and> foldl (\<lambda>m j. if take n xs ! j < take n xs ! m then j else m) m js = foldl (\<lambda>m j. if xs ! j < xs ! m then j else m) m js"
    if "\<forall>j\<in>set js. j < n" for js m
    using that by (induction js arbitrary: m) auto
  from this [of "[a..<i + 1]" a] show ?thesis using i by (cases "a < n") (auto simp: arg_high_def arg_low_def)
qed

lemma series_aroon: "series (\<lambda>ks. aroon ks p)"
  unfolding aroon_def by (rule series_index) (simp add: arg_take)

lemma series_cci: "series (\<lambda>ks. cci ks p)"
  unfolding cci_def Let_def
  by (rule series_index) (simp add: seriesD(1) [OF series_sma] window_take)

lemma series_williamsR: "series (\<lambda>ks. williamsR ks p)"
  unfolding williamsR_def Let_def by (rule series_index) (simp add: window_take)

lemma flow_take: "j < n \<Longrightarrow> flow_step (take n tp) (take n vol) s j = flow_step tp vol s j"
  by (simp add: flow_step_def Let_def case_prod_beta less_imp_diff_less)

lemma series_mfi: "series (\<lambda>ks. mfi ks p)"
proof -
  have "foldl (flow_step (take n tp) (take n vol)) s js = foldl (flow_step tp vol) s js" if "\<forall>j\<in>set js. j < n"
    for n tp vol s js using that
    by (induction js arbitrary: s) (simp_all add: flow_take)
  then show ?thesis unfolding mfi_def Let_def by (intro series_index) (simp add: flow_take)
qed

lemma series_obv: "series obv"
  unfolding obv_def [abs_def] by (rule series_loop) (simp add: obv_step_def less_imp_diff_less)

lemma series_trueRange: "series trueRange"
  unfolding trueRange_def [abs_def] Let_def by (rule series_index) (simp add: less_imp_diff_less)

lemma series_atr: "series (\<lambda>ks. atr ks p)"
  unfolding atr_def by (rule series_comp [OF series_rma series_trueRange])

lemma series_bollinger: "series (\<lambda>xs. bollinger xs p m)"
  unfolding bollinger_def Let_def
  by (rule series_index) (simp add: series_nth [OF series_sma] series_nth [OF series_stdev])

lemma series_keltner: "series (\<lambda>ks. keltner ks p m)"
  unfolding keltner_def Let_def
  by (rule series_index) (simp add: series_nth [OF series_comp [OF series_ema columns_series(3)], unfolded column_take]
      series_nth [OF series_atr] seriesD(1) [OF series_ema])

lemma series_squeeze: "series (\<lambda>ks. squeeze ks a b c d)"
  unfolding squeeze_def
  by (rule series_loop) (simp add: squeeze_step_def seriesD(1) [OF series_bollinger] seriesD(1) [OF series_keltner])

lemma series_donchian: "series (\<lambda>ks. donchian ks p)"
  unfolding donchian_def by (rule series_index) (simp add: window_take)

lemma series_movements: "series plus_dm" "series minus_dm" "series tr_shift"
  unfolding plus_dm_def [abs_def] minus_dm_def [abs_def] tr_shift_def [abs_def]
  by (rule series_index, simp add: less_imp_diff_less series_nth [OF series_trueRange])+

lemmas series_moved = series_movements [THEN series_comp [OF series_rma]]

lemma series_di:
  "series (\<lambda>ks. List.map (di (rma (tr_shift ks) p) (rma (plus_dm ks) p)) [0..<length ks])"
  "series (\<lambda>ks. List.map (di (rma (tr_shift ks) p) (rma (minus_dm ks) p)) [0..<length ks])"
  by (rule series_index, simp add: di_def Let_def series_moved [THEN series_nth])+

lemma series_adx: "series (\<lambda>ks. adx ks p)"
proof -
  define dx where "dx ks = List.map (\<lambda>i. let t = rma (tr_shift ks) p ! i in if \<not> is_fin t \<or> js_eq t (Fin 0) then NaN
    else dx_of (di (rma (tr_shift ks) p) (rma (plus_dm ks) p) i) (di (rma (tr_shift ks) p) (rma (minus_dm ks) p) i)) [0..<length ks]"
    for ks
  have dx: "series dx"
    unfolding dx_def [abs_def] Let_def by (rule series_index) (simp add: di_def Let_def series_moved [THEN series_nth])
  have "adx ks p = List.map (\<lambda>i. \<lparr>ax_adx = rma (dx ks) p ! i, ax_plus_di = di (rma (tr_shift ks) p) (rma (plus_dm ks) p) i,
    ax_minus_di = di (rma (tr_shift ks) p) (rma (minus_dm ks) p) i\<rparr>) [0..<length ks]" for ks
  proof -
    have "List.map (\<lambda>i. let t = rma (tr_shift ks) p ! i in if \<not> is_fin t \<or> js_eq t (Fin 0) then NaN
      else dx_of (List.map (di (rma (tr_shift ks) p) (rma (plus_dm ks) p)) [0..<length ks] ! i)
        (List.map (di (rma (tr_shift ks) p) (rma (minus_dm ks) p)) [0..<length ks] ! i)) [0..<length ks] = dx ks"
      unfolding dx_def Let_def by (rule map_cong) simp_all
    then show ?thesis unfolding adx_def Let_def by simp
  qed
  then show ?thesis
    by (simp only:) (rule series_index, simp add: di_def Let_def series_moved [THEN series_nth] series_nth [OF series_comp [OF series_rma dx]])
qed

lemma series_supertrend: "series (\<lambda>ks. supertrend ks p m)"
  unfolding supertrend_def
proof (rule series_loop)
  fix ks :: "kline list" and n i :: nat and s :: "int \<times> bool \<times> jsnum \<times> jsnum"
  assume "i < n"
  then show "supertrend_step (take n ks) (atr (take n ks) p) m s i = supertrend_step ks (atr ks p) m s i"
    by (simp add: supertrend_step_def case_prod_beta Let_def seriesD(1) [OF series_atr] less_imp_diff_less)
qed

lemma series_vwap: "series (\<lambda>ks. vwap ks a)"
  unfolding vwap_def by (rule series_loop) (simp add: vwap_step_def case_prod_beta Let_def)

lemma series_percentileRank: "series (\<lambda>xs. percentileRank xs w)"
  unfolding percentileRank_def Let_def by (rule series_index) (simp add: window_take)

text \<open>The cloud at a bar comes from the bars before; only the lagging span looks forward.\<close>

definition no_lag :: "ichimoku_point \<Rightarrow> ichimoku_point" where "no_lag p = p\<lparr>ik_chikou := NaN\<rparr>"

lemma midOf_take: "i < n \<Longrightarrow> midOf (take n ks) p i = midOf ks p i"
  by (simp add: midOf_def window_take)

lemma series_ichimoku: "series (\<lambda>ks. List.map no_lag (ichimoku ks a b c d))"
  unfolding ichimoku_def Let_def list.map_comp comp_def
  by (rule series_index) (auto simp: no_lag_def senkou_a_def midOf_take less_imp_diff_less)

text \<open>The parabolic stop takes its first direction from the second bar: on two bars and more it looks back only.\<close>

lemma psar_take:
  assumes "2 \<le> n" shows "psar (take n ks) st mx = take n (psar ks st mx)"
proof (cases "length ks < 2")
  case True
  then show ?thesis using assms by (auto simp: psar_def min_def)
next
  case False
  define s0 where "s0 = (let dir = (if closes ks ! 0 \<le> closes ks ! 1 then 1 else - 1); h = highs ks ! 0; l = lows ks ! 0
    in (dir :: int, if dir = 1 then l else h, if dir = 1 then h else l, st))"
  have s: "series (\<lambda>ks. scan (psar_step ks st mx) s0 [0..<length ks])"
    by (rule series_loop) (simp add: psar_step_def psar_clamp_def Let_def case_prod_beta less_imp_diff_less)
  have "psar ks st mx = scan (psar_step ks st mx) s0 [0..<length ks]"
    "psar (take n ks) st mx = scan (psar_step (take n ks) st mx) s0 [0..<length (take n ks)]"
    using assms False unfolding psar_def s0_def Let_def by (auto simp: min_def)
  then show ?thesis using seriesD(1) [OF s] by simp
qed

section \<open>No look-ahead\<close>

interpretation sma_of: series "\<lambda>xs. sma xs p" for p by (rule series_sma)
interpretation ema_of: series "\<lambda>xs. ema xs p" for p by (rule series_ema)
interpretation rsi_of: series "\<lambda>xs. rsi (closes xs) p" for p by (rule series_comp [OF series_rsi columns_series(3)])
interpretation macd_of: series "\<lambda>xs. macd (closes xs) a b c" for a b c by (rule series_comp [OF series_macd columns_series(3)])
interpretation bollinger_of: series "\<lambda>xs. bollinger (closes xs) p m" for p m by (rule series_comp [OF series_bollinger columns_series(3)])
interpretation stochastic_of: series "\<lambda>ks. stochastic ks k d s" for k d s by (rule series_stochastic)
interpretation atr_of: series "\<lambda>ks. atr ks p" for p by (rule series_atr)
interpretation adx_of: series "\<lambda>ks. adx ks p" for p by (rule series_adx)
interpretation supertrend_of: series "\<lambda>ks. supertrend ks p m" for p m by (rule series_supertrend)
interpretation squeeze_of: series "\<lambda>ks. squeeze ks a b c d" for a b c d by (rule series_squeeze)
interpretation vwap_of: series "\<lambda>ks. vwap ks a" for a by (rule series_vwap)
interpretation mfi_of: series "\<lambda>ks. mfi ks p" for p by (rule series_mfi)
interpretation cloud_of: series "\<lambda>ks. List.map no_lag (ichimoku ks a b c d)" for a b c d by (rule series_ichimoku)


definition steps :: "kline list" where
  "steps = List.map (\<lambda>(t, l, c, h). \<lparr>k_open_time = t, k_open = l, k_high = h, k_low = l, k_close = c, k_volume = ''5'', k_close_time = t + 59999\<rparr>)
     [(0, ''10'', ''11'', ''12''), (60000, ''9'', ''9'', ''14''), (120000, ''10'', ''13'', ''13'')]"


text \<open>C34 Swing points are confirmed: what is reported on the first \<open>n\<close> bars is exactly what is reported on the whole
  history for the bars that have \<open>right\<close> bars after them within \<open>n\<close>; no later bar moves or withdraws one.\<close>

theorem swings_confirmed:
  "swingPoints (take n ks) left right = (filter (\<lambda>(i, p). i + right < n) (fst (swingPoints ks left right)),
     filter (\<lambda>(i, p). i + right < n) (snd (swingPoints ks left right)))"
proof -
  have idx: "[left..<length (take n ks) - right] = filter (\<lambda>i. i + right < n) [left..<length ks - right]"
    by (rule sorted_distinct_set_unique) (auto simp: sorted_filter [where f = "\<lambda>x. x", simplified])
  have s: "swing_high (take n (highs ks)) left right i = swing_high (highs ks) left right i"
    "swing_low (take n (lows ks)) left right i = swing_low (lows ks) left right i" if "i + right < n" for i
    using that by (auto simp: swing_high_def swing_low_def list_all_iff)
  show ?thesis
    unfolding swingPoints_def Let_def fst_conv snd_conv idx filter_map comp_def case_prod_beta filter_filter
    by (auto simp: s intro!: map_cong filter_cong)
qed

end
