(* ===== verification/IndicatorRanges.thy ===== *)
theory IndicatorRanges imports IndicatorFacts begin

text \<open>
  The oscillators stay in their range whatever the bars hold and however the operations round: a value is NaN or
  between the bounds.
\<close>

section \<open>Ranges\<close>

definition nn :: "jsnum \<Rightarrow> bool" where "nn a = (a = NaN \<or> Fin 0 \<le> a)"

definition pct :: "jsnum \<Rightarrow> bool" where "pct a = (a = NaN \<or> Fin 0 \<le> a \<and> a \<le> Fin 100)"

lemma dbl_100: "dbl (Fin 100)" using dbl_numeral [of "num.Bit0 (num.Bit0 (num.Bit1 (num.Bit0 (num.Bit0 (num.Bit1 num.One)))))"] by simp

lemma range_simps [simp]: "nn NaN" "pct NaN" "nn (Fin 0)" "pct (Fin 0)" "pct (Fin 50)" "pct (Fin 100)" "nn (num n)"
  by (auto simp: nn_def pct_def intro: rnd_ge)

lemma pct_nn: "pct a \<Longrightarrow> nn a"
  by (auto simp: nn_def pct_def)

lemma nn_add: "nn a \<Longrightarrow> nn b \<Longrightarrow> nn (a + b)"
  using js_add_nonneg [of a b] by (auto simp: nn_def)

lemma nn_mul: "nn a \<Longrightarrow> nn b \<Longrightarrow> nn (a * b)"
  by (cases a; cases b) (auto simp: nn_def sgn_if intro: rnd_ge)

lemma nn_div: "nn a \<Longrightarrow> nn b \<Longrightarrow> nn (a / b)"
  by (cases a; cases b) (auto simp: nn_def intro: rnd_ge)

lemma nn_abs: "nn \<bar>a\<bar>"
  by (cases a) (auto simp: nn_def)

text \<open>A part of a whole, in percent.\<close>

lemma part_pct: "nn a \<Longrightarrow> a \<le> b \<Longrightarrow> pct (a / b * Fin 100)"
proof (cases a; cases b)
  fix x y assume a: "nn a" "a \<le> b" "a = Fin x" "b = Fin y"
  then have xy: "0 \<le> x" "x \<le> y" by (auto simp: nn_def)
  show ?thesis
  proof (cases "y = 0")
    case False
    then have q: "0 \<le> x / y" "x / y \<le> 1" using xy by auto
    then have "Fin 0 \<le> rnd (x / y)" "rnd (x / y) \<le> Fin 1" by (auto intro: rnd_ge rnd_le)
    then obtain r where r: "rnd (x / y) = Fin r" "0 \<le> r" "r \<le> 1" by (cases "rnd (x / y)") auto
    then have "Fin 0 \<le> rnd (r * 100)" "rnd (r * 100) \<le> Fin 100" by (auto intro: rnd_ge rnd_le dbl_100)
    then show ?thesis using a r False by (simp add: pct_def)
  qed (use a xy in simp)
qed (auto simp: nn_def)

lemma part_pct': "nn a \<Longrightarrow> a \<le> b \<or> a = NaN \<or> b = NaN \<Longrightarrow> pct (a / b * Fin 100)"
  using part_pct [of a b] by (cases a; cases b; auto)

text \<open>The complement of a percentage.\<close>

lemma rest_pct: "pct a \<Longrightarrow> pct (Fin 100 - a)"
  by (cases a) (auto simp: pct_def minus_jsnum_def intro: rnd_ge rnd_le dbl_100)

lemma share_pct: "Fin 1 \<le> z \<Longrightarrow> pct (Fin 100 / z)"
  by (cases z) (auto simp: pct_def field_simps intro!: rnd_ge rnd_le dbl_100)

lemma strength_pct: "nn g \<Longrightarrow> nn l \<Longrightarrow> pct (strength_index g l)"
proof -
  assume n: "nn g" "nn l"
  then have q: "nn (g / l)" by (rule nn_div)
  have "pct (Fin 100 - Fin 100 / (Fin 1 + g / l))"
  proof (cases "g / l = NaN")
    case False
    then have "Fin 0 \<le> g / l" using q by (simp add: nn_def)
    then have "Fin 1 \<le> Fin 1 + g / l" by (cases "g / l") (auto intro: rnd_ge)
    then show ?thesis by (intro rest_pct share_pct)
  qed simp
  then show ?thesis by (simp add: strength_index_def)
qed

text \<open>The place of a value between two extremes.\<close>

lemma place_pct: "ll \<le> c \<Longrightarrow> c \<le> hh \<Longrightarrow> pct (place c hh ll)"
proof -
  assume le: "ll \<le> c" "c \<le> hh"
  have "nn (c - ll)" "c - ll = NaN \<or> hh - ll = NaN \<or> c - ll \<le> hh - ll"
    using le by (cases ll; cases c; cases hh; auto simp: nn_def minus_jsnum_def intro: rnd_ge rnd_mono)+
  then have "pct ((c - ll) / (hh - ll) * Fin 100)" by (intro part_pct') auto
  then show ?thesis by (simp add: place_def)
qed

section \<open>Averages\<close>

lemma average_range:
  assumes "\<forall>v\<in>set values. P v"
    and upd: "\<And>a v. P a \<Longrightarrow> P v \<Longrightarrow> P (upd a v)" and NaN: "P NaN"
    and S: "S 0 (Fin 0)" "\<And>n s v. n < p \<Longrightarrow> S n s \<Longrightarrow> P v \<Longrightarrow> S (Suc n) (s + v)" "\<And>s. S p s \<Longrightarrow> P (s / num p)"
    and js: "\<forall>i\<in>set js. i < length values" and "0 < p"
  shows "\<forall>y\<in>set (scan (average_step upd p values) (None, Fin 0, 0) js). P y"
proof (rule scan_invariant [where I = "\<lambda>(prev, s, n). case prev of Some a \<Rightarrow> P a | None \<Rightarrow> n < p \<and> S n s"])
  show "case (None, Fin 0, 0) of (prev, s, n) \<Rightarrow> case prev of Some a \<Rightarrow> P a | None \<Rightarrow> n < p \<and> S n s" using S assms by simp
next
  fix st i assume i: "i \<in> set js" and I: "case st of (prev, s, n) \<Rightarrow> case prev of Some a \<Rightarrow> P a | None \<Rightarrow> n < p \<and> S n s"
  obtain prev s n where st: "st = (prev, s, n)" by (cases st)
  have v: "P (values ! i)" using assms(1) js i by simp
  show "(case fst (average_step upd p values st i) of (prev, s, n) \<Rightarrow> case prev of Some a \<Rightarrow> P a | None \<Rightarrow> n < p \<and> S n s)
    \<and> P (snd (average_step upd p values st i))"
  proof (cases prev)
    case None
    then have s: "S (Suc n) (s + values ! i)" "n < p" using I st v S(2) by simp_all
    show ?thesis
    proof (cases "Suc n = p")
      case True
      then show ?thesis using I st None s S(3) NaN by (simp add: average_step_def Let_def)
    qed (use I st None s NaN in \<open>simp add: average_step_def Let_def\<close>)
  qed (use I st v upd NaN in \<open>simp add: average_step_def Let_def\<close>)
qed

lemma rma_nn:
  assumes "\<forall>v\<in>set values. nn v" shows "\<forall>v\<in>set (rma values p). nn v"
proof (cases "p = 0")
  case False
  have "nn (rma_update p a v)" if "nn a" "nn v" for a v
    unfolding rma_update_def by (intro nn_div nn_add nn_mul that range_simps)
  then have "\<forall>y\<in>set (scan (average_step (rma_update p) p values) (None, Fin 0, 0) [0..<length values]). nn y"
    by (intro average_range [where S = "\<lambda>_. nn"]) (use assms False in \<open>auto intro: nn_add nn_div\<close>)
  then show ?thesis using False by (simp add: rma_def)
qed (simp add: rma_def filled_def)

definition upto :: "nat \<Rightarrow> jsnum \<Rightarrow> bool" where
  "upto n a = (a = NaN \<or> Fin 0 \<le> a \<and> a \<le> Fin (of_nat (100 * n)))"

lemma dbl_nat: "n \<le> 2 ^ 53 \<Longrightarrow> dbl (Fin (of_nat n))"
  using dbl_int [of "int n"] by simp

lemma pct_upto: "pct a = upto 1 a" by (simp add: pct_def upto_def)

lemma upto_add: "upto n a \<Longrightarrow> upto m b \<Longrightarrow> 100 * (n + m) \<le> 2 ^ 53 \<Longrightarrow> upto (n + m) (a + b)"
proof -
  assume u: "upto n a" "upto m b" and le: "100 * (n + m) \<le> 2 ^ 53"
  have "dbl (Fin (of_nat (100 * (n + m))))" by (rule dbl_nat [OF le])
  then show ?thesis using u by (cases a; cases b) (auto simp: upto_def algebra_simps intro!: rnd_ge rnd_le)
qed

lemma upto_mul: "pct a \<Longrightarrow> 100 * n \<le> 2 ^ 53 \<Longrightarrow> upto n (a * num n)"
proof -
  assume a: "pct a" and le: "100 * n \<le> 2 ^ 53"
  have d: "dbl (Fin (of_nat (100 * n)))" by (rule dbl_nat [OF le])
  have n: "num n = Fin (of_nat n)" using le by (intro rnd_of_nat) simp
  show ?thesis using a d n
    by (cases a) (auto simp: upto_def pct_def mult_right_mono intro!: rnd_ge rnd_le)
qed

lemma upto_div: "upto n a \<Longrightarrow> 0 < n \<Longrightarrow> n \<le> 2 ^ 53 \<Longrightarrow> pct (a / num n)"
  by (cases a) (auto simp: upto_def pct_def rnd_of_nat divide_le_eq mult.commute intro!: rnd_ge rnd_le dbl_100)

lemma rma_pct:
  assumes "\<forall>v\<in>set values. pct v" and p: "100 * p \<le> 2 ^ 53"
  shows "\<forall>v\<in>set (rma values p). pct v"
proof (cases "p = 0")
  case False
  have p': "100 * (p - 1 + 1) \<le> 2 ^ 53" "p - 1 + 1 = p" using False p by simp_all
  have "pct (rma_update p a v)" if a: "pct a" "pct v" for a v
  proof -
    have "upto (p - 1) (a * num (p - 1))" using a p by (intro upto_mul) auto
    then have "upto p (a * num (p - 1) + v)" using upto_add [of "p - 1" _ 1 v] a p' by (simp add: pct_upto)
    then show ?thesis unfolding rma_update_def using False p by (intro upto_div) auto
  qed
  then have "\<forall>y\<in>set (scan (average_step (rma_update p) p values) (None, Fin 0, 0) [0..<length values]). pct y"
  proof (intro average_range [where S = upto])
    show "upto 0 (Fin 0)" by (simp add: upto_def)
    show "upto (Suc n) (s + v)" if "n < p" "upto n s" "pct v" for n s v
      using upto_add [of n s 1 v] that p by (simp add: pct_upto)
    show "pct (s / num p)" if "upto p s" for s using that False p by (intro upto_div) auto
  qed (use assms False in auto)
  then show ?thesis using False by (simp add: rma_def)
qed (simp add: rma_def filled_def)

section \<open>The oscillators\<close>

lemma moves_nn: "\<forall>v\<in>set (gains cl). nn v" "\<forall>v\<in>set (losses cl). nn v"
proof -
  have "Fin 0 \<le> - d" if "d < Fin 0" for d using that by (cases d) auto
  then show "\<forall>v\<in>set (gains cl). nn v" "\<forall>v\<in>set (losses cl). nn v"
    by (auto simp: gains_def losses_def Let_def nn_def intro: js_less_imp_le)
qed

lemma nn_nth: "series f \<Longrightarrow> \<forall>v\<in>set (f xs). P v \<Longrightarrow> i < length xs \<Longrightarrow> P (f xs ! i)"
  by (simp add: seriesD)

lemma moved_nn: "i < length cl \<Longrightarrow> nn (rma (gains cl) p ! i) \<and> nn (rma (losses cl) p ! i)"
  using nn_nth [OF series_avg(1) rma_nn [OF moves_nn(1)]] nn_nth [OF series_avg(2) rma_nn [OF moves_nn(2)]] by blast

lemma rsi_pct: "\<forall>v\<in>set (rsi cl p). pct v"
  using moved_nn [of _ cl p] by (auto simp: rsi_def Let_def strength_pct)

lemma between_extremes: "x \<in> set xs \<Longrightarrow> x \<noteq> NaN \<Longrightarrow> pct (place x (highest xs) (lowest xs))"
  by (intro place_pct highest_ge lowest_le)

lemma stochRsi_pct: "\<forall>v\<in>set (stochRsi cl p). pct v"
proof -
  have "pct (place (r ! i) (highest w) (lowest w))"
    if w: "w = filter is_fin (window p r i)" and "is_fin (r ! i)" and l: "\<not> length w < p" for r w i
  proof (cases "p = 0")
    case True
    then have "w = []" using w by (simp add: window_def)
    then show ?thesis using that by (cases "r ! i") (auto simp: place_def highest_def lowest_def js_eq_def minus_jsnum_def)
  next
    case False
    then have "r ! i \<in> set w" using that by (auto simp: window_def)
    then show ?thesis using that by (intro between_extremes) auto
  qed
  then show ?thesis by (auto simp: stochRsi_def Let_def)
qed

lemma percentileRank_pct: "\<forall>v\<in>set (percentileRank xs w). pct v"
proof -
  have "pct (num (length (filter P vs)) / num (length vs) * Fin 100)" for P and vs :: "jsnum list"
    by (rule part_pct) (auto intro!: rnd_mono)
  then show ?thesis by (auto simp: percentileRank_def Let_def simp del: filter_filter)
qed

text \<open>A bar is sound when its low, close and high are in order and its prices and its volume are not negative.\<close>

definition sound_bar :: "kline \<Rightarrow> bool" where
  "sound_bar k = (Fin 0 \<le> js_number (k_low k) \<and> js_number (k_low k) \<le> js_number (k_close k) \<and>
     js_number (k_close k) \<le> js_number (k_high k) \<and> nn (js_number (k_volume k)))"

lemma sound_columns:
  assumes "list_all sound_bar ks" "i < length ks"
  shows "lows ks ! i \<le> closes ks ! i" "closes ks ! i \<le> highs ks ! i" "nn (volumes ks ! i)" "nn (typicalPrices ks ! i)"
proof -
  have b: "sound_bar (ks ! i)" using assms by (simp add: list_all_length)
  then show "lows ks ! i \<le> closes ks ! i" "closes ks ! i \<le> highs ks ! i" "nn (volumes ks ! i)"
    using assms by (simp_all add: lows_def closes_def highs_def volumes_def sound_bar_def)
  have o: "Fin 0 \<le> js_number (k_low (ks ! i))" "js_number (k_low (ks ! i)) \<le> js_number (k_close (ks ! i))"
    "js_number (k_close (ks ! i)) \<le> js_number (k_high (ks ! i))" using b by (simp_all only: sound_bar_def)
  note c = js_le_trans [OF o(1,2)]
  note h = js_le_trans [OF c o(3)]
  have three: "nn (Fin 3)" by (simp add: nn_def)
  have "nn ((js_number (k_high (ks ! i)) + js_number (k_low (ks ! i)) + js_number (k_close (ks ! i))) / Fin 3)"
    by (intro nn_div nn_add three) (simp_all only: nn_def o c h simp_thms)
  then show "nn (typicalPrices ks ! i)" using assms(2) by (simp add: typicalPrices_def)
qed

lemma window_extremes:
  assumes "list_all sound_bar ks" "i < length ks" "0 < p"
  shows "closes ks ! i \<le> highest (window p (highs ks) i)" "lowest (window p (lows ks) i) \<le> closes ks ! i"
proof -
  have "highs ks ! i \<in> set (window p (highs ks) i)" "lows ks ! i \<in> set (window p (lows ks) i)"
    using assms(3) by (auto simp: window_def)
  then have "highs ks ! i \<le> highest (window p (highs ks) i)" "lowest (window p (lows ks) i) \<le> lows ks ! i"
    using sound_columns(1,2) [OF assms(1,2)] js_le_not_NaN by (auto intro: highest_ge lowest_le)
  then show "closes ks ! i \<le> highest (window p (highs ks) i)" "lowest (window p (lows ks) i) \<le> closes ks ! i"
    using sound_columns(1,2) [OF assms(1,2)] by (auto intro: js_le_trans)
qed

lemma fast_k_pct: "list_all sound_bar ks \<Longrightarrow> 0 < k \<Longrightarrow> \<forall>v\<in>set (fast_k ks k). pct v"
  by (auto simp: fast_k_def intro!: place_pct window_extremes)

lemma mfi_pct: "list_all sound_bar ks \<Longrightarrow> \<forall>v\<in>set (mfi ks p). pct v"
proof -
  assume s: "list_all sound_bar ks"
  have flows: "nn (fst st) \<and> nn (snd st) \<Longrightarrow> \<forall>j\<in>set js. j < length ks \<Longrightarrow>
    nn (fst (foldl (flow_step (typicalPrices ks) (volumes ks)) st js)) \<and>
    nn (snd (foldl (flow_step (typicalPrices ks) (volumes ks)) st js))" for st js
  proof (induction js arbitrary: st)
    case (Cons j js)
    have "nn (typicalPrices ks ! j * volumes ks ! j)" using s Cons.prems by (intro nn_mul sound_columns) auto
    then have "nn (fst (flow_step (typicalPrices ks) (volumes ks) st j)) \<and> nn (snd (flow_step (typicalPrices ks) (volumes ks) st j))"
      using Cons.prems by (auto simp: flow_step_def case_prod_beta Let_def intro: nn_add)
    then show ?case using Cons by simp
  qed simp
  have "pct (case foldl (flow_step (typicalPrices ks) (volumes ks)) (Fin 0, Fin 0) [i + 1 - p..<i + 1] of (a, b) \<Rightarrow> strength_index a b)"
    if "i < length ks" for i
    unfolding case_prod_beta using flows [of "(Fin 0, Fin 0)" "[i + 1 - p..<i + 1]"] that by (intro strength_pct) auto
  then show ?thesis by (auto simp: mfi_def Let_def simp del: upt_Suc)
qed

lemma dx_pct: "nn a \<Longrightarrow> nn b \<Longrightarrow> pct (dx_of a b)"
proof -
  assume n: "nn a" "nn b"
  have "\<bar>a - b\<bar> \<le> a + b \<or> \<bar>a - b\<bar> = NaN \<or> a + b = NaN"
  proof (cases a; cases b)
    fix x y assume c: "a = Fin x" "b = Fin y"
    then have xy: "0 \<le> x" "0 \<le> y" using n by (auto simp: nn_def)
    have "rnd (x - y) \<le> rnd (x + y)" "rnd (- (x - y)) \<le> rnd (x + y)" using xy by (auto intro!: rnd_mono)
    then show ?thesis using c rnd_minus [of "x - y"] by (cases "rnd (x - y)"; cases "rnd (x + y)"; auto simp: abs_le_iff)
  qed (use n in \<open>auto simp: nn_def minus_jsnum_def\<close>)
  then have "pct (\<bar>a - b\<bar> / (a + b) * Fin 100)" by (intro part_pct' nn_abs)
  then show ?thesis by (simp add: dx_of_def)
qed

lemma movements_nn: "\<forall>v\<in>set (plus_dm ks). nn v" "\<forall>v\<in>set (minus_dm ks). nn v"
  by (auto simp: plus_dm_def minus_dm_def Let_def nn_def intro: js_less_imp_le)

lemma rma_shift_nn:
  assumes "\<forall>i < length ks. nn (trueRange ks ! i)" shows "\<forall>v\<in>set (rma (tr_shift ks) p). nn v"
  by (rule rma_nn) (use assms in \<open>auto simp: tr_shift_def\<close>)

lemma trueRange_nn: "list_all sound_bar ks \<Longrightarrow> i < length ks \<Longrightarrow> nn (trueRange ks ! i)"
proof -
  assume s: "list_all sound_bar ks" "i < length ks"
  have "lows ks ! i \<le> highs ks ! i" using sound_columns(1,2) [OF s] js_le_trans by blast
  then have r: "nn (highs ks ! i - lows ks ! i)"
    by (cases "highs ks ! i"; cases "lows ks ! i") (auto simp: nn_def minus_jsnum_def intro: rnd_ge)
  have "nn (js_max a b)" if "nn a" "nn b" for a b using that js_max_cases [of a b] by auto
  then show ?thesis using s(2) r nn_abs by (cases "i = 0") (simp_all add: trueRange_def Let_def)
qed

lemma adx_pct:
  assumes s: "list_all sound_bar ks" and p: "100 * p \<le> 2 ^ 53"
  shows "\<forall>a\<in>set (adx ks p). pct (ax_adx a)"
proof -
  have sm: "nn (rma (tr_shift ks) p ! i)" "nn (rma (plus_dm ks) p ! i)" "nn (rma (minus_dm ks) p ! i)" if "i < length ks" for i
    using that nn_nth [OF series_moved(3) rma_shift_nn] trueRange_nn [OF s]
      nn_nth [OF series_moved(1) rma_nn [OF movements_nn(1)]] nn_nth [OF series_moved(2) rma_nn [OF movements_nn(2)]] by blast+
  have di: "nn (di (rma (tr_shift ks) p) (rma (plus_dm ks) p) i)" "nn (di (rma (tr_shift ks) p) (rma (minus_dm ks) p) i)"
    if "i < length ks" for i
    using sm [OF that] range_simps(6) pct_nn by (auto simp: di_def Let_def intro!: nn_mul nn_div)
  define dx where "dx = List.map (\<lambda>i. let t = rma (tr_shift ks) p ! i in if \<not> is_fin t \<or> js_eq t (Fin 0) then NaN
    else dx_of (List.map (di (rma (tr_shift ks) p) (rma (plus_dm ks) p)) [0..<length ks] ! i)
      (List.map (di (rma (tr_shift ks) p) (rma (minus_dm ks) p)) [0..<length ks] ! i)) [0..<length ks]"
  have "\<forall>v\<in>set dx. pct v" by (auto simp: dx_def Let_def intro!: dx_pct di)
  then have "\<forall>v\<in>set (rma dx p). pct v" using p by (rule rma_pct)
  then have "pct (rma dx p ! i)" if "i < length ks" for i
    using that by (simp add: seriesD(2) [OF series_rma] dx_def)
  then show ?thesis unfolding adx_def Let_def dx_def by auto
qed

lemma williamsR_range:
  assumes "list_all sound_bar ks" "0 < p"
  shows "\<forall>v\<in>set (williamsR ks p). pct (- v)"
proof -
  have neg: "- (q * Fin (- 100)) = q * Fin 100" for q
    by (cases q) (auto simp: sgn_if rnd_minus [symmetric])
  have "pct (- ((hh - c) / (hh - ll) * Fin (- 100)))" if le: "ll \<le> c" "c \<le> hh" for hh c ll
  proof -
    have "nn (hh - c)" "hh - c \<le> hh - ll \<or> hh - c = NaN \<or> hh - ll = NaN"
      using le by (cases ll; cases c; cases hh; auto simp: nn_def minus_jsnum_def intro: rnd_ge rnd_mono)+
    then have "pct ((hh - c) / (hh - ll) * Fin 100)" by (rule part_pct')
    then show ?thesis by (simp add: neg)
  qed
  note between = this
  show ?thesis using assms by (auto simp: williamsR_def Let_def intro!: between window_extremes)
qed

lemma arg_range:
  assumes "a \<le> i" shows "a \<le> arg_high xs a i \<and> arg_high xs a i \<le> i" "a \<le> arg_low xs a i \<and> arg_low xs a i \<le> i"
proof -
  have "foldl (\<lambda>m j. if P m j then j else m) a [a..<i + 1] \<in> {a..i}" for P
    by (rule foldl_invariant) (use assms in auto)
  then show "a \<le> arg_high xs a i \<and> arg_high xs a i \<le> i" "a \<le> arg_low xs a i \<and> arg_low xs a i \<le> i"
    unfolding arg_high_def arg_low_def by simp_all
qed

lemma freshness_pct: "i - p \<le> m \<Longrightarrow> p \<le> i \<Longrightarrow> m \<le> i \<Longrightarrow> pct (freshness p i m)"
proof -
  assume m: "i - p \<le> m" "p \<le> i" "m \<le> i"
  then have le: "num (i - m) \<le> num p" by (intro rnd_mono) (simp add: le_diff_conv)
  have "nn (a - b) \<and> (a - b \<le> a \<or> a - b = NaN)" if "b \<le> a" "Fin 0 \<le> b" "dbl a" for a b
    using that by (cases a; cases b) (auto simp: nn_def minus_jsnum_def intro: rnd_ge rnd_le)
  from this [OF le] have "nn (num p - num (i - m))" "num p - num (i - m) \<le> num p \<or> num p - num (i - m) = NaN"
    using range_simps(7) [of "i - m"] by (auto simp: nn_def)
  then show ?thesis unfolding freshness_def by (intro part_pct') auto
qed

lemma aroon_pct: "\<forall>a\<in>set (aroon ks p). pct (ar_up a) \<and> pct (ar_down a)"
  using arg_range by (auto simp: aroon_def Let_def intro!: freshness_pct)



end
