(* ===== verification/Settings.thy ===== *)
theory Settings imports DemoTypes JsonText begin

text \<open>
  The workflow settings (\<open>workflow.ts\<close>) and the launch of the command line tools (\<open>cli-launch.ts\<close>). A patch is the
  object the interface or the chat tool sends: property names with arbitrary JSON values. Error sentences are values
  that name the field and the rule. The environment, the search path and the clock are parameters.
\<close>

section \<open>Launching a command line tool\<close>

datatype cli_name = N_claude | N_codex | N_pi

definition CLI_NAMES :: "(string \<times> cli_name) list" where
  "CLI_NAMES = [(''claude'', N_claude), (''codex'', N_codex), (''pi'', N_pi)]"

definition CLI_COMMAND_MAX_CHARS :: nat where "CLI_COMMAND_MAX_CHARS = 500"

definition defaultCliCommand :: "(string \<Rightarrow> string option) \<Rightarrow> string \<Rightarrow> string" where
  "defaultCliCommand env name = (let v = (case env (''TG_DEMO_CLI_'' @ upper name) of Some s \<Rightarrow> js_trim s | None \<Rightarrow> [])
     in if v \<noteq> [] then v else name)"

definition defaultCliCommands :: "(string \<Rightarrow> string option) \<Rightarrow> cli_commands_view" where
  "defaultCliCommands env = \<lparr>cli_claude = defaultCliCommand env ''claude'', cli_codex = defaultCliCommand env ''codex'',
     cli_pi = defaultCliCommand env ''pi''\<rparr>"

datatype launch_via = Direct | Shell

record cli_launch =
  cl_file :: string
  cl_args_prefix :: "string list"
  cl_via :: launch_via

definition loginShell :: "(string \<Rightarrow> string option) \<Rightarrow> string" where
  "loginShell env = (case env ''SHELL'' of Some s \<Rightarrow> if js_trim s \<noteq> [] then js_trim s else ''/bin/zsh'' | None \<Rightarrow> ''/bin/zsh'')"

text \<open>\<open>accessSync\<close> for a path, \<open>which\<close> for a bare word.\<close>

definition onPath :: "(string \<Rightarrow> bool) \<Rightarrow> (string \<Rightarrow> bool) \<Rightarrow> string \<Rightarrow> bool" where
  "onPath executable on_search_path word = (if word = [] then False
     else if CHR ''/'' \<in> set word then executable word else on_search_path word)"

text \<open>\<open>trim().split(/\s+/).filter(Boolean)\<close>: the words of a line.\<close>

function word_list :: "string \<Rightarrow> string list" where
  "word_list s = (let t = dropWhile is_space s in
     if t = [] then [] else takeWhile (\<lambda>c. \<not> is_space c) t # word_list (dropWhile (\<lambda>c. \<not> is_space c) t))"
  by auto
termination
proof (relation "measure length")
  fix s t assume t: "t = dropWhile is_space s" "t \<noteq> []"
  then have "\<not> is_space (hd t)" by (simp add: hd_dropWhile)
  then have "length (dropWhile (\<lambda>c. \<not> is_space c) t) < length t" using t(2) by (cases t) (simp_all add: le_imp_less_Suc length_dropWhile_le)
  also have "\<dots> \<le> length s" unfolding t by (rule length_dropWhile_le)
  finally show "(dropWhile (\<lambda>c. \<not> is_space c) t, s) \<in> measure length" by simp
qed simp

declare word_list.simps [simp del]

definition ident_start :: "char \<Rightarrow> bool" where
  "ident_start c = ((65 \<le> code c \<and> code c \<le> 90) \<or> (97 \<le> code c \<and> code c \<le> 122) \<or> c = CHR ''_'')"

text \<open>\<open>/^[A-Za-z_][A-Za-z0-9_]*=/\<close>\<close>

definition env_assign :: "string \<Rightarrow> bool" where
  "env_assign s = (case s of [] \<Rightarrow> False
     | c # r \<Rightarrow> ident_start c \<and> (case dropWhile (\<lambda>c. ident_start c \<or> is_digit c) r of [] \<Rightarrow> False | d # _ \<Rightarrow> d = CHR ''=''))"

definition commandWord :: "string \<Rightarrow> string" where
  "commandWord cmd = (case List.find (\<lambda>t. \<not> env_assign t) (word_list cmd) of Some t \<Rightarrow> t | None \<Rightarrow> [])"

definition dq_char :: char where "dq_char = char_of (34 :: int)"

definition resolveCliLaunch :: "(string \<Rightarrow> string option) \<Rightarrow> (string \<Rightarrow> bool) \<Rightarrow> string \<Rightarrow> cli_launch" where
  "resolveCliLaunch env on_path cmd = (case word_list cmd of
     [word] \<Rightarrow> if \<not> env_assign word \<and> on_path word then \<lparr>cl_file = word, cl_args_prefix = [], cl_via = Direct\<rparr>
       else \<lparr>cl_file = loginShell env, cl_args_prefix = [''-ilc'', js_trim cmd @ '' '' @ [dq_char] @ ''$@'' @ [dq_char], ''--''], cl_via = Shell\<rparr>
   | _ \<Rightarrow> \<lparr>cl_file = loginShell env, cl_args_prefix = [''-ilc'', js_trim cmd @ '' '' @ [dq_char] @ ''$@'' @ [dq_char], ''--''], cl_via = Shell\<rparr>)"

definition cliSpawnEnv :: "launch_via \<Rightarrow> (string \<times> string) list" where
  "cliSpawnEnv via = (if via = Shell then [(''TERM_PROGRAM'', [])] else [])"

definition cliSpawnArgs :: "(string \<Rightarrow> string option) \<Rightarrow> (string \<Rightarrow> bool) \<Rightarrow> string \<Rightarrow> string list
    \<Rightarrow> string \<times> string list \<times> launch_via \<times> (string \<times> string) list" where
  "cliSpawnArgs env on_path cmd args = (let l = resolveCliLaunch env on_path cmd in
     (cl_file l, cl_args_prefix l @ args, cl_via l, cliSpawnEnv (cl_via l)))"

text \<open>The lines an interactive shell prints of its own accord are removed from the output, then the leading empty lines.\<close>

definition starts_with :: "string \<Rightarrow> string \<Rightarrow> bool" where "starts_with p s = (take (length p) s = p)"

definition shell_noise :: "string \<Rightarrow> bool" where
  "shell_noise t = (t = ''Saving session...'' \<or> t = ''[Process completed]'' \<or>
     (starts_with ''Restored session:'' t \<or> list_ex (\<lambda>w. starts_with (''...'' @ w) t) [''copying'', ''saving'', ''truncating'', ''completed''])
       \<and> list_all (\<lambda>c. code c \<noteq> 10 \<and> code c \<noteq> 13) t)"

definition nl_char :: char where "nl_char = char_of (10 :: int)"

fun split_lines :: "string \<Rightarrow> string \<Rightarrow> string list" where
  "split_lines acc [] = [acc]"
| "split_lines acc (c # s) = (if c = nl_char then acc # split_lines [] s else split_lines (acc @ [c]) s)"

definition stripShellNoise :: "string \<Rightarrow> string" where
  "stripShellNoise text = dropWhile (\<lambda>c. c = nl_char)
     (join_str [nl_char] (filter (\<lambda>line. \<not> shell_noise (js_trim line)) (split_lines [] text)))"

definition shq :: "string \<Rightarrow> string" where
  "shq s = (let q = char_of (39 :: int); b = char_of (92 :: int)
     in [q] @ concat (List.map (\<lambda>c. if c = q then [q, b, q, q] else [c]) s) @ [q])"

section \<open>Defaults and bounds\<close>

definition DEFAULT_SCREEN_SYMBOLS :: "string list" where
  "DEFAULT_SCREEN_SYMBOLS = [''BTCUSDT'', ''ETHUSDT'', ''SOLUSDT'', ''BNBUSDT'', ''XRPUSDT'', ''DOGEUSDT'', ''HYPEUSDT'', ''PENGUUSDT'',
     ''TSLAUSDT'', ''NVDAUSDT'', ''AAPLUSDT'', ''GOOGLUSDT'', ''AMDUSDT'', ''QQQUSDT'', ''MUUSDT'', ''SNDKUSDT'', ''CRCLUSDT'',
     ''SPCXUSDT'', ''CLUSDT'', ''XAUUSDT'', ''XAUTUSDT'', ''XAGUSDT'', ''SOXSUSDT'', ''KORUUSDT'', ''TENCENTUSDT'',
     ''CXMTUSDT'', ''SKHYNIXUSDT'']"

definition DEFAULT_ACTIVE_STRATEGIES :: "string list" where
  "DEFAULT_ACTIVE_STRATEGIES = [''breakout_retest'']"


text \<open>The text of the default playbook (Chinese prose) is a parameter.\<close>

definition DEFAULT_WORKFLOW :: "string \<Rightarrow> (string \<Rightarrow> string option) \<Rightarrow> workflow" where
  "DEFAULT_WORKFLOW playbook env = \<lparr>w_watchlist = [''BTCUSDT'', ''ETHUSDT'', ''SOLUSDT'', ''BNBUSDT''], w_timeframe = ''15m'',
     w_info_every_ms = Fin 1800000, w_risk_pct = ''0.5'', w_leverage = Fin 3, w_margin_mode = Cross, w_max_open_threads = Fin 3,
     w_max_opens_per_day = Fin 4, w_daily_loss_stop_pct = ''3'', w_auto_approve = True, w_brain = Stub, w_cheap_brain = Stub,
     w_brain_model = None, w_cheap_brain_model = None, w_playbook_text = playbook, w_paused = False, w_narrate = True,
     w_chat_requires_approval = False, w_scan_mode = Triggered, w_heartbeat_every_ms = Fin 1800000, w_watch_only = [],
     w_invalidation_confirm_bars = Fin 2, w_invalidation_buffer_atr = lit (1/5), w_fast_move_pct = ''0.8'',
     w_review_every_close = False, w_execution = PaperB, w_exec_agent_cli = ClaudeCli, w_exec_agent_model = Some ''sonnet'',
     w_daily_judgment_cap = Fin 300, w_screener_enabled = True, w_screener_short_every_ms = Fin 43200000,
     w_screener_swing_every_ms = Fin 259200000, w_screener_universe = Watchlist_whitelist, w_screener_symbols = [],
     w_screener_whitelist = DEFAULT_SCREEN_SYMBOLS, w_screener_max_symbols = Fin 60, w_screener_use_brain = True,
     w_screener_apply = Propose_apply, w_screener_expectancy = False, w_watchlist_max = Fin 60,
     w_cli_commands = defaultCliCommands env, w_active_strategies = DEFAULT_ACTIVE_STRATEGIES, w_updated_at = 0\<rparr>"

record workflow_bounds =
  b_watchlist_max :: "jsnum \<times> jsnum"
  b_timeframes :: "string list"
  b_info_every_ms :: "jsnum \<times> jsnum"
  b_risk_pct :: "jsnum \<times> jsnum"
  b_leverage :: "jsnum \<times> jsnum"
  b_max_open_threads :: "jsnum \<times> jsnum"
  b_max_opens_per_day :: "jsnum \<times> jsnum"
  b_daily_loss_stop_pct :: "jsnum \<times> jsnum"
  b_playbook_max_chars :: nat
  b_heartbeat_every_ms :: "jsnum \<times> jsnum"
  b_invalidation_confirm_bars :: "jsnum \<times> jsnum"
  b_invalidation_buffer_atr :: "jsnum \<times> jsnum"
  b_fast_move_pct :: "jsnum \<times> jsnum"
  b_daily_judgment_cap :: "jsnum \<times> jsnum"
  b_cli_command_max_chars :: nat
  b_active_strategies_max :: nat

definition WORKFLOW_BOUNDS :: workflow_bounds where
  "WORKFLOW_BOUNDS = \<lparr>b_watchlist_max = (Fin 1, Fin 300), b_timeframes = [''1m'', ''3m'', ''5m'', ''15m'', ''30m'', ''1h'', ''4h''],
     b_info_every_ms = (Fin 120000, Fin 21600000), b_risk_pct = (lit (1/10), Fin 2), b_leverage = (Fin 1, Fin 10),
     b_max_open_threads = (Fin 1, Fin 6), b_max_opens_per_day = (Fin 1, Fin 12), b_daily_loss_stop_pct = (lit (1/2), Fin 20),
     b_playbook_max_chars = 4000, b_heartbeat_every_ms = (Fin 300000, Fin 14400000), b_invalidation_confirm_bars = (Fin 1, Fin 5),
     b_invalidation_buffer_atr = (Fin 0, Fin 1), b_fast_move_pct = (lit (1/5), Fin 5), b_daily_judgment_cap = (Fin 0, Fin 5000),
     b_cli_command_max_chars = CLI_COMMAND_MAX_CHARS, b_active_strategies_max = 4\<rparr>"

definition lower_az :: "char \<Rightarrow> bool" where "lower_az c = (97 \<le> code c \<and> code c \<le> 122)"

definition upper_az :: "char \<Rightarrow> bool" where "upper_az c = (65 \<le> code c \<and> code c \<le> 90)"

text \<open>\<open>/^[a-z][a-z0-9_]{1,39}$/\<close>, \<open>/^[A-Za-z0-9][A-Za-z0-9._:/-]{0,79}$/\<close>, \<open>/^[A-Z0-9]{2,20}USDT$/\<close>.\<close>

definition STRATEGY_ID_RE :: "string \<Rightarrow> bool" where
  "STRATEGY_ID_RE s = (case s of [] \<Rightarrow> False
     | c # r \<Rightarrow> lower_az c \<and> 1 \<le> length r \<and> length r \<le> 39 \<and> list_all (\<lambda>c. lower_az c \<or> is_digit c \<or> c = CHR ''_'') r)"

definition MODEL_ID_RE :: "string \<Rightarrow> bool" where
  "MODEL_ID_RE s = (case s of [] \<Rightarrow> False
     | c # r \<Rightarrow> (upper_az c \<or> lower_az c \<or> is_digit c) \<and> length r \<le> 79 \<and>
         list_all (\<lambda>c. upper_az c \<or> lower_az c \<or> is_digit c \<or> c \<in> set ''._:/-'') r)"

definition symbol_re :: "string \<Rightarrow> bool" where
  "symbol_re s = (6 \<le> length s \<and> length s \<le> 24 \<and> drop (length s - 4) s = ''USDT'' \<and>
     list_all (\<lambda>c. upper_az c \<or> is_digit c) (take (length s - 4) s))"

definition tfMinutes :: "string \<Rightarrow> jsnum" where
  "tfMinutes tf = (let d = takeWhile is_digit tf; u = dropWhile is_digit tf in
     if d = [] \<or> u \<notin> {''m'', ''h''} then Fin 15 else js_number d * (if u = ''h'' then Fin 60 else Fin 1))"

definition estimateCallsPerHour :: "workflow \<Rightarrow> jsnum \<times> jsnum" where
  "estimateCallsPerHour w = (let tfMin = js_max (Fin 1) (tfMinutes (w_timeframe w)); n = of_idx (length (w_watchlist w)) in
     if w_scan_mode w = Every_close then (let per = n * (Fin 60 / tfMin) in (js_round per, js_round per))
     else let heartbeat = n * (Fin 60 / js_max (Fin 5) (w_heartbeat_every_ms w / Fin 60000))
          in (js_round heartbeat, js_round (heartbeat + n * Fin 4)))"

section \<open>Applying a patch\<close>

datatype cli_error = C_not_text | C_blank | C_long | C_lines

definition cliCommandError :: "json \<Rightarrow> cli_error option" where
  "cliCommandError v = (case v of
     JStr t \<Rightarrow> if js_trim t = [] then Some C_blank
       else if CLI_COMMAND_MAX_CHARS < length (js_trim t) then Some C_long
       else if list_ex (\<lambda>c. code c = 10 \<or> code c = 13) t then Some C_lines
       else None
   | _ \<Rightarrow> Some C_not_text)"

datatype wf_error = E_number string | E_boolean string | E_array string | E_one_of string | E_range string | E_no_symbol
  | E_text string | E_text_array string | E_model_id string | E_strategy_ids "string list" | E_object string
  | E_unknown_cli string | E_cli string cli_error

type_synonym patch = "(string \<times> json) list"

type_synonym wf_state = "workflow \<times> wf_error list"

text \<open>\<open>if (f in patch)\<close>: an update that replaces the settings or refuses the value.\<close>

definition on_field :: "patch \<Rightarrow> string \<Rightarrow> (json \<Rightarrow> workflow \<Rightarrow> wf_error + workflow) \<Rightarrow> wf_state \<Rightarrow> wf_state" where
  "on_field patch f g = (\<lambda>(w, es). case map_of patch f of None \<Rightarrow> (w, es)
     | Some v \<Rightarrow> (case g v w of Inl e \<Rightarrow> (w, es @ [e]) | Inr w' \<Rightarrow> (w', es)))"

definition clampNum :: "json \<Rightarrow> jsnum \<times> jsnum \<Rightarrow> jsnum option" where
  "clampNum v = (\<lambda>(lo, hi). let n = json_num v in if \<not> is_fin n then None else Some (js_min hi (js_max lo n)))"

definition clamped :: "string \<Rightarrow> jsnum \<times> jsnum \<Rightarrow> (jsnum \<Rightarrow> workflow \<Rightarrow> workflow) \<Rightarrow> patch \<Rightarrow> wf_state \<Rightarrow> wf_state" where
  "clamped f b upd patch = on_field patch f (\<lambda>v w. case clampNum v b of None \<Rightarrow> Inl (E_number f) | Some n \<Rightarrow> Inr (upd n w))"

definition flag :: "string \<Rightarrow> (bool \<Rightarrow> workflow \<Rightarrow> workflow) \<Rightarrow> patch \<Rightarrow> wf_state \<Rightarrow> wf_state" where
  "flag f upd patch = on_field patch f (\<lambda>v w. case v of JBool b \<Rightarrow> Inr (upd b w) | _ \<Rightarrow> Inl (E_boolean f))"

definition choice :: "string \<Rightarrow> (string \<times> 'a) list \<Rightarrow> ('a \<Rightarrow> workflow \<Rightarrow> workflow) \<Rightarrow> patch \<Rightarrow> wf_state \<Rightarrow> wf_state" where
  "choice f opts upd patch = on_field patch f (\<lambda>v w. case v of
     JStr s \<Rightarrow> (case map_of opts s of Some a \<Rightarrow> Inr (upd a w) | None \<Rightarrow> Inl (E_one_of f)) | _ \<Rightarrow> Inl (E_one_of f))"

definition whole :: "string \<Rightarrow> jsnum \<times> jsnum \<Rightarrow> (jsnum \<Rightarrow> workflow \<Rightarrow> workflow) \<Rightarrow> patch \<Rightarrow> wf_state \<Rightarrow> wf_state" where
  "whole f b upd patch = on_field patch f (\<lambda>v w. let n = json_num v in
     if \<not> is_integer n \<or> n < fst b \<or> snd b < n then Inl (E_range f) else Inr (upd n w))"

definition interval :: "string \<Rightarrow> (jsnum \<Rightarrow> workflow \<Rightarrow> workflow) \<Rightarrow> patch \<Rightarrow> wf_state \<Rightarrow> wf_state" where
  "interval f upd patch = on_field patch f (\<lambda>v w. let n = json_num v in
     if \<not> is_fin n \<or> n < Fin 3600000 \<or> Fin 2592000000 < n then Inl (E_range f) else Inr (upd (js_round n) w))"

definition model_id :: "string \<Rightarrow> (string option \<Rightarrow> workflow \<Rightarrow> workflow) \<Rightarrow> patch \<Rightarrow> wf_state \<Rightarrow> wf_state" where
  "model_id f upd patch = on_field patch f (\<lambda>v w.
     if nullish v \<or> v = JStr [] then Inr (upd None w)
     else case v of JStr s \<Rightarrow> if MODEL_ID_RE (js_trim s) then Inr (upd (Some (js_trim s)) w) else Inl (E_model_id f)
       | _ \<Rightarrow> Inl (E_model_id f))"

text \<open>\<open>[...new Set(xs)]\<close> and \<open>xs.slice(0, n)\<close>.\<close>

definition uniq :: "'a list \<Rightarrow> 'a list" where "uniq xs = rev (remdups (rev xs))"

fun slice0 :: "jsnum \<Rightarrow> 'a list \<Rightarrow> 'a list" where
  "slice0 (Fin x) xs = (if 0 \<le> x then take (nat \<lfloor>x\<rfloor>) xs else take (length xs - nat \<lfloor>- x\<rfloor>) xs)"
| "slice0 PInf xs = xs"
| "slice0 _ xs = []"

definition symbols_of :: "json list \<Rightarrow> string list" where
  "symbols_of raw = uniq (filter symbol_re (List.map (\<lambda>s. upper (js_trim (json_str s))) raw))"

definition patch_watchlist :: "json \<Rightarrow> workflow \<Rightarrow> wf_error + workflow" where
  "patch_watchlist v w = (case v of
     JArr raw \<Rightarrow> if symbols_of raw = [] then Inl E_no_symbol
       else Inr (w\<lparr>w_watchlist := slice0 (w_watchlist_max w) (symbols_of raw)\<rparr>)
   | _ \<Rightarrow> Inl (E_array ''watchlist''))"

definition patch_timeframe :: "json \<Rightarrow> workflow \<Rightarrow> wf_error + workflow" where
  "patch_timeframe v w = (if json_str v \<in> set (b_timeframes WORKFLOW_BOUNDS) then Inr (w\<lparr>w_timeframe := json_str v\<rparr>)
     else Inl (E_one_of ''timeframe''))"

definition patch_playbook :: "json \<Rightarrow> workflow \<Rightarrow> wf_error + workflow" where
  "patch_playbook v w = (case v of
     JStr t \<Rightarrow> Inr (w\<lparr>w_playbook_text := take (b_playbook_max_chars WORKFLOW_BOUNDS) t\<rparr>)
   | _ \<Rightarrow> Inl (E_text ''playbook_text''))"

fun texts_of :: "json list \<Rightarrow> string list option" where
  "texts_of [] = Some []"
| "texts_of (JStr s # xs) = map_option ((#) s) (texts_of xs)"
| "texts_of (_ # xs) = None"

definition text_list :: "string \<Rightarrow> (string list \<Rightarrow> workflow \<Rightarrow> workflow) \<Rightarrow> patch \<Rightarrow> wf_state \<Rightarrow> wf_state" where
  "text_list f upd patch = on_field patch f (\<lambda>v w. case v of
     JArr raw \<Rightarrow> (case texts_of raw of
         Some ts \<Rightarrow> Inr (upd (take 300 (uniq (filter (\<lambda>s. s \<noteq> []) (List.map (\<lambda>s. upper (js_trim s)) ts)))) w)
       | None \<Rightarrow> Inl (E_text_array f))
   | _ \<Rightarrow> Inl (E_text_array f))"

definition set_watchlist_max :: "jsnum \<Rightarrow> workflow \<Rightarrow> workflow" where
  "set_watchlist_max n w = (let w' = w\<lparr>w_watchlist_max := n\<rparr> in
     if n < of_idx (length (w_watchlist w')) then w'\<lparr>w_watchlist := slice0 n (w_watchlist w')\<rparr> else w')"

definition patch_watch_only :: "json \<Rightarrow> workflow \<Rightarrow> wf_error + workflow" where
  "patch_watch_only v w = (case v of
     JArr raw \<Rightarrow> Inr (w\<lparr>w_watch_only := uniq (filter (\<lambda>s. s \<in> set (w_watchlist w)) (List.map (\<lambda>s. upper (js_trim (json_str s))) raw))\<rparr>)
   | _ \<Rightarrow> Inl (E_array ''watch_only''))"

definition patch_strategies :: "json \<Rightarrow> workflow \<Rightarrow> wf_error + workflow" where
  "patch_strategies v w = (case v of
     JArr raw \<Rightarrow> (let ids = uniq (List.map (\<lambda>x. js_trim (json_str x)) raw); bad = filter (\<lambda>x. \<not> STRATEGY_ID_RE x) ids in
       if bad \<noteq> [] then Inl (E_strategy_ids bad)
       else Inr (w\<lparr>w_active_strategies := take (b_active_strategies_max WORKFLOW_BOUNDS) ids\<rparr>))
   | _ \<Rightarrow> Inl (E_array ''active_strategies''))"

definition set_cli :: "cli_name \<Rightarrow> string \<Rightarrow> cli_commands_view \<Rightarrow> cli_commands_view" where
  "set_cli n c m = (case n of N_claude \<Rightarrow> m\<lparr>cli_claude := c\<rparr> | N_codex \<Rightarrow> m\<lparr>cli_codex := c\<rparr> | N_pi \<Rightarrow> m\<lparr>cli_pi := c\<rparr>)"

definition merge_cli :: "cli_commands_view \<times> wf_error list \<Rightarrow> string \<times> json \<Rightarrow> cli_commands_view \<times> wf_error list" where
  "merge_cli = (\<lambda>(m, es) (k, v). case map_of CLI_NAMES k of
     None \<Rightarrow> (m, es @ [E_unknown_cli k])
   | Some n \<Rightarrow> (case cliCommandError v of Some e \<Rightarrow> (m, es @ [E_cli k e]) | None \<Rightarrow> (set_cli n (js_trim (json_str v)) m, es)))"

definition patch_cli :: "cli_commands_view \<Rightarrow> patch \<Rightarrow> wf_state \<Rightarrow> wf_state" where
  "patch_cli cur patch = (\<lambda>(w, es). case map_of patch ''cli_commands'' of None \<Rightarrow> (w, es)
     | Some (JObj kvs) \<Rightarrow> (let (m, errs) = foldl merge_cli (cur, []) kvs in (w\<lparr>w_cli_commands := m\<rparr>, es @ errs))
     | Some _ \<Rightarrow> (w, es @ [E_object ''cli_commands'']))"

definition round_to :: "jsnum \<Rightarrow> jsnum \<Rightarrow> jsnum" where "round_to k v = js_round (v * k) / k"

definition BRAINS :: "(string \<times> brain_kind) list" where
  "BRAINS = [(''pi'', Pi), (''claude'', Claude), (''codex'', Codex), (''stub'', Stub)]"

definition BACKENDS :: "(string \<times> backend) list" where
  "BACKENDS = [(''paper'', PaperB), (''demo'', DemoB), (''cli'', CliB), (''agent_mcp'', AgentMcpB)]"

definition AGENT_CLIS :: "(string \<times> agent_cli_kind) list" where
  "AGENT_CLIS = [(''claude'', ClaudeCli), (''codex'', CodexCli)]"

text \<open>The steps of \<open>applyWorkflowPatch\<close> in their order; the filter of \<open>watch_only\<close> runs whatever the patch holds.\<close>

definition early_steps :: "(patch \<Rightarrow> wf_state \<Rightarrow> wf_state) list" where
  "early_steps = (let b = WORKFLOW_BOUNDS in
    [\<lambda>p. on_field p ''watchlist'' patch_watchlist,
     \<lambda>p. on_field p ''timeframe'' patch_timeframe,
     clamped ''info_every_ms'' (b_info_every_ms b) (\<lambda>n w. w\<lparr>w_info_every_ms := js_round n\<rparr>),
     clamped ''risk_pct'' (b_risk_pct b) (\<lambda>n w. w\<lparr>w_risk_pct := num_str (round_to (Fin 100) n)\<rparr>),
     clamped ''leverage'' (b_leverage b) (\<lambda>n w. w\<lparr>w_leverage := js_round n\<rparr>),
     choice ''margin_mode'' [(''cross'', Cross), (''isolated'', Isolated)] (\<lambda>m w. w\<lparr>w_margin_mode := m\<rparr>),
     clamped ''max_open_threads'' (b_max_open_threads b) (\<lambda>n w. w\<lparr>w_max_open_threads := js_round n\<rparr>),
     clamped ''max_opens_per_day'' (b_max_opens_per_day b) (\<lambda>n w. w\<lparr>w_max_opens_per_day := js_round n\<rparr>),
     clamped ''daily_loss_stop_pct'' (b_daily_loss_stop_pct b) (\<lambda>n w. w\<lparr>w_daily_loss_stop_pct := num_str (round_to (Fin 10) n)\<rparr>),
     flag ''auto_approve'' (\<lambda>x w. w\<lparr>w_auto_approve := x\<rparr>),
     choice ''brain'' BRAINS (\<lambda>x w. w\<lparr>w_brain := x\<rparr>),
     choice ''cheap_brain'' BRAINS (\<lambda>x w. w\<lparr>w_cheap_brain := x\<rparr>),
     model_id ''brain_model'' (\<lambda>x w. w\<lparr>w_brain_model := x\<rparr>),
     model_id ''cheap_brain_model'' (\<lambda>x w. w\<lparr>w_cheap_brain_model := x\<rparr>),
     \<lambda>p. on_field p ''playbook_text'' patch_playbook,
     whole ''invalidation_confirm_bars'' (b_invalidation_confirm_bars b) (\<lambda>n w. w\<lparr>w_invalidation_confirm_bars := n\<rparr>),
     clamped ''invalidation_buffer_atr'' (b_invalidation_buffer_atr b) (\<lambda>n w. w\<lparr>w_invalidation_buffer_atr := round_to (Fin 100) n\<rparr>),
     flag ''screener_enabled'' (\<lambda>x w. w\<lparr>w_screener_enabled := x\<rparr>),
     flag ''screener_use_brain'' (\<lambda>x w. w\<lparr>w_screener_use_brain := x\<rparr>),
     flag ''screener_expectancy'' (\<lambda>x w. w\<lparr>w_screener_expectancy := x\<rparr>),
     interval ''screener_short_every_ms'' (\<lambda>n w. w\<lparr>w_screener_short_every_ms := n\<rparr>),
     interval ''screener_swing_every_ms'' (\<lambda>n w. w\<lparr>w_screener_swing_every_ms := n\<rparr>),
     whole ''screener_max_symbols'' (Fin 1, Fin 300) (\<lambda>n w. w\<lparr>w_screener_max_symbols := n\<rparr>),
     choice ''screener_universe'' [(''watchlist+whitelist'', Watchlist_whitelist), (''top_volume'', Top_volume), (''explicit'', Explicit)]
       (\<lambda>x w. w\<lparr>w_screener_universe := x\<rparr>),
     choice ''screener_apply'' [(''propose'', Propose_apply), (''auto'', Auto_apply)] (\<lambda>x w. w\<lparr>w_screener_apply := x\<rparr>),
     text_list ''screener_symbols'' (\<lambda>x w. w\<lparr>w_screener_symbols := x\<rparr>),
     text_list ''screener_whitelist'' (\<lambda>x w. w\<lparr>w_screener_whitelist := x\<rparr>),
     whole ''watchlist_max'' (b_watchlist_max b) set_watchlist_max,
     \<lambda>p. on_field p ''watch_only'' patch_watch_only])"

definition drop_unwatched :: "wf_state \<Rightarrow> wf_state" where
  "drop_unwatched = (\<lambda>(w, es). (w\<lparr>w_watch_only := filter (\<lambda>s. s \<in> set (w_watchlist w)) (w_watch_only w)\<rparr>, es))"

definition late_steps :: "cli_commands_view \<Rightarrow> (patch \<Rightarrow> wf_state \<Rightarrow> wf_state) list" where
  "late_steps cur = (let b = WORKFLOW_BOUNDS in
    [flag ''paused'' (\<lambda>x w. w\<lparr>w_paused := x\<rparr>),
     flag ''narrate'' (\<lambda>x w. w\<lparr>w_narrate := x\<rparr>),
     flag ''chat_requires_approval'' (\<lambda>x w. w\<lparr>w_chat_requires_approval := x\<rparr>),
     choice ''scan_mode'' [(''triggered'', Triggered), (''every_close'', Every_close)] (\<lambda>x w. w\<lparr>w_scan_mode := x\<rparr>),
     clamped ''heartbeat_every_ms'' (b_heartbeat_every_ms b) (\<lambda>n w. w\<lparr>w_heartbeat_every_ms := js_round n\<rparr>),
     clamped ''fast_move_pct'' (b_fast_move_pct b) (\<lambda>n w. w\<lparr>w_fast_move_pct := num_str (round_to (Fin 100) n)\<rparr>),
     flag ''review_every_close'' (\<lambda>x w. w\<lparr>w_review_every_close := x\<rparr>),
     choice ''execution'' BACKENDS (\<lambda>x w. w\<lparr>w_execution := x\<rparr>),
     choice ''exec_agent_cli'' AGENT_CLIS (\<lambda>x w. w\<lparr>w_exec_agent_cli := x\<rparr>),
     model_id ''exec_agent_model'' (\<lambda>x w. w\<lparr>w_exec_agent_model := x\<rparr>),
     \<lambda>p. on_field p ''active_strategies'' patch_strategies,
     clamped ''daily_judgment_cap'' (b_daily_judgment_cap b) (\<lambda>n w. w\<lparr>w_daily_judgment_cap := js_round n\<rparr>),
     patch_cli cur])"

definition apply_steps :: "patch \<Rightarrow> (patch \<Rightarrow> wf_state \<Rightarrow> wf_state) list \<Rightarrow> wf_state \<Rightarrow> wf_state" where
  "apply_steps patch fs st = foldl (\<lambda>st f. f patch st) st fs"

definition applyWorkflowPatch :: "workflow \<Rightarrow> patch \<Rightarrow> int \<Rightarrow> workflow \<times> wf_error list" where
  "applyWorkflowPatch current patch now = (let
     (w, es) = apply_steps patch (late_steps (w_cli_commands current)) (drop_unwatched (apply_steps patch early_steps (current, [])))
     in (w\<lparr>w_updated_at := now\<rparr>, es))"

section \<open>Loading\<close>

text \<open>The settings as the JSON object that is stored, and \<open>{ ...defaults, ...parsed }\<close> on it.\<close>

definition margin_str :: "margin_mode \<Rightarrow> string" where "margin_str m = (if m = Cross then ''cross'' else ''isolated'')"

definition name_in :: "(string \<times> 'a) list \<Rightarrow> 'a \<Rightarrow> string" where
  "name_in opts a = (case List.find (\<lambda>p. snd p = a) opts of Some p \<Rightarrow> fst p | None \<Rightarrow> [])"

definition opt_str :: "string option \<Rightarrow> json" where "opt_str v = (case v of Some s \<Rightarrow> JStr s | None \<Rightarrow> JNull)"

definition cli_json :: "cli_commands_view \<Rightarrow> (string \<times> json) list" where
  "cli_json c = [(''claude'', JStr (cli_claude c)), (''codex'', JStr (cli_codex c)), (''pi'', JStr (cli_pi c))]"

definition workflow_json :: "workflow \<Rightarrow> (string \<times> json) list" where
  "workflow_json w = [(''watchlist'', JArr (List.map JStr (w_watchlist w))), (''watch_only'', JArr (List.map JStr (w_watch_only w))),
     (''timeframe'', JStr (w_timeframe w)), (''info_every_ms'', JNum (w_info_every_ms w)), (''risk_pct'', JStr (w_risk_pct w)),
     (''leverage'', JNum (w_leverage w)), (''margin_mode'', JStr (margin_str (w_margin_mode w))),
     (''max_open_threads'', JNum (w_max_open_threads w)), (''max_opens_per_day'', JNum (w_max_opens_per_day w)),
     (''daily_loss_stop_pct'', JStr (w_daily_loss_stop_pct w)), (''auto_approve'', JBool (w_auto_approve w)),
     (''brain'', JStr (name_in BRAINS (w_brain w))), (''cheap_brain'', JStr (name_in BRAINS (w_cheap_brain w))),
     (''brain_model'', opt_str (w_brain_model w)), (''cheap_brain_model'', opt_str (w_cheap_brain_model w)),
     (''playbook_text'', JStr (w_playbook_text w)), (''paused'', JBool (w_paused w)), (''narrate'', JBool (w_narrate w)),
     (''chat_requires_approval'', JBool (w_chat_requires_approval w)),
     (''scan_mode'', JStr (if w_scan_mode w = Triggered then ''triggered'' else ''every_close'')),
     (''heartbeat_every_ms'', JNum (w_heartbeat_every_ms w)), (''invalidation_confirm_bars'', JNum (w_invalidation_confirm_bars w)),
     (''invalidation_buffer_atr'', JNum (w_invalidation_buffer_atr w)), (''fast_move_pct'', JStr (w_fast_move_pct w)),
     (''review_every_close'', JBool (w_review_every_close w)), (''execution'', JStr (name_in BACKENDS (w_execution w))),
     (''exec_agent_cli'', JStr (name_in AGENT_CLIS (w_exec_agent_cli w))), (''exec_agent_model'', opt_str (w_exec_agent_model w)),
     (''daily_judgment_cap'', JNum (w_daily_judgment_cap w)), (''screener_enabled'', JBool (w_screener_enabled w)),
     (''screener_short_every_ms'', JNum (w_screener_short_every_ms w)), (''screener_swing_every_ms'', JNum (w_screener_swing_every_ms w)),
     (''screener_universe'', JStr (case w_screener_universe w of Watchlist_whitelist \<Rightarrow> ''watchlist+whitelist''
        | Top_volume \<Rightarrow> ''top_volume'' | Explicit \<Rightarrow> ''explicit'')),
     (''screener_symbols'', JArr (List.map JStr (w_screener_symbols w))),
     (''screener_whitelist'', JArr (List.map JStr (w_screener_whitelist w))),
     (''screener_max_symbols'', JNum (w_screener_max_symbols w)), (''screener_use_brain'', JBool (w_screener_use_brain w)),
     (''screener_apply'', JStr (if w_screener_apply w = Propose_apply then ''propose'' else ''auto'')),
     (''screener_expectancy'', JBool (w_screener_expectancy w)), (''watchlist_max'', JNum (w_watchlist_max w)),
     (''cli_commands'', JObj (cli_json (w_cli_commands w))),
     (''active_strategies'', JArr (List.map JStr (w_active_strategies w))), (''updated_at'', JNum (of_count (w_updated_at w)))]"

text \<open>\<open>{ ...v }\<close>: the own properties of a value.\<close>

fun spread_of :: "json \<Rightarrow> (string \<times> json) list" where
  "spread_of (JObj kvs) = kvs"
| "spread_of (JArr xs) = List.map (\<lambda>i. (nat_str (int i), xs ! i)) [0..<length xs]"
| "spread_of (JStr s) = List.map (\<lambda>i. (nat_str (int i), JStr [s ! i])) [0..<length s]"
| "spread_of _ = []"

definition fix_cli :: "(string \<times> json) list \<Rightarrow> (string \<times> json) list \<Rightarrow> string \<Rightarrow> (string \<times> json) list" where
  "fix_cli dflt cli n = (if cliCommandError (jget (JObj cli) n) \<noteq> None then obj_put cli n (jget (JObj dflt) n) else cli)"

definition loadWorkflow :: "string \<Rightarrow> (string \<Rightarrow> string option) \<Rightarrow> string option \<Rightarrow> int \<Rightarrow> (string \<times> json) list" where
  "loadWorkflow playbook env text now = (
     let w0 = DEFAULT_WORKFLOW playbook env; fresh = workflow_json (w0\<lparr>w_updated_at := now\<rparr>); dcli = cli_json (w_cli_commands w0) in
     case text of None \<Rightarrow> fresh
     | Some s \<Rightarrow> if s = [] then fresh else (case json_parse s of
         None \<Rightarrow> fresh
       | Some parsed \<Rightarrow> if nullish parsed then fresh
           else (let own = jget parsed ''cli_commands'';
                     cli = obj_puts dcli (case own of JObj kvs \<Rightarrow> kvs | JArr xs \<Rightarrow> spread_of (JArr xs) | _ \<Rightarrow> []);
                     cli' = foldl (fix_cli dcli) cli (List.map fst CLI_NAMES)
                 in obj_put (obj_puts (workflow_json w0) (spread_of parsed)) ''cli_commands'' (JObj cli'))))"

end
