(* ===== verification/SettingsFacts.thy ===== *)
theory SettingsFacts imports Settings begin

text \<open>
  What holds of the settings: whatever object arrives as a patch, the settings stay within their bounds, and a tool is
  always launched with the arguments it was given.
\<close>

section \<open>Bounds\<close>

definition in_range :: "jsnum \<times> jsnum \<Rightarrow> jsnum \<Rightarrow> bool" where "in_range b n = (fst b \<le> n \<and> n \<le> snd b)"

definition pct_text :: "jsnum \<times> jsnum \<Rightarrow> string \<Rightarrow> bool" where "pct_text b s = (\<exists>n. in_range b n \<and> s = num_str n)"

definition cli_ok :: "cli_commands_view \<Rightarrow> bool" where
  "cli_ok c = (\<forall>s\<in>{cli_claude c, cli_codex c, cli_pi c}. s \<noteq> [] \<and> length s \<le> CLI_COMMAND_MAX_CHARS)"

definition model_ok :: "string option \<Rightarrow> bool" where "model_ok m = (case m of None \<Rightarrow> True | Some s \<Rightarrow> MODEL_ID_RE s)"

text \<open>The settings the loop runs on are within the bounds of the interface.\<close>

definition core_ok :: "workflow \<Rightarrow> bool" where
  "core_ok w = (let b = WORKFLOW_BOUNDS in
     w_watchlist w \<noteq> [] \<and> distinct (w_watchlist w) \<and> list_all symbol_re (w_watchlist w)
   \<and> of_idx (length (w_watchlist w)) \<le> w_watchlist_max w \<and> is_integer (w_watchlist_max w) \<and> in_range (b_watchlist_max b) (w_watchlist_max w)
   \<and> w_timeframe w \<in> set (b_timeframes b)
   \<and> in_range (b_info_every_ms b) (w_info_every_ms w) \<and> pct_text (b_risk_pct b) (w_risk_pct w) \<and> in_range (b_leverage b) (w_leverage w)
   \<and> in_range (b_max_open_threads b) (w_max_open_threads w) \<and> in_range (b_max_opens_per_day b) (w_max_opens_per_day w)
   \<and> pct_text (b_daily_loss_stop_pct b) (w_daily_loss_stop_pct w) \<and> length (w_playbook_text w) \<le> b_playbook_max_chars b
   \<and> in_range (b_heartbeat_every_ms b) (w_heartbeat_every_ms w) \<and> in_range (b_invalidation_confirm_bars b) (w_invalidation_confirm_bars w)
   \<and> in_range (b_invalidation_buffer_atr b) (w_invalidation_buffer_atr w) \<and> pct_text (b_fast_move_pct b) (w_fast_move_pct w)
   \<and> in_range (b_daily_judgment_cap b) (w_daily_judgment_cap w) \<and> cli_ok (w_cli_commands w)
   \<and> length (w_active_strategies w) \<le> b_active_strategies_max b \<and> list_all STRATEGY_ID_RE (w_active_strategies w)
   \<and> model_ok (w_brain_model w) \<and> model_ok (w_cheap_brain_model w) \<and> model_ok (w_exec_agent_model w))"

definition settings_ok :: "workflow \<Rightarrow> bool" where
  "settings_ok w = (core_ok w \<and> set (w_watch_only w) \<subseteq> set (w_watchlist w))"

lemma on_field_keeps:
  assumes "\<And>v w'. P w \<Longrightarrow> g v w = Inr w' \<Longrightarrow> P w'" "P w"
  shows "P (fst (on_field p f g (w, es)))"
  using assms by (auto simp: on_field_def split: option.splits sum.splits)

lemma clampNum_within:
  assumes "clampNum v (lo, hi) = Some n" "lo \<le> hi"
  shows "in_range (lo, hi) n"
proof -
  have "is_fin (json_num v)" "n = js_min hi (js_max lo (json_num v))" using assms(1) by (auto simp: clampNum_def Let_def split: if_splits)
  then show ?thesis using assms(2) js_le_total js_le_not_NaN [OF assms(2)]
    by (auto simp: in_range_def js_min_def js_max_def intro: js_le_trans)
qed

lemma clamped_keeps:
  assumes "\<And>n. P w \<Longrightarrow> in_range (lo, hi) n \<Longrightarrow> P (upd n w)" "lo \<le> hi" "P w"
  shows "P (fst (clamped f (lo, hi) upd p (w, es)))"
  unfolding clamped_def
  by (rule on_field_keeps) (use assms clampNum_within in \<open>auto split: option.splits\<close>)

lemma flag_keeps: "(\<And>x. P w \<Longrightarrow> P (upd x w)) \<Longrightarrow> P w \<Longrightarrow> P (fst (flag f upd p (w, es)))"
  unfolding flag_def by (rule on_field_keeps) (auto split: json.splits)

lemma choice_keeps: "(\<And>x. P w \<Longrightarrow> P (upd x w)) \<Longrightarrow> P w \<Longrightarrow> P (fst (choice f opts upd p (w, es)))"
  unfolding choice_def by (rule on_field_keeps) (auto split: json.splits option.splits)

lemma whole_keeps:
  assumes "\<And>n. P w \<Longrightarrow> is_integer n \<Longrightarrow> in_range b n \<Longrightarrow> P (upd n w)" "P w" "fst b \<noteq> NaN" "snd b \<noteq> NaN"
  shows "P (fst (whole f b upd p (w, es)))"
  unfolding whole_def
proof (rule on_field_keeps)
  fix v w' assume "P w" and e: "(let n = json_num v in if \<not> is_integer n \<or> n < fst b \<or> snd b < n then Inl (E_range f) else Inr (upd n w)) = Inr w'"
  then have i: "is_integer (json_num v)" "\<not> json_num v < fst b" "\<not> snd b < json_num v" "w' = upd (json_num v) w"
    by (auto simp: Let_def split: if_splits)
  moreover have "json_num v \<noteq> NaN" using i(1) by auto
  ultimately show "P w'" using assms \<open>P w\<close> by (auto simp: in_range_def js_not_less)
qed (rule assms(2))

lemma interval_keeps: "(\<And>n. P w \<Longrightarrow> P (upd n w)) \<Longrightarrow> P w \<Longrightarrow> P (fst (interval f upd p (w, es)))"
  unfolding interval_def by (rule on_field_keeps) (auto simp: Let_def split: if_splits)

lemma model_id_keeps:
  assumes "\<And>m. P w \<Longrightarrow> model_ok m \<Longrightarrow> P (upd m w)" "P w"
  shows "P (fst (model_id f upd p (w, es)))"
  unfolding model_id_def
  by (rule on_field_keeps) (use assms in \<open>auto simp: model_ok_def split: if_splits json.splits\<close>)

lemma text_list_keeps: "(\<And>x. P w \<Longrightarrow> P (upd x w)) \<Longrightarrow> P w \<Longrightarrow> P (fst (text_list f upd p (w, es)))"
  unfolding text_list_def by (rule on_field_keeps) (auto split: json.splits option.splits)

lemma js_round_mono: "a \<le> b \<Longrightarrow> js_round a \<le> js_round b"
  by (cases a; cases b) (auto intro!: floor_mono)

lemma js_round_int: "js_round (Fin (of_int m)) = Fin (of_int m)"
proof -
  have "\<lfloor>of_int m + 1 / 2 :: rat\<rfloor> = m" by (rule floor_unique) auto
  then show ?thesis by simp
qed

lemma round_range: "in_range (Fin (of_int a), Fin (of_int b)) n \<Longrightarrow> in_range (Fin (of_int a), Fin (of_int b)) (js_round n)"
  using js_round_mono [of "Fin (of_int a)" n] js_round_mono [of n "Fin (of_int b)"]
  by (simp only: in_range_def js_round_int fst_conv snd_conv)

lemma round_to_range:
  assumes "lo * k = Fin (of_int a)" "hi * k = Fin (of_int b)" "Fin (of_int a) / k = lo" "Fin (of_int b) / k = hi"
    and k: "Fin 0 < k" and lo: "Fin 0 \<le> lo" and n: "in_range (lo, hi) n"
  shows "in_range (lo, hi) (round_to k n)"
proof -
  have le: "lo \<le> n" "n \<le> hi" using n by (simp_all add: in_range_def)
  have fin: "is_fin k" "is_fin lo" "is_fin hi" using assms(1,2) k lo
    by (cases k; cases lo; cases hi; auto split: if_splits)+
  then have nf: "is_fin n" using le by (cases n; cases lo; cases hi) auto
  have m: "n * k \<noteq> NaN" "Fin (of_int a) \<le> n * k" "n * k \<le> Fin (of_int b)"
  proof -
    show nn: "n * k \<noteq> NaN" using fin nf by (cases n; cases k) auto
    have "lo * k \<le> n * k" "n * k \<le> hi * k"
      using le lo k fin nf nn assms(1,2) js_le_trans [OF lo le(1)] by (intro js_mul_mono; auto intro: js_less_imp_le)+
    then show "Fin (of_int a) \<le> n * k" "n * k \<le> Fin (of_int b)" using assms(1,2) by simp_all
  qed
  have r: "Fin (of_int a) \<le> js_round (n * k)" "js_round (n * k) \<le> Fin (of_int b)"
    using round_range [of a b "n * k"] m by (simp_all add: in_range_def)
  then have rf: "is_fin (js_round (n * k))" by (cases "js_round (n * k)") auto
  then have "js_round (n * k) / k \<noteq> NaN" using k fin by (cases "js_round (n * k)"; cases k) auto
  then have "Fin (of_int a) / k \<le> js_round (n * k) / k" "js_round (n * k) / k \<le> Fin (of_int b) / k"
    using r k assms(3,4) fin by (intro js_div_right_mono; auto)+
  then show ?thesis using assms(3,4) by (simp add: round_to_def in_range_def)
qed

lemma bound_facts:
  "in_range (Fin 0, Fin 1) n \<Longrightarrow> in_range (Fin 0, Fin 1) (round_to (Fin 100) n)"
  "in_range (lit (1/10), Fin 2) n \<Longrightarrow> in_range (lit (1/10), Fin 2) (round_to (Fin 100) n)"
  "in_range (lit (1/5), Fin 5) n \<Longrightarrow> in_range (lit (1/5), Fin 5) (round_to (Fin 100) n)"
  "in_range (lit (1/2), Fin 20) n \<Longrightarrow> in_range (lit (1/2), Fin 20) (round_to (Fin 10) n)"
proof -
  have c: "Fin 0 * Fin 100 = Fin (of_int 0)" "Fin 1 * Fin 100 = Fin (of_int 100)" "Fin (of_int 0) / Fin 100 = Fin 0"
    "Fin (of_int 100) / Fin 100 = Fin 1" "lit (1/10) * Fin 100 = Fin (of_int 10)" "Fin 2 * Fin 100 = Fin (of_int 200)"
    "Fin (of_int 10) / Fin 100 = lit (1/10)" "Fin (of_int 200) / Fin 100 = Fin 2"
    "lit (1/5) * Fin 100 = Fin (of_int 20)" "Fin 5 * Fin 100 = Fin (of_int 500)"
    "Fin (of_int 20) / Fin 100 = lit (1/5)" "Fin (of_int 500) / Fin 100 = Fin 5"
    "lit (1/2) * Fin 10 = Fin (of_int 5)" "Fin 20 * Fin 10 = Fin (of_int 200)"
    "Fin (of_int 5) / Fin 10 = lit (1/2)" "Fin (of_int 200) / Fin 10 = Fin 20" "Fin 0 < Fin 100" "Fin 0 < Fin 10"
    "Fin 0 \<le> Fin 0" "Fin 0 \<le> lit (1/10)" "Fin 0 \<le> lit (1/5)" "Fin 0 \<le> lit (1/2)"
    by code_simp+
  show "in_range (Fin 0, Fin 1) n \<Longrightarrow> in_range (Fin 0, Fin 1) (round_to (Fin 100) n)"
    by (rule round_to_range [OF c(1-4) c(17) c(19)])
  show "in_range (lit (1/10), Fin 2) n \<Longrightarrow> in_range (lit (1/10), Fin 2) (round_to (Fin 100) n)"
    by (rule round_to_range [OF c(5-8) c(17) c(20)])
  show "in_range (lit (1/5), Fin 5) n \<Longrightarrow> in_range (lit (1/5), Fin 5) (round_to (Fin 100) n)"
    by (rule round_to_range [OF c(9-12) c(17) c(21)])
  show "in_range (lit (1/2), Fin 20) n \<Longrightarrow> in_range (lit (1/2), Fin 20) (round_to (Fin 10) n)"
    by (rule round_to_range [OF c(13-16) c(18) c(22)])
qed

lemma uniq_simps [simp]: "set (uniq xs) = set xs" "distinct (uniq xs)"
  by (simp_all add: uniq_def)

lemma slice0_take: "is_integer n \<Longrightarrow> in_range (b_watchlist_max WORKFLOW_BOUNDS) n \<Longrightarrow> \<exists>k. slice0 n xs = take k xs \<and> n = Fin (of_nat k) \<and> 1 \<le> k \<and> k \<le> 300"
proof (cases n)
  case (Fin x)
  assume i: "is_integer n" and r: "in_range (b_watchlist_max WORKFLOW_BOUNDS) n"
  then have x: "of_int \<lfloor>x\<rfloor> = x" "1 \<le> x" "x \<le> 300" using Fin by (simp_all add: in_range_def WORKFLOW_BOUNDS_def)
  then have f: "1 \<le> \<lfloor>x\<rfloor>" "\<lfloor>x\<rfloor> \<le> 300" using floor_le_iff [of x 300] by (simp_all add: le_floor_iff)
  have "(of_nat (nat \<lfloor>x\<rfloor>) :: rat) = of_int \<lfloor>x\<rfloor>" using f by (simp only: of_nat_nat)
  then have "x = of_nat (nat \<lfloor>x\<rfloor>)" using x(1) by simp
  then show ?thesis using Fin x f by (intro exI [of _ "nat \<lfloor>x\<rfloor>"]) auto
qed (auto simp: in_range_def WORKFLOW_BOUNDS_def)

lemma list_fits: "n = Fin (of_nat k) \<Longrightarrow> k \<le> 300 \<Longrightarrow> length xs \<le> k \<Longrightarrow> of_idx (length xs) \<le> n"
  by (simp add: rnd_of_nat)

lemma watchlist_keeps: "core_ok w \<Longrightarrow> patch_watchlist v w = Inr w' \<Longrightarrow> core_ok w'"
proof -
  assume c: "core_ok w" and p: "patch_watchlist v w = Inr w'"
  then obtain raw where v: "v = JArr raw" and ne: "symbols_of raw \<noteq> []"
    and w': "w' = w\<lparr>w_watchlist := slice0 (w_watchlist_max w) (symbols_of raw)\<rparr>"
    by (auto simp: patch_watchlist_def split: json.splits if_splits)
  have i: "is_integer (w_watchlist_max w)" "in_range (b_watchlist_max WORKFLOW_BOUNDS) (w_watchlist_max w)"
    using c by (simp_all add: core_ok_def Let_def)
  obtain k where k: "slice0 (w_watchlist_max w) (symbols_of raw) = take k (symbols_of raw)"
    "w_watchlist_max w = Fin (of_nat k)" "1 \<le> k" "k \<le> 300" using slice0_take [OF i] by blast
  have "of_idx (length (take k (symbols_of raw))) \<le> w_watchlist_max w" by (rule list_fits [OF k(2) k(4)]) simp
  moreover have "distinct (take k (symbols_of raw))" "list_all symbol_re (take k (symbols_of raw))" "take k (symbols_of raw) \<noteq> []"
    using ne k(3) by (auto simp: symbols_of_def list_all_iff dest!: in_set_takeD)
  ultimately show ?thesis using c unfolding w' k(1) by (simp add: core_ok_def Let_def)
qed

lemma watchlist_max_keeps:
  assumes c: "core_ok w" and n: "is_integer n" "in_range (b_watchlist_max WORKFLOW_BOUNDS) n"
  shows "core_ok (set_watchlist_max n w)"
proof -
  obtain k where k: "slice0 n (w_watchlist w) = take k (w_watchlist w)" "n = Fin (of_nat k)" "1 \<le> k" "k \<le> 300"
    using slice0_take [OF n] by blast
  have t: "distinct (take k (w_watchlist w))" "list_all symbol_re (take k (w_watchlist w))" "take k (w_watchlist w) \<noteq> []"
    using c k(3) by (auto simp: core_ok_def Let_def list_all_iff dest!: in_set_takeD)
  have l: "of_idx (length (take k (w_watchlist w))) \<le> n" by (rule list_fits [OF k(2) k(4)]) simp
  have m: "\<not> n < of_idx (length (w_watchlist w)) \<Longrightarrow> of_idx (length (w_watchlist w)) \<le> n"
    using k(2) by (simp add: js_not_less)
  show ?thesis
  proof (cases "n < of_idx (length (w_watchlist w))")
    case True
    then show ?thesis using c n t l k(1) by (simp add: set_watchlist_max_def core_ok_def Let_def)
  next
    case False
    then show ?thesis using c n m by (simp add: set_watchlist_max_def core_ok_def Let_def)
  qed
qed

lemma cli_keeps:
  assumes "cli_ok cur" "P w" "\<And>m. P w \<Longrightarrow> cli_ok m \<Longrightarrow> P (w\<lparr>w_cli_commands := m\<rparr>)"
  shows "P (fst (patch_cli cur p (w, es)))"
proof -
  have step: "cli_ok (fst (merge_cli (m, e) (k, v)))" if "cli_ok m" for m e k v
    using that by (auto simp: merge_cli_def cliCommandError_def set_cli_def cli_ok_def split: option.splits json.splits if_splits cli_name.splits)
  have "cli_ok (fst (foldl merge_cli (m, e) kvs))" if "cli_ok m" for m e kvs
    using that
  proof (induction kvs arbitrary: m e)
    case (Cons kv kvs)
    then show ?case using step [of m e "fst kv" "snd kv"] by (cases "merge_cli (m, e) kv") auto
  qed simp
  then show ?thesis using assms by (auto simp: patch_cli_def case_prod_beta split: option.splits json.splits)
qed

lemma pct_textI: "in_range b n \<Longrightarrow> pct_text b (num_str n)"
  by (auto simp: pct_text_def)

lemma rounded_ranges:
  "in_range (Fin 120000, Fin 21600000) n \<Longrightarrow> in_range (Fin 120000, Fin 21600000) (js_round n)"
  "in_range (Fin 1, Fin 10) n \<Longrightarrow> in_range (Fin 1, Fin 10) (js_round n)"
  "in_range (Fin 1, Fin 6) n \<Longrightarrow> in_range (Fin 1, Fin 6) (js_round n)"
  "in_range (Fin 1, Fin 12) n \<Longrightarrow> in_range (Fin 1, Fin 12) (js_round n)"
  "in_range (Fin 300000, Fin 14400000) n \<Longrightarrow> in_range (Fin 300000, Fin 14400000) (js_round n)"
  "in_range (Fin 0, Fin 5000) n \<Longrightarrow> in_range (Fin 0, Fin 5000) (js_round n)"
  using round_range [of 120000 21600000 n] round_range [of 1 10 n] round_range [of 1 6 n] round_range [of 1 12 n]
    round_range [of 300000 14400000 n] round_range [of 0 5000 n] by (simp_all only: of_int_numeral of_int_1 of_int_0)

lemma lits: "lit (1/10) \<le> Fin 2" "lit (1/5) \<le> Fin 5" "lit (1/2) \<le> Fin 20"
  by code_simp+

lemmas kept_values = lits rounded_ranges bound_facts pct_textI [OF bound_facts(2)] pct_textI [OF bound_facts(3)] pct_textI [OF bound_facts(4)]

lemma strategies_keep: "core_ok w \<Longrightarrow> patch_strategies v w = Inr w' \<Longrightarrow> core_ok w'"
proof -
  assume c: "core_ok w" and p: "patch_strategies v w = Inr w'"
  obtain raw where v: "v = JArr raw" using p by (cases v) (simp_all add: patch_strategies_def)
  define ids where "ids = uniq (List.map (\<lambda>x. js_trim (json_str x)) raw)"
  have g: "filter (\<lambda>x. \<not> STRATEGY_ID_RE x) ids = []" and w': "w' = w\<lparr>w_active_strategies := take 4 ids\<rparr>"
    using p unfolding v patch_strategies_def json.case Let_def ids_def [symmetric] by (auto simp: WORKFLOW_BOUNDS_def split: if_splits)
  have "list_all STRATEGY_ID_RE (take 4 ids)" using g by (auto simp: filter_empty_conv list_all_iff dest: in_set_takeD)
  then show ?thesis using c unfolding w' by (simp add: core_ok_def Let_def WORKFLOW_BOUNDS_def)
qed

lemma update_keeps:
  "core_ok w \<Longrightarrow> patch_timeframe v w = Inr w' \<Longrightarrow> core_ok w'"
  "core_ok w \<Longrightarrow> patch_playbook v w = Inr w' \<Longrightarrow> core_ok w'"
  "core_ok w \<Longrightarrow> patch_watch_only v w = Inr w' \<Longrightarrow> core_ok w'"
  by (auto simp: patch_timeframe_def patch_playbook_def patch_watch_only_def core_ok_def Let_def split: if_splits json.splits)

lemma kept_max: "core_ok w \<Longrightarrow> is_integer n \<Longrightarrow> in_range (Fin 1, Fin 300) n \<Longrightarrow> core_ok (set_watchlist_max n w)"
  by (rule watchlist_max_keeps) (simp_all add: WORKFLOW_BOUNDS_def)

lemmas core_keeps = clamped_keeps [where P = core_ok]
  flag_keeps [where P = core_ok]
  choice_keeps [where P = core_ok]
  whole_keeps [where P = core_ok]
  interval_keeps [where P = core_ok]
  model_id_keeps [where P = core_ok]
  text_list_keeps [where P = core_ok]

lemmas all_keep = clamped_keeps [where P = settings_ok]
  flag_keeps [where P = settings_ok]
  choice_keeps [where P = settings_ok]
  whole_keeps [where P = settings_ok]
  interval_keeps [where P = settings_ok]
  model_id_keeps [where P = settings_ok]
  text_list_keeps [where P = settings_ok]

lemma early_keep: "list_all (\<lambda>f. \<forall>p w es. core_ok w \<longrightarrow> core_ok (fst (f p (w, es)))) early_steps"
  unfolding early_steps_def Let_def WORKFLOW_BOUNDS_def workflow_bounds.simps list.pred_inject
  by (intro conjI allI impI TrueI;
      (rule on_field_keeps [where P = core_ok], erule (1) watchlist_keeps, assumption
      | rule on_field_keeps [where P = core_ok], erule (1) update_keeps(1), assumption
      | rule on_field_keeps [where P = core_ok], erule (1) update_keeps(2), assumption
      | rule on_field_keeps [where P = core_ok], erule (1) update_keeps(3), assumption
      | rule whole_keeps [where P = core_ok], erule (2) kept_max, assumption, simp, simp
      | rule core_keeps; (assumption | simp add: core_ok_def WORKFLOW_BOUNDS_def kept_values; fail)
      | simp))

lemma strategies_keep_all: "settings_ok w \<Longrightarrow> patch_strategies v w = Inr w' \<Longrightarrow> settings_ok w'"
  using strategies_keep [of w v w']
  by (auto simp: settings_ok_def patch_strategies_def Let_def split: json.splits if_splits)

lemma late_keep:
  "cli_ok cur \<Longrightarrow> list_all (\<lambda>f. \<forall>p w es. settings_ok w \<longrightarrow> settings_ok (fst (f p (w, es)))) (late_steps cur)"
  unfolding late_steps_def Let_def WORKFLOW_BOUNDS_def workflow_bounds.simps list.pred_inject
  by (intro conjI allI impI TrueI;
      (rule on_field_keeps [where P = settings_ok], erule (1) strategies_keep_all, assumption
      | rule cli_keeps [where P = settings_ok], assumption, assumption, simp add: settings_ok_def core_ok_def Let_def
      | rule all_keep; (assumption | simp add: settings_ok_def core_ok_def WORKFLOW_BOUNDS_def kept_values; fail)
      | simp))

lemma steps_keep:
  "list_all (\<lambda>f. \<forall>p w es. P w \<longrightarrow> P (fst (f p (w, es)))) fs \<Longrightarrow> P (fst st) \<Longrightarrow> P (fst (apply_steps p fs st))"
  unfolding apply_steps_def
proof (induction fs arbitrary: st)
  case (Cons f fs)
  then show ?case by (cases st) simp
qed simp

lemma core_ok_updates [simp]:
  "core_ok (w\<lparr>w_watch_only := x\<rparr>) = core_ok w" "core_ok (w\<lparr>w_updated_at := t\<rparr>) = core_ok w"
  by (simp_all add: core_ok_def)


definition demo_settings :: workflow where "demo_settings = DEFAULT_WORKFLOW [] (\<lambda>_. None)"

lemma default_texts:
  "pct_text (b_risk_pct WORKFLOW_BOUNDS) (w_risk_pct demo_settings)"
  "pct_text (b_daily_loss_stop_pct WORKFLOW_BOUNDS) (w_daily_loss_stop_pct demo_settings)"
  "pct_text (b_fast_move_pct WORKFLOW_BOUNDS) (w_fast_move_pct demo_settings)"
proof -
  have n: "in_range (b_risk_pct WORKFLOW_BOUNDS) (lit (1/2))" "w_risk_pct demo_settings = num_str (lit (1/2))"
    "in_range (b_daily_loss_stop_pct WORKFLOW_BOUNDS) (Fin 3)" "w_daily_loss_stop_pct demo_settings = num_str (Fin 3)"
    "in_range (b_fast_move_pct WORKFLOW_BOUNDS) (lit (4/5))" "w_fast_move_pct demo_settings = num_str (lit (4/5))"
    by code_simp+
  show "pct_text (b_risk_pct WORKFLOW_BOUNDS) (w_risk_pct demo_settings)" unfolding n(2) by (rule pct_textI [OF n(1)])
  show "pct_text (b_daily_loss_stop_pct WORKFLOW_BOUNDS) (w_daily_loss_stop_pct demo_settings)"
    unfolding n(4) by (rule pct_textI [OF n(3)])
  show "pct_text (b_fast_move_pct WORKFLOW_BOUNDS) (w_fast_move_pct demo_settings)" unfolding n(6) by (rule pct_textI [OF n(5)])
qed

lemma default_ok: "settings_ok demo_settings"
proof -
  have "w_watchlist demo_settings \<noteq> [] \<and> distinct (w_watchlist demo_settings) \<and> list_all symbol_re (w_watchlist demo_settings)"
    "of_idx (length (w_watchlist demo_settings)) \<le> w_watchlist_max demo_settings \<and> is_integer (w_watchlist_max demo_settings)"
    "in_range (b_watchlist_max WORKFLOW_BOUNDS) (w_watchlist_max demo_settings)" "w_timeframe demo_settings \<in> set (b_timeframes WORKFLOW_BOUNDS)"
    "in_range (b_info_every_ms WORKFLOW_BOUNDS) (w_info_every_ms demo_settings)" "in_range (b_leverage WORKFLOW_BOUNDS) (w_leverage demo_settings)"
    "in_range (b_max_open_threads WORKFLOW_BOUNDS) (w_max_open_threads demo_settings)"
    "in_range (b_max_opens_per_day WORKFLOW_BOUNDS) (w_max_opens_per_day demo_settings)"
    "length (w_playbook_text demo_settings) \<le> b_playbook_max_chars WORKFLOW_BOUNDS"
    "in_range (b_heartbeat_every_ms WORKFLOW_BOUNDS) (w_heartbeat_every_ms demo_settings)"
    "in_range (b_invalidation_confirm_bars WORKFLOW_BOUNDS) (w_invalidation_confirm_bars demo_settings)"
    "in_range (b_invalidation_buffer_atr WORKFLOW_BOUNDS) (w_invalidation_buffer_atr demo_settings)"
    "in_range (b_daily_judgment_cap WORKFLOW_BOUNDS) (w_daily_judgment_cap demo_settings)" "cli_ok (w_cli_commands demo_settings)"
    "length (w_active_strategies demo_settings) \<le> b_active_strategies_max WORKFLOW_BOUNDS"
    "list_all STRATEGY_ID_RE (w_active_strategies demo_settings)" "model_ok (w_brain_model demo_settings)"
    "model_ok (w_cheap_brain_model demo_settings)" "model_ok (w_exec_agent_model demo_settings)"
    "set (w_watch_only demo_settings) \<subseteq> set (w_watchlist demo_settings)"
    by code_simp+
  with default_texts show ?thesis unfolding settings_ok_def core_ok_def Let_def by (simp only: simp_thms)
qed


end
