(* ===== verification/MarketFeatures.thy ===== *)
theory MarketFeatures imports Indicators TimeFrames begin

text \<open>
  The structure features and the daily regime of \<open>market.ts\<close>: what the judgment sees of a series of bars. The clock
  and the natural logarithm (whose accuracy the language leaves open) are parameters; the sentence of the regime,
  Chinese prose made from its other fields, is left out.
\<close>

section \<open>Averages\<close>

fun ema_from :: "jsnum \<Rightarrow> jsnum option \<Rightarrow> jsnum list \<Rightarrow> jsnum list" where
  "ema_from k prev [] = []"
| "ema_from k prev (v # vs) = (let p = (case prev of None \<Rightarrow> v | Some q \<Rightarrow> v * k + q * (Fin 1 - k)) in p # ema_from k (Some p) vs)"

definition market_ema :: "jsnum list \<Rightarrow> nat \<Rightarrow> jsnum list" where
  "market_ema values period = ema_from (Fin 2 / num (period + 1)) None values"

definition true_range :: "kline \<Rightarrow> kline \<Rightarrow> jsnum" where
  "true_range p k = (let h = js_number (k_high k); l = js_number (k_low k); pc = js_number (k_close p)
     in js_max (js_max (h - l) \<bar>h - pc\<bar>) \<bar>l - pc\<bar>)"

text \<open>\<open>v ?? d\<close>.\<close>

definition default :: "'a option \<Rightarrow> 'a \<Rightarrow> 'a" where "default v d = (case v of None \<Rightarrow> d | Some x \<Rightarrow> x)"

text \<open>\<open>xs.slice(-n)\<close> for a positive \<open>n\<close>.\<close>

definition last_n :: "nat \<Rightarrow> 'a list \<Rightarrow> 'a list" where "last_n n xs = drop (length xs - n) xs"

definition market_atr :: "kline list \<Rightarrow> nat \<Rightarrow> jsnum" where
  "market_atr ks period = (let tail = last_n period (List.map (\<lambda>(p, k). true_range p k) (zip ks (tl ks))) in
     if tail = [] then Fin 0 else js_sum tail / num (length tail))"

definition trimDecimal :: "string \<Rightarrow> nat \<Rightarrow> string" where
  "trimDecimal s places = (let n = js_number s in if \<not> is_fin n then s else to_fixed places n)"

section \<open>Features\<close>

record tf_features =
  ft_tf :: string
  ft_last_close :: jsnum
  ft_last_open_time :: int
  ft_ema20 :: jsnum
  ft_ema50 :: jsnum
  ft_atr14 :: jsnum
  ft_swing_high_20 :: jsnum
  ft_swing_low_20 :: jsnum
  ft_swing_high_20_prev :: "jsnum option"
  ft_swing_low_20_prev :: "jsnum option"
  ft_swing_high_50 :: jsnum
  ft_swing_low_50 :: jsnum
  ft_dist_to_high20_pct :: jsnum
  ft_dist_to_low20_pct :: jsnum
  ft_vol_ratio_20 :: jsnum
  ft_change_pct_last :: jsnum
  ft_change_pct_5 :: jsnum
  ft_last_bars :: string
  ft_indicators :: "indicator_snapshot option"

text \<open>Month and day of a day number (days from 1970-01-01), and \<open>toISOString().slice(5, 16)\<close> with a blank for the T.\<close>

definition month_day :: "int \<Rightarrow> int \<times> int" where
  "month_day d = (let z = d + 719468; doe = z mod 146097;
     yoe = (doe - doe div 1460 + doe div 36524 - doe div 146096) div 365;
     doy = doe - (365 * yoe + yoe div 4 - yoe div 100); mp = (5 * doy + 2) div 153
     in (if mp < 10 then mp + 3 else mp - 9, doy - (153 * mp + 2) div 5 + 1))"

definition two :: "int \<Rightarrow> string" where "two n = (if n < 10 then ''0'' else []) @ nat_str n"

definition stamp :: "int \<Rightarrow> string" where
  "stamp t = (let (m, d) = month_day (t div 86400000); s = t mod 86400000
     in two m @ ''-'' @ two d @ '' '' @ two (s div 3600000) @ '':'' @ two (s div 60000 mod 60))"

definition bar_text :: "kline \<Rightarrow> string" where
  "bar_text k = (let o' = js_number (k_open k); c = js_number (k_close k); body = (c - o') / o' * Fin 100 in
     stamp (k_open_time k) @ '' O'' @ to_fixed 0 o' @ '' H'' @ to_fixed 0 (js_number (k_high k)) @ '' L'' @
     to_fixed 0 (js_number (k_low k)) @ '' C'' @ to_fixed 0 c @ '' ('' @ (if Fin 0 \<le> body then ''+'' else []) @
     to_fixed 2 body @ ''%)'')"

text \<open>\<open>ks.slice(-21, -1)\<close>: at most twenty elements before the last one.\<close>

definition before_last :: "'a list \<Rightarrow> 'a list" where "before_last ks = last_n 20 (butlast ks)"

definition closed_bars :: "kline list \<Rightarrow> int \<Rightarrow> nat \<Rightarrow> kline list" where
  "closed_bars klines now least = (let closed = filter (\<lambda>k. k_close_time k \<le> now) klines in
     if least \<le> length closed then closed else klines)"

text \<open>None is the exception on an empty series.\<close>

definition tfFeatures :: "int \<Rightarrow> string \<Rightarrow> kline list \<Rightarrow> tf_features option" where
  "tfFeatures now tf klines = (let ks = closed_bars klines now 5 in
     if ks = [] then None else
     let cl = closes ks; lastk = List.last ks; lastClose = js_number (k_close lastk); prev20 = before_last ks;
         hi20 = js_maxs (highs (last_n 20 ks)); lo20 = js_mins (lows (last_n 20 ks));
         avgVol20 = js_sum (before_last (volumes ks)) / js_max (Fin 1) (js_min (Fin 20) (num (length ks) - Fin 1));
         prev = (if 2 \<le> length ks then ks ! (length ks - 2) else lastk); prev5 = (if 6 \<le> length ks then ks ! (length ks - 6) else hd ks)
     in Some \<lparr>ft_tf = tf, ft_last_close = lastClose, ft_last_open_time = k_open_time lastk,
       ft_ema20 = List.last (market_ema cl 20), ft_ema50 = List.last (market_ema cl 50), ft_atr14 = market_atr ks 14,
       ft_swing_high_20 = hi20, ft_swing_low_20 = lo20,
       ft_swing_high_20_prev = Some (if prev20 \<noteq> [] then js_maxs (highs prev20) else hi20),
       ft_swing_low_20_prev = Some (if prev20 \<noteq> [] then js_mins (lows prev20) else lo20),
       ft_swing_high_50 = js_maxs (highs (last_n 50 ks)), ft_swing_low_50 = js_mins (lows (last_n 50 ks)),
       ft_dist_to_high20_pct = (hi20 - lastClose) / lastClose * Fin 100,
       ft_dist_to_low20_pct = (lastClose - lo20) / lastClose * Fin 100,
       ft_vol_ratio_20 = (if Fin 0 < avgVol20 then js_number (k_volume lastk) / avgVol20 else Fin 1),
       ft_change_pct_last = (lastClose - js_number (k_close prev)) / js_number (k_close prev) * Fin 100,
       ft_change_pct_5 = (lastClose - js_number (k_close prev5)) / js_number (k_close prev5) * Fin 100,
       ft_last_bars = join_str ''; '' (List.map bar_text (last_n 4 ks)), ft_indicators = indicatorSnapshot ks tf\<rparr>)"

section \<open>Exchange information\<close>

record raw_filter =
  rf_type :: string
  rf_step_size :: "string option"
  rf_tick_size :: "string option"
  rf_min_qty :: "string option"
  rf_notional :: "string option"

record raw_symbol =
  rs_symbol :: string
  rs_status :: string
  rs_contract_type :: string
  rs_quote_asset :: string
  rs_price_precision :: nat
  rs_quantity_precision :: nat
  rs_filters :: "raw_filter list"

definition or_else :: "'a option \<Rightarrow> 'a option \<Rightarrow> 'a option" where "or_else a b = (case a of None \<Rightarrow> b | Some x \<Rightarrow> Some x)"

definition or_text :: "string option \<Rightarrow> string \<Rightarrow> string" where "or_text a d = (case a of None \<Rightarrow> d | Some x \<Rightarrow> x)"

definition filter_of :: "raw_symbol \<Rightarrow> string \<Rightarrow> raw_filter option" where
  "filter_of s t = List.find (\<lambda>f. rf_type f = t) (rs_filters s)"

definition symbol_row :: "raw_symbol \<Rightarrow> symbol_info" where
  "symbol_row s = (let lot = filter_of s ''LOT_SIZE''; price = filter_of s ''PRICE_FILTER''; notional = filter_of s ''MIN_NOTIONAL''
     in \<lparr>si_symbol = rs_symbol s, si_status = rs_status s, si_price_precision = rs_price_precision s,
       si_qty_precision = rs_quantity_precision s, si_step_size = or_text (Option.bind lot rf_step_size) ''0.001'',
       si_tick_size = or_text (Option.bind price rf_tick_size) ''0.01'',
       si_min_qty = or_text (or_else (Option.bind lot rf_min_qty) (Option.bind lot rf_step_size)) ''0.001'',
       si_min_notional = or_text (Option.bind notional rf_notional) ''5''\<rparr>)"

definition usdt_rows :: "raw_symbol list \<Rightarrow> symbol_info list" where
  "usdt_rows raw = List.map symbol_row (filter (\<lambda>s. rs_contract_type s \<in> {''PERPETUAL'', ''TRADIFI_PERPETUAL''} \<and> rs_quote_asset s = ''USDT'') raw)"

section \<open>Daily regime\<close>

datatype regime = Regime_bull | Regime_bear | Regime_range | Regime_volatile

record daily_regime =
  dr_regime :: regime
  dr_ret_20d_pct :: jsnum
  dr_ret_5d_pct :: jsnum
  dr_vol_pct_rank :: jsnum
  dr_atr_pct :: jsnum
  dr_dist_to_ema200_pct :: "jsnum option"
  dr_as_of :: int

definition sample_stdev :: "jsnum list \<Rightarrow> jsnum" where
  "sample_stdev xs = (if length xs < 2 then Fin 0
     else let m = js_sum xs / num (length xs)
          in js_sqrt (js_sum (List.map (\<lambda>b. (b - m) * (b - m)) xs) / num (length xs - 1)))"

text \<open>The windows of twenty returns ending at \<open>length logs\<close>, one before, and so on, at most a hundred.\<close>

definition vol_windows :: "jsnum list \<Rightarrow> jsnum list" where
  "vol_windows logs = List.map (\<lambda>i. sample_stdev (take 20 (drop (length logs - i - 20) logs))) [0..<min 100 (length logs + 1 - 20)]"

definition return_pct :: "jsnum list \<Rightarrow> nat \<Rightarrow> jsnum" where
  "return_pct cl n = (let base = (if n < length cl then cl ! (length cl - 1 - n) else hd cl) in (List.last cl - base) / base * Fin 100)"

definition dailyRegime :: "(jsnum \<Rightarrow> jsnum) \<Rightarrow> kline list \<Rightarrow> int \<Rightarrow> daily_regime option" where
  "dailyRegime log_of klines now = (let ks = closed_bars klines now 30 in
     if length ks < 30 then None else
     let cl = closes ks; lastc = List.last cl; e20 = List.last (market_ema cl 20); e50 = List.last (market_ema cl 50);
         e200 = (if 200 \<le> length cl then Some (List.last (market_ema cl 200)) else None);
         ret20 = return_pct cl 20; ret5 = return_pct cl 5;
         logs = List.map (\<lambda>(a, b). log_of (b / a)) (zip cl (tl cl)); windows = vol_windows logs;
         cur = (case windows of [] \<Rightarrow> Fin 0 | w # _ \<Rightarrow> w);
         rank = (if 1 < length windows then num (length (filter (\<lambda>w. w \<le> cur) windows)) / num (length windows) else lit (1/2));
         stackUp = (e20 < lastc \<and> e50 < e20 \<and> (case e200 of None \<Rightarrow> True | Some e \<Rightarrow> e < e50));
         stackDown = (lastc < e20 \<and> e20 < e50 \<and> (case e200 of None \<Rightarrow> True | Some e \<Rightarrow> e50 < e))
     in Some \<lparr>dr_regime = (if lit (85/100) \<le> rank then Regime_volatile else if stackUp \<and> Fin 0 < ret20 then Regime_bull
         else if stackDown \<and> ret20 < Fin 0 then Regime_bear else Regime_range),
       dr_ret_20d_pct = ret20, dr_ret_5d_pct = ret5, dr_vol_pct_rank = rank, dr_atr_pct = market_atr ks 14 / lastc * Fin 100,
       dr_dist_to_ema200_pct = map_option (\<lambda>e. (lastc - e) / e * Fin 100) e200, dr_as_of = k_open_time (List.last ks)\<rparr>)"

lemma stamps:
  "stamp 0 = ''01-01 00:00''" "stamp 1709164799999 = ''02-28 23:59''" "stamp 1709164800000 = ''02-29 00:00''" "stamp 1735689599000 = ''12-31 23:59''"
  by code_simp+

end
