(* ===== verification/BarMetrics.thy ===== *)
theory BarMetrics imports MarketFeatures Klines Outcome begin

text \<open>
  Per-bar metrics and the verdict of one bar under a set of thresholds (\<open>bar-metrics.ts\<close>), with the timeframe floor of
  \<open>review-metrics.ts\<close>. Loading (\<open>loadSeriesBundle\<close>, \<open>listTradableSymbols\<close>) is network access and is left out.
\<close>

section \<open>Thresholds\<close>

record bar_metrics =
  bm_t :: int
  bm_close :: jsnum
  bm_atr :: jsnum
  bm_atr_pct :: jsnum
  bm_atr_floor :: jsnum
  bm_hi20 :: jsnum
  bm_lo20 :: jsnum
  bm_hi20_prev :: jsnum
  bm_lo20_prev :: jsnum
  bm_vol_ratio :: jsnum
  bm_ema20 :: jsnum
  bm_dir_h1 :: "direction option"
  bm_dir_h4 :: "direction option"
  bm_h4_dist_atr :: "jsnum option"
  bm_regime :: "regime option"
  bm_funding_abs_pct :: "jsnum option"
  bm_broke_up :: bool
  bm_broke_down :: bool
  bm_bars_since_up :: int
  bm_bars_since_down :: int
  bm_break_vol_up :: "jsnum option"
  bm_break_vol_down :: "jsnum option"

datatype vol_mode = Vol_current | Vol_either

datatype trend_mode = Trend_both | Trend_h1_veto

datatype level_mode = Level_self | Level_prior

record bar_thresholds =
  bt_atr_floor_mult :: jsnum
  bt_chase_atr_max :: jsnum
  bt_retest_vol_min :: jsnum
  bt_vol_mode :: vol_mode
  bt_trend_mode :: trend_mode
  bt_h4_veto_atr :: jsnum
  bt_breakout_level :: level_mode
  bt_breakout_window :: int
  bt_range_vol_min :: jsnum
  bt_funding_abs_max :: jsnum
  bt_require_trend_regime :: bool

definition CURRENT_THRESHOLDS :: bar_thresholds where
  "CURRENT_THRESHOLDS = \<lparr>bt_atr_floor_mult = Fin 1, bt_chase_atr_max = lit (3/2), bt_retest_vol_min = Fin 1,
     bt_vol_mode = Vol_current, bt_trend_mode = Trend_both, bt_h4_veto_atr = Fin 1, bt_breakout_level = Level_self,
     bt_breakout_window = 1, bt_range_vol_min = lit (3/2), bt_funding_abs_max = lit (5/100), bt_require_trend_regime = False\<rparr>"

datatype condition_key = C_atr_ok | C_trend_agree | C_within_chase | C_breakout | C_retest_vol | C_funding_ok | C_regime_ok

definition CONDITION_KEYS :: "condition_key list" where
  "CONDITION_KEYS = [C_atr_ok, C_trend_agree, C_within_chase, C_breakout, C_retest_vol, C_funding_ok, C_regime_ok]"

record condition_eval =
  ce_dir :: direction
  ce_dir_trend :: "direction option"
  ce_pass :: "condition_key \<Rightarrow> bool"
  ce_joint :: bool
  ce_dist_atr :: jsnum
  ce_level :: jsnum
  ce_watch_eligible :: bool
  ce_retest_confirmed :: bool

definition or_zero :: "jsnum option \<Rightarrow> jsnum" where "or_zero v = (case v of None \<Rightarrow> Fin 0 | Some x \<Rightarrow> x)"

definition trend_dir :: "bar_metrics \<Rightarrow> bar_thresholds \<Rightarrow> direction option" where
  "trend_dir m th = (case bt_trend_mode th of
     Trend_both \<Rightarrow> if bm_dir_h1 m \<noteq> None \<and> bm_dir_h1 m = bm_dir_h4 m then bm_dir_h1 m else None
   | Trend_h1_veto \<Rightarrow> if bm_dir_h1 m \<noteq> None \<and>
         \<not> (bm_dir_h4 m \<noteq> None \<and> bm_dir_h4 m \<noteq> bm_dir_h1 m \<and> bt_h4_veto_atr th < or_zero (bm_h4_dist_atr m))
       then bm_dir_h1 m else None)"

definition eval_dir :: "bar_metrics \<Rightarrow> bar_thresholds \<Rightarrow> direction" where
  "eval_dir m th = (case trend_dir m th of Some d \<Rightarrow> d
     | None \<Rightarrow> if \<bar>bm_close m - bm_hi20 m\<bar> \<le> \<bar>bm_close m - bm_lo20 m\<bar> then Long else Short)"

definition break_level :: "bar_metrics \<Rightarrow> bar_thresholds \<Rightarrow> direction \<Rightarrow> jsnum" where
  "break_level m th d = (if bt_breakout_level th = Level_self then (if d = Long then bm_hi20 m else bm_lo20 m)
     else if d = Long then bm_hi20_prev m else bm_lo20_prev m)"

definition bars_since :: "bar_metrics \<Rightarrow> direction \<Rightarrow> int" where
  "bars_since m d = (if d = Long then bm_bars_since_up m else bm_bars_since_down m)"

definition recent :: "bar_metrics \<Rightarrow> bar_thresholds \<Rightarrow> direction \<Rightarrow> bool" where
  "recent m th d = (0 \<le> bars_since m d \<and> bars_since m d < bt_breakout_window th)"

definition broke_out :: "bar_metrics \<Rightarrow> bar_thresholds \<Rightarrow> direction \<Rightarrow> bool" where
  "broke_out m th d = (if bt_breakout_level th = Level_self
     then (if d = Long then bm_hi20 m < bm_close m else bm_close m < bm_lo20 m) else recent m th d)"

definition vol_ok :: "bar_metrics \<Rightarrow> bar_thresholds \<Rightarrow> direction \<Rightarrow> bool" where
  "vol_ok m th d = (bt_retest_vol_min th \<le> bm_vol_ratio m \<or> bt_vol_mode th = Vol_either \<and>
     (case (if d = Long then bm_break_vol_up m else bm_break_vol_down m) of None \<Rightarrow> False
      | Some v \<Rightarrow> recent m th d \<and> bt_retest_vol_min th \<le> v))"

definition regime_ok :: "bar_metrics \<Rightarrow> bar_thresholds \<Rightarrow> direction \<Rightarrow> bool" where
  "regime_ok m th d = (case bm_regime m of None \<Rightarrow> \<not> bt_require_trend_regime th
     | Some r \<Rightarrow> if bt_require_trend_regime th \<and> r \<noteq> Regime_bull \<and> r \<noteq> Regime_bear then False
         else if r = Regime_bear \<and> d = Long then False else if r = Regime_bull \<and> d \<noteq> Long then False
         else if r = Regime_range then bt_range_vol_min th \<le> bm_vol_ratio m else True)"

definition evaluateBar :: "bar_metrics \<Rightarrow> bar_thresholds \<Rightarrow> condition_eval" where
  "evaluateBar m th = (let dt = trend_dir m th; d = eval_dir m th; level = break_level m th d;
     distAtr = (if Fin 0 < bm_atr m then \<bar>bm_close m - level\<bar> / bm_atr m else PInf);
     breakout = broke_out m th d; volOk = vol_ok m th d;
     pass = (\<lambda>k. case k of
        C_atr_ok \<Rightarrow> bm_atr_floor m * bt_atr_floor_mult th \<le> bm_atr_pct m
      | C_trend_agree \<Rightarrow> dt \<noteq> None
      | C_within_chase \<Rightarrow> distAtr \<le> bt_chase_atr_max th
      | C_breakout \<Rightarrow> breakout
      | C_retest_vol \<Rightarrow> volOk
      | C_funding_ok \<Rightarrow> (case bm_funding_abs_pct m of None \<Rightarrow> True | Some x \<Rightarrow> x \<le> bt_funding_abs_max th)
      | C_regime_ok \<Rightarrow> regime_ok m th d);
     confirmed = (breakout \<and> volOk)
   in \<lparr>ce_dir = d, ce_dir_trend = dt, ce_pass = pass, ce_joint = list_all pass CONDITION_KEYS, ce_dist_atr = distAtr,
       ce_level = level, ce_watch_eligible = (dt \<noteq> None \<and> pass C_within_chase \<and> \<not> confirmed), ce_retest_confirmed = confirmed\<rparr>)"

section \<open>Rolling values\<close>

definition rolling_tr :: "kline list \<Rightarrow> nat \<Rightarrow> jsnum" where
  "rolling_tr bars i = (if i = 0 then Fin 0 else true_range (bars ! (i - 1)) (bars ! i))"

definition rolling_step :: "kline list \<Rightarrow> nat \<Rightarrow> jsnum \<Rightarrow> nat \<Rightarrow> jsnum \<times> jsnum" where
  "rolling_step bars period acc i = (if i = 0 then (acc, Fin 0)
     else let s1 = acc + rolling_tr bars i; s2 = (if period < i then s1 - rolling_tr bars (i - period) else s1)
          in (s2, if period \<le> i then s2 / num period else Fin 0))"

definition rollingAtr :: "kline list \<Rightarrow> nat \<Rightarrow> jsnum list" where
  "rollingAtr bars period = scan (rolling_step bars period) (Fin 0) [0..<length bars]"

text \<open>The extreme of the last \<open>n\<close> values up to the bar, or up to the one before.\<close>

definition rollingExtreme :: "jsnum list \<Rightarrow> nat \<Rightarrow> bool \<Rightarrow> bool \<Rightarrow> jsnum list" where
  "rollingExtreme xs n high inclusive = List.map (\<lambda>i.
     if \<not> inclusive \<and> i = 0 then NaN
     else let w = window n xs (if inclusive then i else i - 1) in
       if w = [] then NaN else if high then js_maxs w else js_mins w) [0..<length xs]"

definition rollingVolRatio :: "kline list \<Rightarrow> nat \<Rightarrow> jsnum list" where
  "rollingVolRatio bars n = List.map (\<lambda>i. if i = 0 then Fin 1
     else let win = List.map (\<lambda>j. volumes bars ! j) [i - n..<i]; avg = js_sum win / num (max 1 (length win))
          in if Fin 0 < avg then volumes bars ! i / avg else Fin 1) [0..<length bars]"

definition ema_at :: "kline list \<Rightarrow> nat \<Rightarrow> nat \<Rightarrow> nat \<Rightarrow> jsnum" where
  "ema_at bars w period i = List.last (market_ema (window w (closes bars) i) period)"

definition windowedEmaDir :: "kline list \<Rightarrow> nat \<Rightarrow> (direction option \<times> jsnum) list" where
  "windowedEmaDir bars w = List.map (\<lambda>i. let a = ema_at bars w 20 i; b = ema_at bars w 50 i
     in (if b < a then Some Long else if a < b then Some Short else None, a)) [0..<length bars]"

definition ATR_PCT_FLOOR :: "(string \<times> jsnum) list" where
  "ATR_PCT_FLOOR = [(''1m'', lit (4/100)), (''5m'', lit (8/100)), (''15m'', lit (15/100)), (''30m'', lit (2/10)),
     (''1h'', lit (3/10)), (''4h'', lit (6/10)), (''1d'', lit (3/2))]"

definition atrPctFloor :: "string \<Rightarrow> jsnum" where
  "atrPctFloor tf = (case map_of ATR_PCT_FLOOR tf of Some x \<Rightarrow> x
     | None \<Rightarrow> (case tfToMs tf of None \<Rightarrow> lit (3/10)
         | Some ms \<Rightarrow> js_round (lit (8/100) * js_sqrt (ms / Fin 60000 / Fin 5) * Fin 100) / Fin 100))"

section \<open>Metrics\<close>

record funding_point =
  fp_at :: int
  fp_rate :: string

record series_bundle =
  sb_base :: "kline list"
  sb_h1 :: "kline list"
  sb_h4 :: "kline list"
  sb_d1 :: "kline list"
  sb_funding :: "funding_point list"

function funding_loop :: "funding_point list \<Rightarrow> int \<Rightarrow> int \<Rightarrow> int \<Rightarrow> int \<Rightarrow> int" where
  "funding_loop funding t lo hi ans = (if \<not> lo \<le> hi then ans
     else let mid = (lo + hi) div 2 in
       if fp_at (funding ! nat mid) \<le> t then funding_loop funding t (mid + 1) hi mid
       else funding_loop funding t lo (mid - 1) ans)"
  by auto
termination by (relation "measure (\<lambda>(funding, t, lo, hi, ans). nat (hi - lo + 1))") auto

declare funding_loop.simps [simp del]

definition lastFundingIndex :: "funding_point list \<Rightarrow> int \<Rightarrow> int" where
  "lastFundingIndex funding t = funding_loop funding t 0 (int (length funding) - 1) (- 1)"

text \<open>The regime of the daily bars up to index \<open>iD\<close>, and the lookup through the cache of the indices seen so far.\<close>

definition regime_at :: "(jsnum \<Rightarrow> jsnum) \<Rightarrow> kline list \<Rightarrow> nat \<Rightarrow> int \<Rightarrow> regime option" where
  "regime_at log_of d1 iD t = (let daily = drop (iD - 259) (take (iD + 1) d1) in
     if 30 \<le> length daily then map_option dr_regime (dailyRegime log_of daily t) else None)"

type_synonym regime_cache = "nat \<rightharpoonup> regime option"

definition cached_regime :: "(jsnum \<Rightarrow> jsnum) \<Rightarrow> kline list \<Rightarrow> regime_cache \<Rightarrow> int \<Rightarrow> int \<Rightarrow> regime option \<times> regime_cache" where
  "cached_regime log_of d1 cache iD t = (if iD < 0 then (None, cache)
     else case cache (nat iD) of Some r \<Rightarrow> (r, cache)
       | None \<Rightarrow> (let r = regime_at log_of d1 (nat iD) t in (r, cache(nat iD \<mapsto> r))))"

text \<open>What is computed once for the whole series.\<close>

record series_values =
  sv_atr :: "jsnum list"
  sv_hi :: "jsnum list"
  sv_lo :: "jsnum list"
  sv_hi_prev :: "jsnum list"
  sv_lo_prev :: "jsnum list"
  sv_vol :: "jsnum list"
  sv_base :: "(direction option \<times> jsnum) list"
  sv_h1 :: "(direction option \<times> jsnum) list"
  sv_h4 :: "(direction option \<times> jsnum) list"
  sv_h4_atr :: "jsnum list"
  sv_floor :: jsnum

definition series_values_of :: "series_bundle \<Rightarrow> string \<Rightarrow> series_values" where
  "series_values_of s tf = (let bars = sb_base s in
     \<lparr>sv_atr = rollingAtr bars 14, sv_hi = rollingExtreme (highs bars) 20 True True, sv_lo = rollingExtreme (lows bars) 20 False True,
      sv_hi_prev = rollingExtreme (highs bars) 20 True False, sv_lo_prev = rollingExtreme (lows bars) 20 False False,
      sv_vol = rollingVolRatio bars 20, sv_base = windowedEmaDir bars 60, sv_h1 = windowedEmaDir (sb_h1 s) 120,
      sv_h4 = windowedEmaDir (sb_h4 s) 80, sv_h4_atr = rollingAtr (sb_h4 s) 14, sv_floor = atrPctFloor tf\<rparr>)"

definition broke_up_at :: "series_bundle \<Rightarrow> series_values \<Rightarrow> nat \<Rightarrow> bool" where
  "broke_up_at s v i = (is_fin (sv_hi_prev v ! i) \<and> sv_hi_prev v ! i < closes (sb_base s) ! i)"

definition broke_down_at :: "series_bundle \<Rightarrow> series_values \<Rightarrow> nat \<Rightarrow> bool" where
  "broke_down_at s v i = (is_fin (sv_lo_prev v ! i) \<and> closes (sb_base s) ! i < sv_lo_prev v ! i)"

definition at_int :: "'a list \<Rightarrow> int \<Rightarrow> 'a" where "at_int xs i = xs ! nat i"

text \<open>The row of bar \<open>i\<close>, given the last breakouts (-1 for none) and the daily regime.\<close>

definition metrics_row :: "series_bundle \<Rightarrow> series_values \<Rightarrow> nat \<Rightarrow> int \<Rightarrow> int \<Rightarrow> regime option \<Rightarrow> bar_metrics" where
  "metrics_row s v i lastUp lastDown reg = (let t = k_close_time (sb_base s ! i); c = closes (sb_base s) ! i; a = sv_atr v ! i;
     i1 = lastClosedIndex (sb_h1 s) t; i4 = lastClosedIndex (sb_h4 s) t; fIdx = lastFundingIndex (sb_funding s) t in
     \<lparr>bm_t = t, bm_close = c, bm_atr = a, bm_atr_pct = a / c * Fin 100, bm_atr_floor = sv_floor v, bm_hi20 = sv_hi v ! i,
      bm_lo20 = sv_lo v ! i, bm_hi20_prev = sv_hi_prev v ! i, bm_lo20_prev = sv_lo_prev v ! i, bm_vol_ratio = sv_vol v ! i,
      bm_ema20 = snd (sv_base v ! i), bm_dir_h1 = (if 0 \<le> i1 then fst (at_int (sv_h1 v) i1) else None),
      bm_dir_h4 = (if 0 \<le> i4 then fst (at_int (sv_h4 v) i4) else None),
      bm_h4_dist_atr = (if 0 \<le> i4 \<and> Fin 0 < at_int (sv_h4_atr v) i4
         then Some (\<bar>at_int (closes (sb_h4 s)) i4 - snd (at_int (sv_h4 v) i4)\<bar> / at_int (sv_h4_atr v) i4) else None),
      bm_regime = reg,
      bm_funding_abs_pct = (if 0 \<le> fIdx then Some (\<bar>js_number (fp_rate (at_int (sb_funding s) fIdx))\<bar> * Fin 100) else None),
      bm_broke_up = broke_up_at s v i, bm_broke_down = broke_down_at s v i,
      bm_bars_since_up = (if 0 \<le> lastUp then int i - lastUp else - 1),
      bm_bars_since_down = (if 0 \<le> lastDown then int i - lastDown else - 1),
      bm_break_vol_up = (if 0 \<le> lastUp then Some (at_int (sv_vol v) lastUp) else None),
      bm_break_vol_down = (if 0 \<le> lastDown then Some (at_int (sv_vol v) lastDown) else None)\<rparr>)"

definition row_wanted :: "series_bundle \<Rightarrow> series_values \<Rightarrow> int \<Rightarrow> int \<Rightarrow> nat \<Rightarrow> bool" where
  "row_wanted s v from' to' i = (let t = k_close_time (sb_base s ! i) in
     \<not> (t < from' \<or> to' < t) \<and> \<not> (i < 20 \<or> \<not> is_fin (sv_hi_prev v ! i)) \<and> Fin 0 < sv_atr v ! i \<and> Fin 0 < closes (sb_base s) ! i)"

type_synonym metrics_state = "int \<times> int \<times> regime_cache"

definition metrics_step :: "(jsnum \<Rightarrow> jsnum) \<Rightarrow> series_bundle \<Rightarrow> series_values \<Rightarrow> int \<Rightarrow> int \<Rightarrow> metrics_state \<Rightarrow> nat
    \<Rightarrow> metrics_state \<times> (nat \<times> bar_metrics) option" where
  "metrics_step log_of s v from' to' = (\<lambda>(lastUp, lastDown, cache) i.
     let up = (if broke_up_at s v i then int i else lastUp); down = (if broke_down_at s v i then int i else lastDown)
     in if \<not> row_wanted s v from' to' i then ((up, down, cache), None)
        else let t = k_close_time (sb_base s ! i); (reg, cache') = cached_regime log_of (sb_d1 s) cache (lastClosedIndex (sb_d1 s) t) t
             in ((up, down, cache'), Some (i, metrics_row s v i up down reg)))"

definition computeMetrics :: "(jsnum \<Rightarrow> jsnum) \<Rightarrow> series_bundle \<Rightarrow> string \<Rightarrow> int \<Rightarrow> int \<Rightarrow> (nat \<times> bar_metrics) list" where
  "computeMetrics log_of s tf from' to' = (let v = series_values_of s tf in
     List.map_filter id (scan (metrics_step log_of s v from' to') (- 1, - 1, Map.empty) [0..<length (sb_base s)]))"

section \<open>Scoring\<close>

record outcome_params =
  op_stop_atr :: jsnum
  op_tp_r :: jsnum
  op_horizon_bars :: nat

definition OUTCOME_DEFAULTS :: outcome_params where
  "OUTCOME_DEFAULTS = \<lparr>op_stop_atr = lit (8/10), op_tp_r = lit (3/2), op_horizon_bars = 48\<rparr>"

definition scoreCandidate :: "kline list \<Rightarrow> nat \<Rightarrow> bar_metrics \<Rightarrow> condition_eval \<Rightarrow> outcome_params \<Rightarrow> jsnum option" where
  "scoreCandidate bars i m ev p = (if length bars \<le> i + 1 then None
     else let fill = js_number (k_open (bars ! (i + 1))); long = (ce_dir ev = Long);
              anchor = (if long then js_min (ce_level ev) fill else js_max (ce_level ev) fill);
              stop = (if long then anchor - op_stop_atr p * bm_atr m else anchor + op_stop_atr p * bm_atr m)
          in case openTrade (ce_dir ev) fill stop None of None \<Rightarrow> None
             | Some t0 \<Rightarrow>
               (let t = t0\<lparr>ot_tp := Some (if long then fill + op_tp_r p * ot_stop_distance t0 else fill - op_tp_r p * ot_stop_distance t0)\<rparr>;
                    e = min (length bars - 1) (i + op_horizon_bars p)
                in case walk t 0 (drop (i + 1) (take (e + 1) bars)) of
                     (t', Some (_, x)) \<Rightarrow> Some (tradeR t' (te_price x))
                   | (t', None) \<Rightarrow> Some (tradeR t' (js_number (k_close (bars ! e))))))"

end
