(* ===== verification/BarFacts.thy ===== *)
theory BarFacts imports BarMetrics IndicatorFacts begin

text \<open>
  What holds of the metrics: the cache of daily regimes never changes a row, loosening a threshold never loses a
  candidate, and the thresholds in force can never be met.
\<close>

section \<open>The regime cache\<close>

text \<open>The rows without the cache.\<close>

definition metrics_direct :: "(jsnum \<Rightarrow> jsnum) \<Rightarrow> series_bundle \<Rightarrow> series_values \<Rightarrow> int \<Rightarrow> int \<Rightarrow> int \<times> int \<Rightarrow> nat
    \<Rightarrow> (int \<times> int) \<times> (nat \<times> bar_metrics) option" where
  "metrics_direct log_of s v from' to' = (\<lambda>(lastUp, lastDown) i.
     let up = (if broke_up_at s v i then int i else lastUp); down = (if broke_down_at s v i then int i else lastDown);
         t = k_close_time (sb_base s ! i); iD = lastClosedIndex (sb_d1 s) t
     in ((up, down), if \<not> row_wanted s v from' to' i then None
        else Some (i, metrics_row s v i up down (if iD < 0 then None else regime_at log_of (sb_d1 s) (nat iD) t))))"

definition compute_direct :: "(jsnum \<Rightarrow> jsnum) \<Rightarrow> series_bundle \<Rightarrow> string \<Rightarrow> int \<Rightarrow> int \<Rightarrow> (nat \<times> bar_metrics) list" where
  "compute_direct log_of s tf from' to' = (let v = series_values_of s tf in
     List.map_filter id (scan (metrics_direct log_of s v from' to') (- 1, - 1) [0..<length (sb_base s)]))"

lemma closed_bars_all: "\<forall>k\<in>set ks. k_close_time k \<le> t \<Longrightarrow> closed_bars ks t n = ks"
  by (simp add: closed_bars_def filter_True)

lemma daily_closed:
  assumes "sorted (List.map k_close_time d1)" "lastClosedIndex d1 t = int iD"
  shows "\<forall>k\<in>set (drop (iD - 259) (take (iD + 1) d1)). k_close_time k \<le> t"
  using lastClosedIndex_correct [OF assms(1), of t] assms(2)
  by (auto simp: closed_before_def dest!: in_set_dropD) (auto simp: in_set_conv_nth)

definition regime_of :: "(jsnum \<Rightarrow> jsnum) \<Rightarrow> kline list \<Rightarrow> nat \<Rightarrow> regime option" where
  "regime_of log_of d1 iD = (let daily = drop (iD - 259) (take (iD + 1) d1) in
     if 30 \<le> length daily then map_option dr_regime (dailyRegime log_of daily (Max (k_close_time ` set daily))) else None)"

lemma regime_at_of:
  assumes "sorted (List.map k_close_time d1)" "lastClosedIndex d1 t = int iD"
  shows "regime_at log_of d1 iD t = regime_of log_of d1 iD"
proof -
  let ?d = "drop (iD - 259) (take (iD + 1) d1)"
  have "closed_bars ?d t 30 = closed_bars ?d (Max (k_close_time ` set ?d)) 30"
    using daily_closed [OF assms] by (simp add: closed_bars_all)
  then have "dailyRegime log_of ?d t = dailyRegime log_of ?d (Max (k_close_time ` set ?d))" by (simp only: dailyRegime_def)
  then show ?thesis by (simp only: regime_at_def regime_of_def Let_def)
qed

text \<open>A cache is sound when every entry is the regime it stands for.\<close>

definition cache_ok :: "(jsnum \<Rightarrow> jsnum) \<Rightarrow> kline list \<Rightarrow> regime_cache \<Rightarrow> bool" where
  "cache_ok log_of d1 c = (\<forall>i r. c i = Some r \<longrightarrow> r = regime_of log_of d1 i)"

lemma cached_ok:
  assumes "sorted (List.map k_close_time d1)" "cache_ok log_of d1 c" and iD: "iD = lastClosedIndex d1 t"
  shows "fst (cached_regime log_of d1 c iD t) = (if iD < 0 then None else regime_at log_of d1 (nat iD) t)"
    and "cache_ok log_of d1 (snd (cached_regime log_of d1 c iD t))"
proof -
  have "0 \<le> iD \<Longrightarrow> regime_at log_of d1 (nat iD) t = regime_of log_of d1 (nat iD)"
    using regime_at_of [OF assms(1), of t "nat iD"] iD by simp
  then show "fst (cached_regime log_of d1 c iD t) = (if iD < 0 then None else regime_at log_of d1 (nat iD) t)"
    "cache_ok log_of d1 (snd (cached_regime log_of d1 c iD t))"
    using assms(2) by (auto simp: cached_regime_def cache_ok_def Let_def split: option.splits)
qed

lemma scan_related:
  assumes "\<And>s s' i. R s s' \<Longrightarrow> R (fst (f s i)) (fst (g s' i)) \<and> snd (f s i) = snd (g s' i)" "R s s'"
  shows "scan f s is = scan g s' is"
  using assms(2)
proof (induction "is" arbitrary: s s')
  case (Cons i "is")
  then show ?case using assms(1) [OF Cons.prems, of i] by (simp add: case_prod_beta Let_def)
qed simp

lemma step_direct:
  assumes "sorted (List.map k_close_time (sb_d1 s))" and st: "fst st = up" "fst (snd st) = down" "cache_ok log_of (sb_d1 s) (snd (snd st))"
  shows "snd (metrics_step log_of s v a b st i) = snd (metrics_direct log_of s v a b (up, down) i)"
    and "fst (fst (metrics_step log_of s v a b st i)) = fst (fst (metrics_direct log_of s v a b (up, down) i))"
    and "fst (snd (fst (metrics_step log_of s v a b st i))) = snd (fst (metrics_direct log_of s v a b (up, down) i))"
    and "cache_ok log_of (sb_d1 s) (snd (snd (fst (metrics_step log_of s v a b st i))))"
  using cached_ok [OF assms(1) st(3) refl, of "k_close_time (sb_base s ! i)"] st
  by (cases st; auto simp: metrics_step_def metrics_direct_def Let_def case_prod_beta)+

text \<open>C35 The cache of daily regimes never changes a result: the rows are those computed with the regime worked out anew
  for every bar, although a cached regime was computed at the time of an earlier bar.\<close>

theorem regime_cache_transparent:
  assumes "sorted (List.map k_close_time (sb_d1 s))"
  shows "computeMetrics log_of s tf from' to' = compute_direct log_of s tf from' to'"
proof -
  let ?R = "\<lambda>st st'. fst st = fst st' \<and> fst (snd st) = snd st' \<and> cache_ok log_of (sb_d1 s) (snd (snd st))"
  have "scan (metrics_step log_of s v from' to') (- 1, - 1, Map.empty) is = scan (metrics_direct log_of s v from' to') (- 1, - 1) is" for v "is"
  proof (rule scan_related [where R = ?R])
    fix st :: metrics_state and st' :: "int \<times> int" and i
    assume R: "?R st st'"
    then show "?R (fst (metrics_step log_of s v from' to' st i)) (fst (metrics_direct log_of s v from' to' st' i)) \<and>
      snd (metrics_step log_of s v from' to' st i) = snd (metrics_direct log_of s v from' to' st' i)"
      using step_direct [OF assms, of st "fst st'" "snd st'"] by simp
  qed (simp add: cache_ok_def)
  then show ?thesis by (simp add: computeMetrics_def compute_direct_def Let_def)
qed

definition day :: "nat \<Rightarrow> kline" where
  "day i = \<lparr>k_open_time = int i * 86400000, k_open = ''10'', k_high = ''12'', k_low = ''9'', k_close = ''11'', k_volume = ''5'',
     k_close_time = int i * 86400000 + 86399999\<rparr>"

definition days :: series_bundle where
  "days = \<lparr>sb_base = List.map day [0..<2], sb_h1 = [], sb_h4 = [], sb_d1 = List.map day [0..<3], sb_funding = []\<rparr>"

lemma regime_cache_transparent_witness:
  "sorted (List.map k_close_time (sb_d1 days)) \<and> computeMetrics id days ''1d'' 0 9 = compute_direct id days ''1d'' 0 9"
proof -
  have "sorted (List.map k_close_time (sb_d1 days))" by code_simp
  then show ?thesis using regime_cache_transparent by blast
qed

section \<open>Thresholds\<close>

text \<open>Looser thresholds: the same level, a wider or equal value everywhere else.\<close>

definition looser :: "bar_thresholds \<Rightarrow> bar_thresholds \<Rightarrow> bool" where
  "looser th th' = (bt_breakout_level th' = bt_breakout_level th \<and> bt_atr_floor_mult th' = bt_atr_floor_mult th
     \<and> bt_chase_atr_max th \<le> bt_chase_atr_max th' \<and> bt_retest_vol_min th' \<le> bt_retest_vol_min th
     \<and> (bt_vol_mode th' = bt_vol_mode th \<or> bt_vol_mode th' = Vol_either)
     \<and> (bt_trend_mode th = Trend_both \<or> bt_trend_mode th' = Trend_h1_veto)
     \<and> bt_h4_veto_atr th \<le> bt_h4_veto_atr th' \<and> bt_breakout_window th \<le> bt_breakout_window th'
     \<and> bt_range_vol_min th' \<le> bt_range_vol_min th \<and> bt_funding_abs_max th \<le> bt_funding_abs_max th'
     \<and> (bt_require_trend_regime th' \<longrightarrow> bt_require_trend_regime th))"

lemma trend_dir_looser: "looser th th' \<Longrightarrow> trend_dir m th = Some d \<Longrightarrow> trend_dir m th' = Some d"
  using js_le_less_trans [of "bt_h4_veto_atr th" "bt_h4_veto_atr th'" "or_zero (bm_h4_dist_atr m)"]
  by (cases "bt_trend_mode th"; cases "bt_trend_mode th'"; cases "bm_dir_h4 m"; cases "bm_dir_h1 m")
    (auto simp: looser_def trend_dir_def split: if_splits)

lemma joint_iff: "ce_joint (evaluateBar m th) = (\<forall>k. ce_pass (evaluateBar m th) k)"
proof -
  have "list_all p CONDITION_KEYS = (\<forall>k. p k)" for p
    by (auto simp: CONDITION_KEYS_def) (metis condition_key.exhaust)
  then show ?thesis by (simp add: evaluateBar_def Let_def)
qed

lemma pass_simps:
  "ce_pass (evaluateBar m th) C_atr_ok = (bm_atr_floor m * bt_atr_floor_mult th \<le> bm_atr_pct m)"
  "ce_pass (evaluateBar m th) C_trend_agree = (trend_dir m th \<noteq> None)"
  "ce_pass (evaluateBar m th) C_within_chase = (ce_dist_atr (evaluateBar m th) \<le> bt_chase_atr_max th)"
  "ce_pass (evaluateBar m th) C_breakout = broke_out m th (eval_dir m th)"
  "ce_pass (evaluateBar m th) C_retest_vol = vol_ok m th (eval_dir m th)"
  "ce_pass (evaluateBar m th) C_funding_ok = (case bm_funding_abs_pct m of None \<Rightarrow> True | Some x \<Rightarrow> x \<le> bt_funding_abs_max th)"
  "ce_pass (evaluateBar m th) C_regime_ok = regime_ok m th (eval_dir m th)"
  by (simp_all add: evaluateBar_def Let_def)

text \<open>A bar qualifies exactly when its seven conditions hold, and loosening thresholds never loses one: a bar that
  qualifies under some thresholds qualifies, in the same direction, under any looser ones (a wider chase, window, funding
  or veto, a smaller volume, the one-hour trend with a veto instead of both trends, either volume instead of the current).\<close>

theorem looser_keeps_candidates:
  assumes l: "looser th th'" and j: "ce_joint (evaluateBar m th)"
  shows "ce_joint (evaluateBar m th') \<and> ce_dir (evaluateBar m th') = ce_dir (evaluateBar m th)
    \<and> (\<forall>k. ce_pass (evaluateBar m th') k)"
proof -
  have p: "ce_pass (evaluateBar m th) k" for k using j by (simp add: joint_iff)
  obtain d where d: "trend_dir m th = Some d" using p [of C_trend_agree] by (auto simp: pass_simps)
  have d': "trend_dir m th' = Some d" by (rule trend_dir_looser [OF l d])
  have e: "eval_dir m th = d" "eval_dir m th' = d" using d d' by (simp_all add: eval_dir_def)
  have mono: "bt_retest_vol_min th \<le> x \<Longrightarrow> bt_retest_vol_min th' \<le> x" "bt_range_vol_min th \<le> x \<Longrightarrow> bt_range_vol_min th' \<le> x"
    "x \<le> bt_funding_abs_max th \<Longrightarrow> x \<le> bt_funding_abs_max th'" "x \<le> bt_chase_atr_max th \<Longrightarrow> x \<le> bt_chase_atr_max th'" for x
    using l by (auto simp: looser_def intro: js_le_trans)
  have same: "bt_breakout_level th' = bt_breakout_level th" "bt_vol_mode th' = bt_vol_mode th \<or> bt_vol_mode th' = Vol_either"
    "bt_require_trend_regime th' \<Longrightarrow> bt_require_trend_regime th" using l by (simp_all add: looser_def)
  have rec: "recent m th d \<Longrightarrow> recent m th' d" using l by (simp add: recent_def looser_def)
  have dist: "ce_dist_atr (evaluateBar m th') = ce_dist_atr (evaluateBar m th)"
    using l e by (simp add: evaluateBar_def Let_def break_level_def looser_def)
  have "ce_pass (evaluateBar m th') k" for k
  proof (cases k)
    case C_atr_ok
    then show ?thesis using p [of C_atr_ok] l by (simp add: pass_simps looser_def)
  next
    case C_trend_agree
    then show ?thesis using d' by (simp add: pass_simps)
  next
    case C_within_chase
    then show ?thesis using p [of C_within_chase] mono(4) unfolding C_within_chase pass_simps dist by blast
  next
    case C_breakout
    then show ?thesis using p [of C_breakout] same(1) rec unfolding C_breakout pass_simps e by (auto simp: broke_out_def split: if_splits)
  next
    case C_retest_vol
    have "vol_ok m th d" using p [of C_retest_vol] unfolding pass_simps e .
    then have "vol_ok m th' d" using same(2) rec mono(1)
      by (cases "if d = Long then bm_break_vol_up m else bm_break_vol_down m") (auto simp: vol_ok_def)
    then show ?thesis unfolding C_retest_vol pass_simps e .
  next
    case C_funding_ok
    then show ?thesis using p [of C_funding_ok] mono(3) unfolding C_funding_ok pass_simps
      by (cases "bm_funding_abs_pct m") auto
  next
    case C_regime_ok
    have "regime_ok m th d" using p [of C_regime_ok] unfolding pass_simps e .
    then have "regime_ok m th' d" using same(3) mono(2)
      by (cases "bm_regime m") (auto simp: regime_ok_def split: if_splits)
    then show ?thesis unfolding C_regime_ok pass_simps e .
  qed
  moreover have "ce_dir (evaluateBar m th) = d" "ce_dir (evaluateBar m th') = d" using e by (simp_all add: evaluateBar_def Let_def)
  ultimately show ?thesis by (simp add: joint_iff)
qed

text \<open>A bar at 110 after breaking 105 with volume, in an uptrend on the hour.\<close>

definition breaker :: bar_metrics where
  "breaker = \<lparr>bm_t = 0, bm_close = Fin 110, bm_atr = Fin 4, bm_atr_pct = Fin 3, bm_atr_floor = Fin 1, bm_hi20 = Fin 111, bm_lo20 = Fin 90,
     bm_hi20_prev = Fin 105, bm_lo20_prev = Fin 90, bm_vol_ratio = Fin 2, bm_ema20 = Fin 104, bm_dir_h1 = Some Long, bm_dir_h4 = Some Long,
     bm_h4_dist_atr = Some (Fin 1), bm_regime = Some Regime_bull, bm_funding_abs_pct = None, bm_broke_up = True, bm_broke_down = False,
     bm_bars_since_up = 0, bm_bars_since_down = - 1, bm_break_vol_up = Some (Fin 2), bm_break_vol_down = None\<rparr>"

definition prior_thresholds :: bar_thresholds where "prior_thresholds = CURRENT_THRESHOLDS\<lparr>bt_breakout_level := Level_prior\<rparr>"

lemma looser_keeps_candidates_witness:
  "ce_joint (evaluateBar breaker prior_thresholds) \<and>
   ce_joint (evaluateBar breaker (prior_thresholds\<lparr>bt_trend_mode := Trend_h1_veto, bt_breakout_window := 3\<rparr>))"
proof -
  have l: "looser prior_thresholds (prior_thresholds\<lparr>bt_trend_mode := Trend_h1_veto, bt_breakout_window := 3\<rparr>)" by code_simp
  have j: "ce_joint (evaluateBar breaker prior_thresholds)" by code_simp
  show ?thesis using looser_keeps_candidates [OF l j] j by blast
qed

section \<open>The level that cannot be broken\<close>

lemma foldl_NaN: "foldl js_max NaN xs = NaN" "foldl js_min NaN xs = NaN"
  by (induction xs) (simp_all add: js_max_def js_min_def)

lemma js_maxs_ge: "x \<in> set xs \<Longrightarrow> js_maxs xs = NaN \<or> x \<le> js_maxs xs"
proof -
  have "foldl js_max h xs = NaN \<or> h \<le> foldl js_max h xs \<and> (\<forall>x\<in>set xs. x \<le> foldl js_max h xs)" for h
  proof (induction xs arbitrary: h)
    case (Cons y ys)
    show ?case
    proof (cases "js_max h y = NaN")
      case True
      then have "foldl js_max (js_max h y) ys = NaN" by (simp only: foldl_NaN)
      then show ?thesis by simp
    next
      case False
      then show ?thesis using Cons.IH [of "js_max h y"] js_max_ge [OF False] by (auto intro: js_le_trans)
    qed
  qed (simp add: js_le_NaN)
  then show "x \<in> set xs \<Longrightarrow> js_maxs xs = NaN \<or> x \<le> js_maxs xs" by (auto simp: js_maxs_def)
qed

lemma js_mins_le: "x \<in> set xs \<Longrightarrow> js_mins xs = NaN \<or> js_mins xs \<le> x"
proof -
  have "foldl js_min h xs = NaN \<or> foldl js_min h xs \<le> h \<and> (\<forall>x\<in>set xs. foldl js_min h xs \<le> x)" for h
  proof (induction xs arbitrary: h)
    case (Cons y ys)
    show ?case
    proof (cases "js_min h y = NaN")
      case True
      then have "foldl js_min (js_min h y) ys = NaN" by (simp only: foldl_NaN)
      then show ?thesis by simp
    next
      case False
      then show ?thesis using Cons.IH [of "js_min h y"] js_min_le [OF False] by (auto intro: js_le_trans)
    qed
  qed (simp add: js_le_NaN)
  then show "x \<in> set xs \<Longrightarrow> js_mins xs = NaN \<or> js_mins xs \<le> x" by (auto simp: js_mins_def)
qed

lemma computed_rows:
  assumes "(i, m) \<in> set (computeMetrics log_of s tf a b)"
  shows "i < length (sb_base s) \<and> (\<exists>up down reg. m = metrics_row s (series_values_of s tf) i up down reg)"
proof -
  let ?v = "series_values_of s tf"
  have "\<forall>y\<in>set (scan (metrics_step log_of s ?v a b) (- 1, - 1, Map.empty) [0..<length (sb_base s)]).
    \<forall>i m. y = Some (i, m) \<longrightarrow> i < length (sb_base s) \<and> (\<exists>up down reg. m = metrics_row s ?v i up down reg)"
    by (rule scan_invariant [where I = "\<lambda>_. True"]) (auto simp: metrics_step_def Let_def case_prod_beta split: if_splits)
  then show ?thesis using assms by (auto simp: computeMetrics_def Let_def map_filter_def)
qed

definition ordered_bar :: "kline \<Rightarrow> bool" where
  "ordered_bar k = (js_number (k_low k) \<le> js_number (k_close k) \<and> js_number (k_close k) \<le> js_number (k_high k))"

lemma rolling_extremes:
  assumes "i < length xs" "0 < n"
  shows "rollingExtreme xs n True True ! i = js_maxs (window n xs i)" "rollingExtreme xs n False True ! i = js_mins (window n xs i)"
proof -
  have "xs ! i \<in> set (window n xs i)" using assms(2) by (auto simp: window_def)
  then have "window n xs i \<noteq> []" by auto
  then show "rollingExtreme xs n True True ! i = js_maxs (window n xs i)" "rollingExtreme xs n False True ! i = js_mins (window n xs i)"
    using assms(1) by (simp_all add: rollingExtreme_def Let_def)
qed

lemma row_extremes:
  assumes "list_all ordered_bar (sb_base s)" "i < length (sb_base s)" "m = metrics_row s (series_values_of s tf) i up down reg"
  shows "\<not> bm_hi20 m < bm_close m" "\<not> bm_close m < bm_lo20 m"
proof -
  let ?h = "highs (sb_base s)" and ?l = "lows (sb_base s)"
  have o: "?l ! i \<le> bm_close m" "bm_close m \<le> ?h ! i"
    using assms by (auto simp: metrics_row_def Let_def highs_def lows_def closes_def ordered_bar_def list_all_length)
  have w: "?h ! i \<in> set (window 20 ?h i)" "?l ! i \<in> set (window 20 ?l i)" by (auto simp: window_def)
  have e: "bm_hi20 m = js_maxs (window 20 ?h i)" "bm_lo20 m = js_mins (window 20 ?l i)"
  proof -
    have "bm_hi20 m = rollingExtreme ?h 20 True True ! i" "bm_lo20 m = rollingExtreme ?l 20 False True ! i"
      unfolding assms(3) metrics_row_def Let_def series_values_of_def by simp_all
    then show "bm_hi20 m = js_maxs (window 20 ?h i)" "bm_lo20 m = js_mins (window 20 ?l i)"
      using rolling_extremes [of i ?h 20] rolling_extremes [of i ?l 20] assms(2) by simp_all
  qed
  have "bm_hi20 m = NaN \<or> bm_close m \<le> bm_hi20 m" "bm_lo20 m = NaN \<or> bm_lo20 m \<le> bm_close m"
    using js_maxs_ge [OF w(1)] js_mins_le [OF w(2)] o js_le_trans unfolding e by blast+
  then show "\<not> bm_hi20 m < bm_close m" "\<not> bm_close m < bm_lo20 m" by (auto simp: less_jsnum_def)
qed

text \<open>C36 Under the level in force (the twenty-bar extreme that includes the bar itself) no bar ever breaks out: on bars whose
  close lies between low and high, no computed row passes the breakout condition, none qualifies and none is a confirmed
  retest, whatever the other thresholds are.\<close>

theorem own_level_never_broken:
  assumes o: "list_all ordered_bar (sb_base s)" and th: "bt_breakout_level th = Level_self"
  shows "filter (\<lambda>(i, m). ce_pass (evaluateBar m th) C_breakout \<or> ce_joint (evaluateBar m th) \<or> ce_retest_confirmed (evaluateBar m th))
    (computeMetrics log_of s tf from' to') = []"
proof -
  have "\<not> ce_pass (evaluateBar m th) C_breakout \<and> \<not> ce_joint (evaluateBar m th) \<and> \<not> ce_retest_confirmed (evaluateBar m th)"
    if im: "(i, m) \<in> set (computeMetrics log_of s tf from' to')" for i m
  proof -
    obtain up down reg where "i < length (sb_base s)" "m = metrics_row s (series_values_of s tf) i up down reg"
      using computed_rows [OF im] by blast
    then have "\<not> broke_out m th d" for d using row_extremes [OF o] th by (auto simp: broke_out_def)
    then have b: "\<not> ce_pass (evaluateBar m th) C_breakout" by (simp add: pass_simps)
    then have "\<not> ce_joint (evaluateBar m th)" by (auto simp: joint_iff)
    moreover have "ce_retest_confirmed (evaluateBar m th) \<Longrightarrow> ce_pass (evaluateBar m th) C_breakout"
      by (simp add: evaluateBar_def Let_def)
    ultimately show ?thesis using b by blast
  qed
  then show ?thesis by (auto simp: filter_empty_conv)
qed

text \<open>Twenty-one equal bars and a close at a new high.\<close>

definition rally :: series_bundle where
  "rally = \<lparr>sb_base = List.map day [0..<21] @ [(day 21)\<lparr>k_high := ''15'', k_close := ''15''\<rparr>], sb_h1 = [], sb_h4 = [], sb_d1 = [], sb_funding = []\<rparr>"

lemma own_level_never_broken_witness:
  "filter (\<lambda>(i, m). ce_pass (evaluateBar m CURRENT_THRESHOLDS) C_breakout \<or> ce_joint (evaluateBar m CURRENT_THRESHOLDS)
      \<or> ce_retest_confirmed (evaluateBar m CURRENT_THRESHOLDS)) (computeMetrics id rally ''1d'' 0 2000000000) = []"
proof -
  have "list_all ordered_bar (sb_base rally)" "bt_breakout_level CURRENT_THRESHOLDS = Level_self" by code_simp+
  then show ?thesis by (rule own_level_never_broken)
qed

end
