(* ===== verification/Triggers.thy ===== *)
theory Triggers imports MarketFeatures "HOL-Library.Multiset" begin

text \<open>
  The code triggers and the trading sessions (\<open>triggers.ts\<close>): when the model is worth calling. The detail sentence of a
  hit (Chinese prose) is a value that names the sentence and the numbers in it. Wall-clock time in a zone, which the code
  takes from \<open>Intl\<close>, is a parameter.
\<close>

section \<open>Triggers\<close>

datatype session_name = Us_open_window | Us_close_window | Us | London | Asia | Weekend | Off

datatype session_text = ST_off | ST_weekend | ST_before_open int | ST_after_open int | ST_before_close int | ST_after_close int
  | ST_us | ST_london | ST_asia

record session_info =
  se_name :: session_name
  se_text :: session_text
  se_minutes_to_us_open :: "int option"
  se_minutes_to_us_close :: "int option"
  se_weekend :: bool

datatype hit_detail = HD_fast_move bool string string | HD_breakout bool string string string string | HD_first_breakout bool string
  | HD_ema_cross bool string string string | HD_vol_spike string string string | HD_retest string string string string bool
  | HD_funding string | HD_session session_text

record trigger_hit =
  th_kind :: trigger_kind
  th_detail :: hit_detail
  th_score :: jsnum

record trigger_inputs =
  ti_symbol :: string
  ti_now_tf :: tf_features
  ti_prev_tf :: "tf_features option"
  ti_h1 :: "tf_features option"
  ti_market :: "market_view option"
  ti_session :: session_info
  ti_fast_move_pct :: "jsnum option"
  ti_fast_move_threshold_pct :: jsnum
  ti_prev_session :: "session_name option"

definition signed :: "nat \<Rightarrow> jsnum \<Rightarrow> string" where "signed d x = (if Fin 0 \<le> x then ''+'' else []) @ to_fixed d x"

definition dp :: "tf_features \<Rightarrow> nat" where
  "dp f = (if Fin 100 < ft_last_close f then 0 else if Fin 1 < ft_last_close f then 2 else 5)"

definition atr_pct_of :: "tf_features \<Rightarrow> jsnum" where
  "atr_pct_of f = (if Fin 0 < ft_last_close f then ft_atr14 f / ft_last_close f * Fin 100 else Fin 0)"

definition hit :: "trigger_kind \<Rightarrow> hit_detail \<Rightarrow> jsnum \<Rightarrow> trigger_hit" where
  "hit k d s = \<lparr>th_kind = k, th_detail = d, th_score = s\<rparr>"

definition fast_move_hit :: "trigger_inputs \<Rightarrow> trigger_hit option" where
  "fast_move_hit inp = (case ti_fast_move_pct inp of None \<Rightarrow> None
     | Some x \<Rightarrow> let thr = ti_fast_move_threshold_pct inp in
         if thr \<le> \<bar>x\<bar> then Some (hit Fast_move (HD_fast_move (Fin 0 \<le> x) (to_fixed 2 \<bar>x\<bar>) (to_fixed 1 thr))
           (js_min (Fin 1) (\<bar>x\<bar> / (thr * Fin 2)))) else None)"

definition breakout_score :: "jsnum \<Rightarrow> tf_features \<Rightarrow> jsnum" where
  "breakout_score d f = js_min (Fin 1) (d / js_max (lit (1/1000000000)) (ft_atr14 f) * lit (1/2) + lit (4/10))"

definition breakout_hit :: "trigger_inputs \<Rightarrow> trigger_hit option" where
  "breakout_hit inp = (let f = ti_now_tf inp; c = ft_last_close f in case ti_prev_tf inp of
     Some p \<Rightarrow>
       if ft_swing_high_20 p < c then Some (hit Breakout (HD_breakout True (ft_tf f) (to_fixed (dp f) c)
           (to_fixed (dp f) (ft_swing_high_20 p)) (to_fixed 2 (ft_vol_ratio_20 f))) (breakout_score (c - ft_swing_high_20 p) f))
       else if c < ft_swing_low_20 p then Some (hit Breakout (HD_breakout False (ft_tf f) (to_fixed (dp f) c)
           (to_fixed (dp f) (ft_swing_low_20 p)) (to_fixed 2 (ft_vol_ratio_20 f))) (breakout_score (ft_swing_low_20 p - c) f))
       else None
   | None \<Rightarrow>
       if ft_dist_to_high20_pct f \<le> lit (2/100) \<and> Fin 0 < ft_change_pct_last f
         then Some (hit Breakout (HD_first_breakout True (ft_tf f)) (lit (4/10)))
       else if ft_dist_to_low20_pct f \<le> lit (2/100) \<and> ft_change_pct_last f < Fin 0
         then Some (hit Breakout (HD_first_breakout False (ft_tf f)) (lit (4/10)))
       else None)"

definition ema_cross_hit :: "trigger_inputs \<Rightarrow> trigger_hit option" where
  "ema_cross_hit inp = (let f = ti_now_tf inp in case ti_prev_tf inp of None \<Rightarrow> None
     | Some p \<Rightarrow> if \<not> js_eq (sgn (ft_ema20 f - ft_ema50 f)) (sgn (ft_ema20 p - ft_ema50 p)) \<and> \<not> js_eq (ft_ema20 f) (ft_ema50 f)
         then Some (hit Ema_cross (HD_ema_cross (ft_ema50 f < ft_ema20 f) (ft_tf f) (to_fixed (dp f) (ft_ema20 f))
           (to_fixed (dp f) (ft_ema50 f))) (lit (6/10))) else None)"

definition vol_spike_hit :: "trigger_inputs \<Rightarrow> trigger_hit option" where
  "vol_spike_hit inp = (let f = ti_now_tf inp; a = atr_pct_of f in
     if Fin 2 \<le> ft_vol_ratio_20 f \<and> lit (6/10) * a \<le> \<bar>ft_change_pct_last f\<bar> \<and> Fin 0 < a
       then Some (hit Vol_spike (HD_vol_spike (to_fixed 2 (ft_vol_ratio_20 f)) (signed 2 (ft_change_pct_last f)) (to_fixed 2 a))
         (js_min (Fin 1) (ft_vol_ratio_20 f / Fin 4))) else None)"

definition retest_hit :: "trigger_inputs \<Rightarrow> trigger_hit option" where
  "retest_hit inp = (let f = ti_now_tf inp; a = atr_pct_of f;
     dist = (if Fin 0 < ft_last_close f then \<bar>ft_last_close f - ft_ema20 f\<bar> / ft_last_close f * Fin 100 else Fin 0) in
     if Fin 0 < a \<and> dist \<le> lit (3/10) * a \<and> Fin 1 * a \<le> \<bar>ft_change_pct_5 f\<bar> then
       (case ti_h1 inp of None \<Rightarrow> None
        | Some h \<Rightarrow> if js_eq (ft_ema20 h) (ft_ema50 h) then None
            else Some (hit Retest (HD_retest (to_fixed (dp f) (ft_ema20 f)) (to_fixed 2 dist) (signed 2 (ft_change_pct_5 f)) (ft_tf f)
              (ft_ema50 h < ft_ema20 h)) (lit (1/2))))
     else None)"

definition funding_hit :: "trigger_inputs \<Rightarrow> trigger_hit option" where
  "funding_hit inp = (case ti_market inp of None \<Rightarrow> None
     | Some m \<Rightarrow> let fr = js_number (mv_funding_rate m) * Fin 100 in
         if lit (5/100) \<le> \<bar>fr\<bar> then Some (hit Funding_event (HD_funding (signed 4 fr)) (js_min (Fin 1) (\<bar>fr\<bar> / lit (15/100)))) else None)"

definition session_hit :: "trigger_inputs \<Rightarrow> trigger_hit option" where
  "session_hit inp = (let s = ti_session inp in
     if se_name s \<in> {Us_open_window, Us_close_window} \<and> ti_prev_session inp \<noteq> Some (se_name s)
       then Some (hit Session_event (HD_session (se_text s)) (lit (3/10))) else None)"

text \<open>\<open>sort((a, b) => b.score - a.score)\<close>: stable, strongest first.\<close>

fun insert_hit :: "trigger_hit \<Rightarrow> trigger_hit list \<Rightarrow> trigger_hit list" where
  "insert_hit h [] = [h]"
| "insert_hit h (x # xs) = (if th_score x < th_score h then h # x # xs else x # insert_hit h xs)"

definition sort_hits :: "trigger_hit list \<Rightarrow> trigger_hit list" where
  "sort_hits hits = foldl (\<lambda>acc h. insert_hit h acc) [] hits"

definition raw_hits :: "trigger_inputs \<Rightarrow> trigger_hit list" where
  "raw_hits inp = List.map_filter (\<lambda>rule. rule inp)
     [fast_move_hit, breakout_hit, ema_cross_hit, vol_spike_hit, retest_hit, funding_hit, session_hit]"

definition detectTriggers :: "trigger_inputs \<Rightarrow> trigger_hit list" where "detectTriggers inp = sort_hits (raw_hits inp)"

section \<open>Sessions\<close>

text \<open>Minutes since midnight and weekday (0 for Sunday) of a time in a zone.\<close>

type_synonym zoned = "string \<Rightarrow> int \<times> int"

definition sessionInfo :: "zoned \<Rightarrow> session_info" where
  "sessionInfo zone = (let ny = zone ''America/New_York''; ldn = zone ''Europe/London''; asia = zone ''Asia/Singapore'';
     weekend = (snd ny = 0 \<or> snd ny = 6); toOpen = (if weekend then None else Some (570 - fst ny));
     toClose = (if weekend then None else Some (960 - fst ny));
     inUs = (\<not> weekend \<and> 570 \<le> fst ny \<and> fst ny < 960); inLondon = (\<not> weekend \<and> 480 \<le> fst ldn \<and> fst ldn < 990);
     inAsia = (480 \<le> fst asia \<and> fst asia < 1020);
     (name, text) =
       (if weekend then (Weekend, ST_weekend)
        else if 570 - fst ny \<le> 30 \<and> - 15 < 570 - fst ny
          then (Us_open_window, if 0 < 570 - fst ny then ST_before_open (570 - fst ny) else ST_after_open (fst ny - 570))
        else if 960 - fst ny \<le> 30 \<and> - 15 < 960 - fst ny
          then (Us_close_window, if 0 < 960 - fst ny then ST_before_close (960 - fst ny) else ST_after_close (fst ny - 960))
        else if inUs then (Us, ST_us) else if inLondon then (London, ST_london) else if inAsia then (Asia, ST_asia)
        else (Off, ST_off))
   in \<lparr>se_name = name, se_text = text, se_minutes_to_us_open = toOpen, se_minutes_to_us_close = toClose, se_weekend = weekend\<rparr>)"

definition windowMovePct :: "(int \<times> jsnum) list \<Rightarrow> int \<Rightarrow> int \<Rightarrow> jsnum option" where
  "windowMovePct samples now windowMs = (let inWindow = filter (\<lambda>s. now - fst s \<le> windowMs) samples in
     if length inWindow < 2 then None
     else let (at0, m0) = hd inWindow; (_, m1) = List.last inWindow in
       if 2 * (now - at0) < windowMs then None else if Fin 0 < m0 then Some ((m1 - m0) / m0 * Fin 100) else None)"

section \<open>Facts\<close>

lemma mset_insert_hit [simp]: "mset (insert_hit h xs) = add_mset h (mset xs)"
  by (induction xs) simp_all

lemma mset_sort_hits: "mset (sort_hits hits) = mset hits"
proof -
  have "mset (foldl (\<lambda>acc h. insert_hit h acc) acc hits) = mset acc + mset hits" for acc
    by (induction hits arbitrary: acc) auto
  then show ?thesis by (simp add: sort_hits_def)
qed

abbreviation ranked :: "trigger_hit list \<Rightarrow> bool" where
  "ranked hits \<equiv> sorted_wrt (\<lambda>a b. th_score b \<le> th_score a) hits"

lemma set_insert_hit [simp]: "set (insert_hit h xs) = insert h (set xs)"
  using mset_insert_hit [of h xs] by (metis set_mset_add_mset_insert set_mset_mset)

lemma ranked_insert: "ranked xs \<Longrightarrow> \<forall>x\<in>insert h (set xs). th_score x \<noteq> NaN \<Longrightarrow> ranked (insert_hit h xs)"
proof (induction xs)
  case (Cons x xs)
  show ?case
  proof (cases "th_score x < th_score h")
    case True
    then have "th_score x \<le> th_score h" by (rule js_less_imp_le)
    moreover from this have "\<forall>y\<in>set xs. th_score y \<le> th_score h" using Cons.prems(1) by (auto intro: js_le_trans)
    ultimately show ?thesis using True Cons.prems(1) by simp
  next
    case False
    then have "th_score h \<le> th_score x" using Cons.prems(2) by (simp add: js_not_less)
    then show ?thesis using False Cons by simp
  qed
qed simp

lemma ranked_sort: "\<forall>x\<in>set hits. th_score x \<noteq> NaN \<Longrightarrow> ranked (sort_hits hits)"
proof -
  have "ranked acc \<Longrightarrow> \<forall>x\<in>set acc \<union> set hits. th_score x \<noteq> NaN \<Longrightarrow> ranked (foldl (\<lambda>acc h. insert_hit h acc) acc hits)" for acc
  proof (induction hits arbitrary: acc)
    case (Cons h hits)
    then show ?case using ranked_insert [of acc h] by simp
  qed simp
  then show "\<forall>x\<in>set hits. th_score x \<noteq> NaN \<Longrightarrow> ranked (sort_hits hits)" by (simp add: sort_hits_def)
qed

definition unit_score :: "jsnum \<Rightarrow> bool" where "unit_score s = (Fin 0 \<le> s \<and> s \<le> Fin 1)"

lemma unit_min: "Fin 0 \<le> s \<Longrightarrow> unit_score (js_min (Fin 1) s)"
  by (cases s) (auto simp: unit_score_def js_min_def)

lemma unit_lits: "unit_score (lit (2/5))" "unit_score (lit (3/5))" "unit_score (lit (1/2))" "unit_score (lit (3/10))"
  by code_simp+

lemma hit_simps [simp]: "th_score (hit k d s) = s" "th_kind (hit k d s) = k"
  by (simp_all add: hit_def)

lemma div_nonneg: "Fin 0 \<le> a \<Longrightarrow> Fin 0 < b \<Longrightarrow> is_fin b \<or> is_fin a \<Longrightarrow> Fin 0 \<le> a / (b :: jsnum)"
  by (cases a; cases b) (auto intro: rnd_ge)

lemma sub_pos: "b < a \<Longrightarrow> Fin 0 \<le> a - (b :: jsnum)"
  by (cases a; cases b) (auto simp: minus_jsnum_def intro: rnd_ge)

lemma affine_nonneg: "Fin 0 \<le> a \<Longrightarrow> Fin 0 \<le> a * lit (1/2) + lit (4/10)"
proof -
  assume a: "Fin 0 \<le> a"
  have h: "lit (1/2) = Fin (1/2)" "Fin 0 \<le> lit (4/10)" by code_simp+
  have "Fin 0 \<le> a * lit (1/2)" using a unfolding h(1) by (cases a) (auto intro: rnd_ge)
  then show ?thesis using h(2) by (rule js_add_nonneg)
qed

lemma floor_pos: "is_fin a \<Longrightarrow> Fin 0 < js_max (lit (1/1000000000)) a \<and> is_fin (js_max (lit (1/1000000000)) a)"
proof -
  assume a: "is_fin a"
  have l: "Fin 0 < lit (1/1000000000)" "is_fin (lit (1/1000000000))" by code_simp+
  show ?thesis using a l js_less_le_trans [OF l(1)] by (cases a) (auto simp: js_max_def is_fin_iff)
qed

lemma breakout_unit: "b < a \<Longrightarrow> is_fin (ft_atr14 f) \<Longrightarrow> unit_score (breakout_score (a - b) f)"
  unfolding breakout_score_def using floor_pos [of "ft_atr14 f"] sub_pos [of b a]
  by (intro unit_min affine_nonneg div_nonneg) auto

text \<open>Each rule yields hits of its own kind only, with a score between 0 and 1.\<close>

definition sound_rule :: "trigger_kind \<Rightarrow> trigger_hit option \<Rightarrow> bool" where
  "sound_rule k r = (case r of None \<Rightarrow> True | Some h \<Rightarrow> th_kind h = k \<and> unit_score (th_score h))"

definition sane_inputs :: "trigger_inputs \<Rightarrow> bool" where
  "sane_inputs inp = (is_fin (ti_fast_move_threshold_pct inp) \<and> dbl (ti_fast_move_threshold_pct inp) \<and> Fin 0 < ti_fast_move_threshold_pct inp \<and>
     (case ti_fast_move_pct inp of None \<Rightarrow> True | Some x \<Rightarrow> is_fin x) \<and> is_fin (ft_atr14 (ti_now_tf inp)))"

lemma sound_rule_if [simp]: "sound_rule k (if b then Some h else r) = (if b then th_kind h = k \<and> unit_score (th_score h) else sound_rule k r)"
  "sound_rule k None" "sound_rule k (Some h) = (th_kind h = k \<and> unit_score (th_score h))"
  by (simp_all add: sound_rule_def)

lemma fast_move_sound: "sane_inputs inp \<Longrightarrow> sound_rule Fast_move (fast_move_hit inp)"
proof -
  assume s: "sane_inputs inp"
  have p: "Fin 0 < t * Fin 2" if "is_fin t" "dbl t" "Fin 0 < t" for t
  proof -
    have "t \<le> t * Fin 2" using that by (cases t) (auto intro: rnd_ge)
    then show ?thesis using that(3) by (metis js_less_le_trans)
  qed
  show ?thesis using s unfolding fast_move_hit_def sane_inputs_def Let_def
    by (auto split: option.splits intro!: unit_min div_nonneg js_abs_nonneg p simp: is_fin_iff)
qed

lemma breakout_sound: "sane_inputs inp \<Longrightarrow> sound_rule Breakout (breakout_hit inp)"
  unfolding breakout_hit_def sane_inputs_def Let_def
  by (auto split: option.split simp: unit_lits intro: breakout_unit)

lemma ema_cross_sound: "sound_rule Ema_cross (ema_cross_hit inp)"
  unfolding ema_cross_hit_def Let_def by (auto split: option.split simp: unit_lits)

lemma vol_spike_sound: "sound_rule Vol_spike (vol_spike_hit inp)"
proof -
  have "unit_score (js_min (Fin 1) (v / Fin 4))" if "Fin 2 \<le> v" for v
    using that by (intro unit_min div_nonneg) (cases v, auto)
  then show ?thesis unfolding vol_spike_hit_def Let_def by auto
qed

lemma retest_sound: "sound_rule Retest (retest_hit inp)"
  unfolding retest_hit_def Let_def by (auto split: option.split simp: unit_lits)

lemma funding_sound: "sound_rule Funding_event (funding_hit inp)"
proof -
  have l: "Fin 0 < lit (15/100)" "is_fin (lit (15/100))" "Fin 0 \<le> lit (5/100)" by code_simp+
  have "unit_score (js_min (Fin 1) (a / lit (15/100)))" if "lit (5/100) \<le> a" for a
    using js_le_trans [OF l(3) that] l by (intro unit_min div_nonneg) auto
  then show ?thesis unfolding funding_hit_def Let_def by (auto split: option.split)
qed

lemma session_sound: "sound_rule Session_event (session_hit inp)"
  unfolding session_hit_def Let_def by (simp add: unit_lits)

lemmas rules_sound = fast_move_sound breakout_sound ema_cross_sound vol_spike_sound retest_sound funding_sound session_sound

lemma map_filter_Cons: "List.map_filter f (x # xs) = (case f x of None \<Rightarrow> List.map_filter f xs | Some y \<Rightarrow> y # List.map_filter f xs)"
  "List.map_filter f [] = []"
  by (simp_all add: List.map_filter_def split: option.split)

lemma one_per_kind:
  assumes "list_all2 (\<lambda>k r. sound_rule k (r inp)) ks rs" "distinct ks"
  shows "distinct (map th_kind (List.map_filter (\<lambda>r. r inp) rs)) \<and> th_kind ` set (List.map_filter (\<lambda>r. r inp) rs) \<subseteq> set ks
    \<and> (\<forall>h\<in>set (List.map_filter (\<lambda>r. r inp) rs). unit_score (th_score h))"
  using assms
proof (induction rule: list_all2_induct)
  case (Cons k ks r rs)
  then show ?case by (cases "r inp") (auto simp: map_filter_Cons sound_rule_def)
qed (simp add: map_filter_Cons)

text \<open>C37 The triggers reported are exactly the hits of the rules, at most one of each kind, each scored between 0 and 1,
  and the strongest come first: for a finite move, a positive finite threshold and a finite ATR, whatever the other
  features are (NaN and infinite values included).\<close>

theorem triggers_ranked:
  assumes "sane_inputs inp"
  shows "mset (detectTriggers inp) = mset (raw_hits inp) \<and> distinct (map th_kind (detectTriggers inp)) \<and>
    list_all (\<lambda>h. Fin 0 \<le> th_score h \<and> th_score h \<le> Fin 1) (detectTriggers inp) \<and>
    sorted_wrt (\<lambda>a b. th_score b \<le> th_score a) (detectTriggers inp)"
proof -
  have "list_all2 (\<lambda>k r. sound_rule k (r inp)) [Fast_move, Breakout, Ema_cross, Vol_spike, Retest, Funding_event, Session_event]
     [fast_move_hit, breakout_hit, ema_cross_hit, vol_spike_hit, retest_hit, funding_hit, session_hit]"
    using assms by (simp add: rules_sound)
  note raw = one_per_kind [OF this, folded raw_hits_def]
  have d: "distinct [Fast_move, Breakout, Ema_cross, Vol_spike, Retest, Funding_event, Session_event]" by simp
  have kinds: "distinct (map th_kind (raw_hits inp))" and unit: "\<forall>h\<in>set (raw_hits inp). unit_score (th_score h)"
    using raw [OF d] by blast+
  have m: "mset (detectTriggers inp) = mset (raw_hits inp)" by (simp add: detectTriggers_def mset_sort_hits)
  then have s: "set (detectTriggers inp) = set (raw_hits inp)" by (rule mset_eq_setD)
  have "mset (map th_kind (detectTriggers inp)) = mset (map th_kind (raw_hits inp))" using m by simp
  then have "distinct (map th_kind (detectTriggers inp))" using kinds mset_eq_imp_distinct_iff by blast
  moreover have "list_all (\<lambda>h. Fin 0 \<le> th_score h \<and> th_score h \<le> Fin 1) (detectTriggers inp)"
    using unit s unfolding list_all_iff unit_score_def by blast
  moreover have "sorted_wrt (\<lambda>a b. th_score b \<le> th_score a) (detectTriggers inp)"
    unfolding detectTriggers_def using unit by (intro ranked_sort) (auto simp: unit_score_def)
  ultimately show ?thesis using m by simp
qed

definition quiet_features :: tf_features where
  "quiet_features = \<lparr>ft_tf = ''5m'', ft_last_close = Fin 110, ft_last_open_time = 0, ft_ema20 = Fin 105, ft_ema50 = Fin 100,
     ft_atr14 = Fin 2, ft_swing_high_20 = Fin 111, ft_swing_low_20 = Fin 90, ft_swing_high_20_prev = None,
     ft_swing_low_20_prev = None, ft_swing_high_50 = Fin 111, ft_swing_low_50 = Fin 80, ft_dist_to_high20_pct = Fin 1,
     ft_dist_to_low20_pct = Fin 20, ft_vol_ratio_20 = Fin 3, ft_change_pct_last = Fin 2, ft_change_pct_5 = Fin 3,
     ft_last_bars = [], ft_indicators = None\<rparr>"

definition busy_inputs :: trigger_inputs where
  "busy_inputs = \<lparr>ti_symbol = ''BTCUSDT'', ti_now_tf = quiet_features,
     ti_prev_tf = Some (quiet_features\<lparr>ft_swing_high_20 := Fin 109, ft_ema20 := Fin 99\<rparr>), ti_h1 = None, ti_market = None,
     ti_session = sessionInfo (\<lambda>_. (560, 1)), ti_fast_move_pct = Some (Fin 3), ti_fast_move_threshold_pct = Fin 2,
     ti_prev_session = Some Off\<rparr>"

theorem triggers_ranked_witness:
  "sane_inputs busy_inputs \<and> map th_kind (detectTriggers busy_inputs) = [Fast_move, Vol_spike, Breakout, Ema_cross, Session_event]
    \<and> sorted_wrt (\<lambda>a b. th_score b \<le> th_score a) (detectTriggers busy_inputs)"
proof -
  have s: "sane_inputs busy_inputs" by code_simp
  have k: "map th_kind (detectTriggers busy_inputs) = [Fast_move, Vol_spike, Breakout, Ema_cross, Session_event]" by code_simp
  show ?thesis using triggers_ranked [OF s] s k by blast
qed

end
