(* ===== verification/Reversion.thy ===== *)
theory Reversion imports MarketFeatures begin

text \<open>
  Reversion statistics (\<open>reversion-stats.ts\<close>): how often a price that strayed k ATRs from its EMA touched the EMA again
  within H bars, and after how many bars. The rendered sentence (Chinese prose made from the cells) is left out; option
  fields that are absent take the code's defaults. Horizons and periods are natural numbers.
\<close>

section \<open>Model\<close>

record reversion_cell =
  rc_k :: jsnum
  rc_horizon :: nat
  rc_samples :: nat
  rc_prob :: "jsnum option"
  rc_median_bars :: "jsnum option"

record reversion_stats =
  rs_tf :: string
  rs_bars :: nat
  rs_ema_period :: nat
  rs_atr_period :: nat
  rs_ks :: "jsnum list"
  rs_horizons :: "nat list"
  rs_cells :: "reversion_cell list"

record reversion_options =
  ro_tf :: "string option"
  ro_ema_period :: "nat option"
  ro_atr_period :: "nat option"
  ro_ks :: "jsnum list option"
  ro_horizons :: "nat list option"
  ro_min_bars :: "nat option"

definition DEFAULT_KS :: "jsnum list" where "DEFAULT_KS = [lit (3/2), Fin 2, lit (5/2)]"

definition DEFAULT_HORIZONS :: "nat list" where "DEFAULT_HORIZONS = [6, 12, 24]"

definition MIN_BARS :: nat where "MIN_BARS = 400"

text \<open>The loops carry the index and the previous value, as the code's \<open>prev\<close> variable does.\<close>

fun ema_loop :: "jsnum \<Rightarrow> nat \<Rightarrow> jsnum \<Rightarrow> jsnum list \<Rightarrow> jsnum list" where
  "ema_loop k i prev [] = []"
| "ema_loop k i prev (v # vs) = (let p = (if i = 0 then v else v * k + prev * (Fin 1 - k)) in p # ema_loop k (i + 1) p vs)"

definition emaSeries :: "jsnum list \<Rightarrow> nat \<Rightarrow> jsnum list" where
  "emaSeries values period = ema_loop (Fin 2 / num (period + 1)) 0 (Fin 0) values"

definition atr_range :: "kline list \<Rightarrow> nat \<Rightarrow> jsnum" where
  "atr_range ks i = (let k = ks ! i; high = js_number (k_high k); low = js_number (k_low k);
     prevClose = (if i = 0 then js_number (k_open k) else js_number (k_close (ks ! (i - 1))))
   in js_max (js_max (high - low) \<bar>high - prevClose\<bar>) \<bar>low - prevClose\<bar>)"

fun atr_loop :: "jsnum \<Rightarrow> nat \<Rightarrow> jsnum \<Rightarrow> jsnum list \<Rightarrow> jsnum list" where
  "atr_loop period i prev [] = []"
| "atr_loop period i prev (tr # trs) = (let p = (if i = 0 then tr else (prev * (period - Fin 1) + tr) / period)
     in p # atr_loop period (i + 1) p trs)"

definition atrSeries :: "kline list \<Rightarrow> nat \<Rightarrow> jsnum list" where
  "atrSeries ks period = atr_loop (num period) 0 (Fin 0) (List.map (atr_range ks) [0..<length ks])"

definition median :: "nat list \<Rightarrow> jsnum option" where
  "median xs = (if xs = [] then None else let s = sort xs; mid = length s div 2 in
     Some (if length s mod 2 = 1 then num (s ! mid) else (num (s ! (mid - 1)) + num (s ! mid)) / Fin 2))"

record reversion_series =
  rv_closes :: "jsnum list"
  rv_highs :: "jsnum list"
  rv_lows :: "jsnum list"
  rv_ema :: "jsnum list"
  rv_atr :: "jsnum list"

definition touches :: "reversion_series \<Rightarrow> nat \<Rightarrow> bool" where
  "touches s j = (rv_lows s ! j \<le> rv_ema s ! j \<and> rv_ema s ! j \<le> rv_highs s ! j)"

text \<open>The inner loop over \<open>j\<close>, with the number of bars left; the first touch ends it.\<close>

fun first_touch :: "reversion_series \<Rightarrow> nat \<Rightarrow> nat \<Rightarrow> nat \<Rightarrow> nat option" where
  "first_touch s i j 0 = None"
| "first_touch s i j (Suc left) = (if touches s j then Some (j - i) else first_touch s i (j + 1) left)"

text \<open>One bar as a sample: the two \<open>continue\<close>s of the outer loop.\<close>

definition strays :: "reversion_series \<Rightarrow> jsnum \<Rightarrow> nat \<Rightarrow> bool" where
  "strays s k i = (Fin 0 < rv_atr s ! i \<and> \<not> \<bar>rv_closes s ! i - rv_ema s ! i\<bar> / rv_atr s ! i < k)"

definition cell_step :: "reversion_series \<Rightarrow> jsnum \<Rightarrow> nat \<Rightarrow> nat \<times> nat list \<Rightarrow> nat \<Rightarrow> nat \<times> nat list" where
  "cell_step s k H acc i = (case acc of (samples, toRevert) \<Rightarrow>
     if \<not> strays s k i then acc
     else (samples + 1, case first_touch s i (i + 1) H of None \<Rightarrow> toRevert | Some n \<Rightarrow> toRevert @ [n]))"

definition reversion_cell_of :: "reversion_series \<Rightarrow> nat \<Rightarrow> nat \<Rightarrow> jsnum \<Rightarrow> nat \<Rightarrow> reversion_cell" where
  "reversion_cell_of s n warm k H = (let (samples, toRevert) = foldl (cell_step s k H) (0, []) [warm..<n - H] in
     \<lparr>rc_k = k, rc_horizon = H, rc_samples = samples,
       rc_prob = (if samples = 0 then None else Some (num (length toRevert) / num samples)), rc_median_bars = median toRevert\<rparr>)"

definition series_of :: "kline list \<Rightarrow> nat \<Rightarrow> nat \<Rightarrow> reversion_series" where
  "series_of ks emaPeriod atrPeriod = \<lparr>rv_closes = closes ks, rv_highs = highs ks, rv_lows = lows ks,
     rv_ema = emaSeries (closes ks) emaPeriod, rv_atr = atrSeries ks atrPeriod\<rparr>"

definition reversionStats :: "kline list \<Rightarrow> reversion_options \<Rightarrow> reversion_stats option" where
  "reversionStats klines opts = (let emaPeriod = default (ro_ema_period opts) 20; atrPeriod = default (ro_atr_period opts) 14;
     ks = default (ro_ks opts) DEFAULT_KS; horizons = default (ro_horizons opts) DEFAULT_HORIZONS in
     if length klines < default (ro_min_bars opts) MIN_BARS then None
     else let s = series_of klines emaPeriod atrPeriod; warm = max emaPeriod atrPeriod * 2 in
       Some \<lparr>rs_tf = default (ro_tf opts) [], rs_bars = length klines, rs_ema_period = emaPeriod, rs_atr_period = atrPeriod,
         rs_ks = ks, rs_horizons = horizons,
         rs_cells = concat (List.map (\<lambda>k. List.map (reversion_cell_of s (length klines) warm k) horizons) ks)\<rparr>)"

definition reversionCell :: "reversion_stats \<Rightarrow> jsnum \<Rightarrow> nat \<Rightarrow> reversion_cell option" where
  "reversionCell s k horizon = List.find (\<lambda>c. js_eq (rc_k c) k \<and> rc_horizon c = horizon) (rs_cells s)"

section \<open>Facts\<close>

text \<open>The EMA of this file is the EMA of \<open>market.ts\<close>, as its comment says.\<close>

lemma ema_loop_from: "0 < i \<Longrightarrow> ema_loop k i p vs = ema_from k (Some p) vs"
  by (induction vs arbitrary: i p) (simp_all add: Let_def)

lemma emaSeries_market: "emaSeries vs period = market_ema vs period"
  by (cases vs) (simp_all add: emaSeries_def market_ema_def ema_loop_from Let_def)

text \<open>What the two loops compute: the first touch within the horizon, for every straying bar.\<close>

definition reverts_at :: "reversion_series \<Rightarrow> nat \<Rightarrow> nat \<Rightarrow> nat option" where
  "reverts_at s H i = List.find (\<lambda>d. touches s (i + d)) [1..<Suc H]"

lemma first_touch_find: "i < j \<Longrightarrow> first_touch s i j left = List.find (\<lambda>d. touches s (i + d)) [j - i..<j - i + left]"
proof (induction left arbitrary: j)
  case (Suc left)
  have u: "[j - i..<j - i + Suc left] = (j - i) # [Suc j - i..<Suc j - i + left]"
    using Suc.prems by (subst upt_conv_Cons) (simp_all add: Suc_diff_le)
  show ?case unfolding u using Suc.IH [of "Suc j"] Suc.prems by simp
qed simp

lemma first_touch_reverts: "first_touch s i (Suc i) H = reverts_at s H i"
  by (simp add: first_touch_find reverts_at_def)

lemma cell_loop:
  "foldl (cell_step s k H) (0, []) xs = (length (filter (strays s k) xs), List.map_filter (reverts_at s H) (filter (strays s k) xs))"
proof -
  have "foldl (cell_step s k H) (c, rs) xs =
     (c + length (filter (strays s k) xs), rs @ List.map_filter (reverts_at s H) (filter (strays s k) xs))" for c rs
    by (induction xs arbitrary: c rs)
      (simp_all add: cell_step_def first_touch_reverts List.map_filter_def split: option.split)
  then show ?thesis by simp
qed

lemma reverts_within: "reverts_at s H i = Some d \<Longrightarrow> 1 \<le> d \<and> d \<le> H"
  unfolding reverts_at_def find_Some_iff by (auto simp del: upt_Suc)

lemma median_between:
  assumes "\<forall>x\<in>set xs. a \<le> x \<and> x \<le> b" "b \<le> 2 ^ 52" "median xs = Some m"
  shows "num a \<le> m \<and> m \<le> num b"
proof -
  let ?s = "sort xs" and ?mid = "length xs div 2"
  have ne: "xs \<noteq> []" using assms(3) by (auto simp: median_def)
  have el: "a \<le> ?s ! i \<and> ?s ! i \<le> b" if "i < length xs" for i
    using assms(1) nth_mem [of i ?s] that by simp
  have mid: "?mid < length xs" using ne by simp
  have n: "num x = Fin (of_nat x)" if "x \<le> 2 ^ 53" for x using that by (rule rnd_of_nat)
  show ?thesis
  proof (cases "length xs mod 2 = 1")
    case True
    then have m: "m = num (?s ! ?mid)" using assms(3) ne by (simp add: median_def Let_def)
    show ?thesis unfolding m using el [OF mid] by (intro conjI rnd_mono) simp_all
  next
    case False
    then have m: "m = (num (?s ! (?mid - 1)) + num (?s ! ?mid)) / Fin 2"
      using assms(3) ne by (simp add: median_def Let_def)
    let ?x = "?s ! (?mid - 1)" and ?y = "?s ! ?mid"
    have x: "a \<le> ?x" "?x \<le> b" and y: "a \<le> ?y" "?y \<le> b" using el [of "?mid - 1"] el [OF mid] mid by auto
    have sum: "num ?x + num ?y = Fin (of_nat (?x + ?y))"
    proof -
      have "num ?x + num ?y = rnd (of_nat (?x + ?y))" using x y assms(2) by (simp add: n)
      also have "\<dots> = Fin (of_nat (?x + ?y))" using x y assms(2) by (intro rnd_of_nat) simp
      finally show ?thesis .
    qed
    have "m = rnd (of_nat (?x + ?y) / 2)" unfolding m sum by simp
    moreover have "(of_nat a :: rat) \<le> of_nat (?x + ?y) / 2" "of_nat (?x + ?y) / 2 \<le> (of_nat b :: rat)"
      using x y by simp_all
    ultimately show ?thesis by (simp add: rnd_mono)
  qed
qed

lemma fraction_unit:
  assumes "r \<le> n" "0 < n" "n \<le> 2 ^ 53"
  shows "Fin 0 \<le> num r / num n \<and> num r / num n \<le> Fin 1"
proof -
  have "num r = Fin (of_nat r)" "num n = Fin (of_nat n)" using assms by (auto intro!: rnd_of_nat)
  then have "num r / num n = rnd (of_nat r / of_nat n)" using assms(2) by simp
  moreover have "(0 :: rat) \<le> of_nat r / of_nat n" "of_nat r / of_nat n \<le> (1 :: rat)" using assms by simp_all
  ultimately show ?thesis by (metis rnd_ge rnd_le dbl_0 dbl_1)
qed

lemma map_filter_length: "length (List.map_filter f xs) \<le> length xs"
  unfolding List.map_filter_def by simp

text \<open>The statistics of every cell are those of the straying bars of the history: the samples are the bars from the warm-up
  to H before the end that strayed k ATRs or more, the probability is the share of them that touched the EMA within H
  bars, between 0 and 1, and the median of the first touches lies between 1 and H.\<close>

theorem reversion_cells_exact:
  assumes "reversionStats klines opts = Some st" "length klines \<le> 2 ^ 50" "c \<in> set (rs_cells st)" "rc_horizon c \<le> 2 ^ 50"
  shows "let s = series_of klines (rs_ema_period st) (rs_atr_period st);
      bars = filter (strays s (rc_k c)) [max (rs_ema_period st) (rs_atr_period st) * 2..<length klines - rc_horizon c];
      touched = List.map_filter (reverts_at s (rc_horizon c)) bars in
    rc_samples c = length bars \<and> rc_median_bars c = median touched \<and>
    rc_prob c = (if bars = [] then None else Some (num (length touched) / num (length bars))) \<and>
    list_all (\<lambda>q. Fin 0 \<le> q \<and> q \<le> Fin 1) (case rc_prob c of None \<Rightarrow> [] | Some q \<Rightarrow> [q]) \<and>
    list_all (\<lambda>m. Fin 1 \<le> m \<and> m \<le> num (rc_horizon c)) (case rc_median_bars c of None \<Rightarrow> [] | Some m \<Rightarrow> [m])"
proof -
  define s where "s = series_of klines (rs_ema_period st) (rs_atr_period st)"
  define warm where "warm = max (rs_ema_period st) (rs_atr_period st) * 2"
  define bars where "bars = filter (strays s (rc_k c)) [warm..<length klines - rc_horizon c]"
  define touched where "touched = List.map_filter (reverts_at s (rc_horizon c)) bars"
  have st: "rs_cells st = concat (List.map (\<lambda>k. List.map (reversion_cell_of s (length klines) warm k) (rs_horizons st)) (rs_ks st))"
    using assms(1) unfolding reversionStats_def Let_def s_def warm_def by (auto split: if_splits)
  then obtain k H where kH: "c = reversion_cell_of s (length klines) warm k H" using assms(3) by auto
  then have "rc_k c = k" "rc_horizon c = H" by (simp_all add: reversion_cell_of_def case_prod_beta)
  then have c: "rc_samples c = length bars" "rc_median_bars c = median touched"
    "rc_prob c = (if bars = [] then None else Some (num (length touched) / num (length bars)))"
    using kH by (simp_all add: reversion_cell_of_def cell_loop bars_def touched_def)
  have n: "length touched \<le> length bars" "length bars \<le> 2 ^ 53"
  proof -
    have "length bars \<le> length [warm..<length klines - rc_horizon c]" unfolding bars_def by (rule length_filter_le)
    then show "length bars \<le> 2 ^ 53" using assms(2) by simp
  qed (simp add: touched_def map_filter_length)
  have t: "\<forall>x\<in>set touched. 1 \<le> x \<and> x \<le> rc_horizon c"
  proof
    fix x assume "x \<in> set touched"
    then obtain i where "reverts_at s (rc_horizon c) i = Some x" unfolding touched_def List.map_filter_def by auto
    then show "1 \<le> x \<and> x \<le> rc_horizon c" by (rule reverts_within)
  qed
  have "list_all (\<lambda>q. Fin 0 \<le> q \<and> q \<le> Fin 1) (case rc_prob c of None \<Rightarrow> [] | Some q \<Rightarrow> [q])"
    unfolding c using fraction_unit [OF n(1) _ n(2)] by simp
  moreover have "list_all (\<lambda>m. Fin 1 \<le> m \<and> m \<le> num (rc_horizon c)) (case rc_median_bars c of None \<Rightarrow> [] | Some m \<Rightarrow> [m])"
    unfolding c using median_between [OF t] assms(4) by (auto split: option.split)
  ultimately show ?thesis using c unfolding Let_def s_def [symmetric] warm_def [symmetric] bars_def [symmetric] touched_def [symmetric]
    by (intro conjI)
qed

definition wave :: "nat \<Rightarrow> kline" where
  "wave i = (let c = ''10'' @ (if i mod 4 < 2 then ''1'' else ''9'') in \<lparr>k_open_time = int i, k_open = c,
     k_high = (if i mod 4 = 3 then ''110'' else c), k_low = (if i mod 4 = 3 then ''100'' else c),
     k_close = c, k_volume = ''1'', k_close_time = int i + 1\<rparr>)"

definition waves :: "kline list" where "waves = List.map wave [0..<14]"

definition quick :: reversion_options where
  "quick = \<lparr>ro_tf = Some ''5m'', ro_ema_period = Some 3, ro_atr_period = Some 2, ro_ks = Some [lit (1/10)], ro_horizons = Some [3],
     ro_min_bars = Some 5\<rparr>"

theorem reversion_cells_exact_witness:
  "(case reversionStats waves quick of Some st \<Rightarrow> rc_prob (hd (rs_cells st)) \<noteq> None \<and>
     list_all (\<lambda>q. Fin 0 \<le> q \<and> q \<le> Fin 1) (case rc_prob (hd (rs_cells st)) of None \<Rightarrow> [] | Some q \<Rightarrow> [q]) | None \<Rightarrow> False)"
proof -
  have some: "(case reversionStats waves quick of None \<Rightarrow> False | Some st \<Rightarrow>
     rs_cells st \<noteq> [] \<and> rc_horizon (hd (rs_cells st)) = 3 \<and> rc_prob (hd (rs_cells st)) \<noteq> None)" by code_simp
  then obtain st where st: "reversionStats waves quick = Some st" "hd (rs_cells st) \<in> set (rs_cells st)"
    "rc_horizon (hd (rs_cells st)) = 3" "rc_prob (hd (rs_cells st)) \<noteq> None" by (auto split: option.splits)
  have len: "length waves \<le> 2 ^ 50" by (simp add: waves_def)
  have h: "rc_horizon (hd (rs_cells st)) \<le> 2 ^ 50" unfolding st(3) by simp
  have "list_all (\<lambda>q. Fin 0 \<le> q \<and> q \<le> Fin 1) (case rc_prob (hd (rs_cells st)) of None \<Rightarrow> [] | Some q \<Rightarrow> [q])"
    using reversion_cells_exact [OF st(1) len st(2)] h unfolding Let_def by blast
  then show ?thesis using st(4) unfolding st(1) option.case by (rule conjI [rotated])
qed

end
