(* ===== verification/Fingerprint.thy ===== *)
theory Fingerprint imports MarketFeatures begin

text \<open>
  The heartbeat fingerprint (\<open>fingerprint.ts\<close>): a coarse description of what the playbook looks at. Equal fingerprints
  make the runtime skip a model call, so equal fingerprints have to mean equal buckets.
\<close>

section \<open>Model\<close>

record fingerprint_inputs =
  fi_tf :: tf_features
  fi_h1 :: "tf_features option"
  fi_market_state_id :: "string option"
  fi_session :: string
  fi_regime :: "string option"

definition trend_text :: "tf_features \<Rightarrow> string" where
  "trend_text f = (if ft_ema50 f < ft_ema20 f then ''up'' else if ft_ema20 f < ft_ema50 f then ''dn'' else ''flat'')"

definition above :: "tf_features \<Rightarrow> string" where
  "above f = (if ft_ema20 f \<le> ft_last_close f then ''a'' else ''b'')"

definition atrBucket :: "tf_features \<Rightarrow> string" where
  "atrBucket f = (let pct = (if Fin 0 < ft_last_close f then ft_atr14 f / ft_last_close f * Fin 100 else Fin 0) in
     if pct < lit (15/100) then ''atr0'' else if pct < lit (4/10) then ''atr1'' else ''atr2'')"

definition rangeBucket :: "tf_features \<Rightarrow> string" where
  "rangeBucket f = (if ft_atr14 f \<le> Fin 0 then ''r?''
     else let toHigh = (ft_swing_high_20 f - ft_last_close f) / ft_atr14 f; toLow = (ft_last_close f - ft_swing_low_20 f) / ft_atr14 f in
       if toHigh < Fin 0 then ''r>hi'' else if toLow < Fin 0 then ''r<lo''
       else if toHigh \<le> lit (3/2) then ''r~hi'' else if toLow \<le> lit (3/2) then ''r~lo'' else ''rmid'')"

definition volBucket :: "tf_features \<Rightarrow> string" where
  "volBucket f = (if lit (3/2) \<le> ft_vol_ratio_20 f then ''v2'' else if Fin 1 \<le> ft_vol_ratio_20 f then ''v1'' else ''v0'')"

definition or_dash :: "string option \<Rightarrow> string" where "or_dash v = (case v of None \<Rightarrow> ''-'' | Some s \<Rightarrow> s)"

definition tf_part :: "tf_features \<Rightarrow> string" where
  "tf_part f = ft_tf f @ '':'' @ trend_text f @ above f @ '':'' @ atrBucket f @ '':'' @ rangeBucket f @ '':'' @ volBucket f"

definition h1_part :: "tf_features option \<Rightarrow> string" where
  "h1_part h = (case h of None \<Rightarrow> ''1h:?'' | Some f \<Rightarrow> ''1h:'' @ trend_text f @ above f)"

definition heartbeatFingerprint :: "fingerprint_inputs \<Rightarrow> string" where
  "heartbeatFingerprint i = join_str ''|'' [tf_part (fi_tf i), h1_part (fi_h1 i), ''ms:'' @ or_dash (fi_market_state_id i),
     ''s:'' @ fi_session i, ''rg:'' @ or_dash (fi_regime i)]"

section \<open>Facts\<close>

text \<open>A separator that occurs on neither side of itself can be cut at.\<close>

lemma cut_at: "c \<notin> set a \<Longrightarrow> c \<notin> set a' \<Longrightarrow> a @ c # b = a' @ c # b' \<longleftrightarrow> a = a' \<and> b = b'"
  by (auto simp: append_eq_append_conv2 append_eq_Cons_conv Cons_eq_append_conv)

definition buckets :: "tf_features \<Rightarrow> string list" where
  "buckets f = [ft_tf f, trend_text f, above f, atrBucket f, rangeBucket f, volBucket f]"

lemma bucket_chars:
  "trend_text f \<in> {''up'', ''dn'', ''flat''}" "above f \<in> {''a'', ''b''}" "atrBucket f \<in> {''atr0'', ''atr1'', ''atr2''}"
  "rangeBucket f \<in> {''r?'', ''r>hi'', ''r<lo'', ''r~hi'', ''r~lo'', ''rmid''}" "volBucket f \<in> {''v0'', ''v1'', ''v2''}"
  by (simp_all add: trend_text_def above_def atrBucket_def rangeBucket_def volBucket_def Let_def)

lemma no_separator:
  "CHR ''|'' \<notin> set (trend_text f)" "CHR ''|'' \<notin> set (above f)" "CHR ''|'' \<notin> set (atrBucket f)" "CHR ''|'' \<notin> set (rangeBucket f)"
  "CHR ''|'' \<notin> set (volBucket f)" "CHR '':'' \<notin> set (trend_text f)" "CHR '':'' \<notin> set (above f)" "CHR '':'' \<notin> set (atrBucket f)"
  "CHR '':'' \<notin> set (rangeBucket f)"
  by (simp_all add: trend_text_def above_def atrBucket_def rangeBucket_def volBucket_def Let_def)

lemma trend_above: "trend_text f @ above f = trend_text g @ above g \<longleftrightarrow> trend_text f = trend_text g \<and> above f = above g"
  by (simp add: trend_text_def above_def)

lemma tf_part_eq:
  assumes "CHR '':'' \<notin> set (ft_tf f)" "CHR '':'' \<notin> set (ft_tf g)"
  shows "tf_part f = tf_part g \<longleftrightarrow> buckets f = buckets g"
proof -
  have "tf_part f = tf_part g \<longleftrightarrow> ft_tf f = ft_tf g \<and> trend_text f @ above f = trend_text g @ above g \<and> atrBucket f = atrBucket g \<and>
      rangeBucket f = rangeBucket g \<and> volBucket f = volBucket g"
    using cut_at [of "CHR '':''" "ft_tf f" "ft_tf g"] cut_at [of "CHR '':''" "trend_text f @ above f" "trend_text g @ above g"]
      cut_at [of "CHR '':''" "atrBucket f" "atrBucket g"] cut_at [of "CHR '':''" "rangeBucket f" "rangeBucket g"] assms
    unfolding tf_part_def by (simp add: no_separator)
  then show ?thesis unfolding buckets_def trend_above by auto
qed

lemma h1_part_eq: "h1_part h = h1_part h' \<longleftrightarrow> map_option (\<lambda>f. [trend_text f, above f]) h = map_option (\<lambda>f. [trend_text f, above f]) h'"
proof -
  have q: "trend_text f @ above f \<noteq> ''?''" for f by (simp add: trend_text_def)
  show ?thesis using q q [symmetric] by (cases h; cases h') (simp_all add: h1_part_def trend_above)
qed

definition bar_free :: "fingerprint_inputs \<Rightarrow> bool" where
  "bar_free i = (CHR ''|'' \<notin> set (ft_tf (fi_tf i)) \<and> CHR '':'' \<notin> set (ft_tf (fi_tf i)) \<and>
     CHR ''|'' \<notin> set (or_dash (fi_market_state_id i)) \<and> CHR ''|'' \<notin> set (fi_session i))"

text \<open>Two fingerprints are equal exactly when nothing the playbook looks at changed its bucket: timeframe, trend, side of
  the EMA, volatility, place in the range and volume of the scan timeframe, trend and side on the hour, market state,
  session and regime (an absent state or regime counts as the text of one dash), provided the names hold no separator.\<close>

theorem fingerprint_equal_iff:
  assumes "bar_free i" "bar_free j"
  shows "heartbeatFingerprint i = heartbeatFingerprint j \<longleftrightarrow>
    buckets (fi_tf i) = buckets (fi_tf j) \<and>
    map_option (\<lambda>f. [trend_text f, above f]) (fi_h1 i) = map_option (\<lambda>f. [trend_text f, above f]) (fi_h1 j) \<and>
    or_dash (fi_market_state_id i) = or_dash (fi_market_state_id j) \<and> fi_session i = fi_session j \<and>
    or_dash (fi_regime i) = or_dash (fi_regime j)"
proof -
  have t: "CHR ''|'' \<notin> set (tf_part (fi_tf k)) \<and> CHR ''|'' \<notin> set (h1_part (fi_h1 k)) \<and>
      CHR ''|'' \<notin> set (''ms:'' @ or_dash (fi_market_state_id k)) \<and> CHR ''|'' \<notin> set (''s:'' @ fi_session k)" if "bar_free k" for k
    using that by (auto simp: bar_free_def tf_part_def h1_part_def no_separator split: option.splits)
  have "heartbeatFingerprint i = heartbeatFingerprint j \<longleftrightarrow> tf_part (fi_tf i) = tf_part (fi_tf j) \<and>
      h1_part (fi_h1 i) = h1_part (fi_h1 j) \<and> ''ms:'' @ or_dash (fi_market_state_id i) = ''ms:'' @ or_dash (fi_market_state_id j) \<and>
      ''s:'' @ fi_session i = ''s:'' @ fi_session j \<and> ''rg:'' @ or_dash (fi_regime i) = ''rg:'' @ or_dash (fi_regime j)"
    using t [OF assms(1)] t [OF assms(2)]
    unfolding heartbeatFingerprint_def by (simp add: join_str_def cut_at del: append_Cons) (simp add: cut_at)
  then show ?thesis using assms by (simp add: bar_free_def tf_part_eq h1_part_eq)
qed

definition calm_features :: tf_features where
  "calm_features = \<lparr>ft_tf = ''5m'', ft_last_close = Fin 110, ft_last_open_time = 0, ft_ema20 = Fin 105, ft_ema50 = Fin 100,
     ft_atr14 = Fin 2, ft_swing_high_20 = Fin 111, ft_swing_low_20 = Fin 90, ft_swing_high_20_prev = None,
     ft_swing_low_20_prev = None, ft_swing_high_50 = Fin 111, ft_swing_low_50 = Fin 80, ft_dist_to_high20_pct = Fin 1,
     ft_dist_to_low20_pct = Fin 20, ft_vol_ratio_20 = Fin 3, ft_change_pct_last = Fin 2, ft_change_pct_5 = Fin 3,
     ft_last_bars = [], ft_indicators = None\<rparr>"

definition calm :: fingerprint_inputs where
  "calm = \<lparr>fi_tf = calm_features, fi_h1 = Some calm_features, fi_market_state_id = None, fi_session = ''us'', fi_regime = Some ''bull''\<rparr>"

definition later :: fingerprint_inputs where "later = calm\<lparr>fi_tf := calm_features\<lparr>ft_last_close := Fin 109\<rparr>\<rparr>"

theorem fingerprint_equal_iff_witness:
  "bar_free calm \<and> bar_free later \<and> heartbeatFingerprint calm = heartbeatFingerprint later"
proof -
  have f: "bar_free calm" "bar_free later" by code_simp+
  have "buckets (fi_tf calm) = buckets (fi_tf later)" by code_simp
  then show ?thesis using fingerprint_equal_iff [OF f] f by (simp add: later_def)
qed

end
