(* ===== verification/ReviewMetrics.thy ===== *)
theory ReviewMetrics imports BarMetrics "HOL-Library.Sublist" begin

text \<open>
  The boundary metrics handed to the model (\<open>review-metrics.ts\<close>): the scan checklist and the review metrics. Their prose
  (Chinese sentences made from the same fields) is left out; the per-timeframe ATR floor is in the theory of the bar
  metrics, which share it.
\<close>

section \<open>Scan checklist\<close>

definition CHASE_ATR_MAX :: jsnum where "CHASE_ATR_MAX = lit (3/2)"

definition RETEST_VOL_MIN :: jsnum where "RETEST_VOL_MIN = Fin 1"

definition BREAKOUT_WINDOW :: jsnum where "BREAKOUT_WINDOW = Fin 1"

record scan_thresholds =
  tr_atr_pct_floor :: "jsnum option"
  tr_chase_atr_max :: "jsnum option"
  tr_retest_vol_min :: "jsnum option"
  tr_breakout_window :: "jsnum option"

definition no_thresholds :: scan_thresholds where
  "no_thresholds = \<lparr>tr_atr_pct_floor = None, tr_chase_atr_max = None, tr_retest_vol_min = None, tr_breakout_window = None\<rparr>"

record scan_checklist =
  sc_tf :: string
  sc_atr_pct :: "jsnum option"
  sc_atr_floor :: jsnum
  sc_atr_ok :: bool
  sc_rsi14 :: "jsnum option"
  sc_adx14 :: "jsnum option"
  sc_trend_strength :: "trend_strength option"
  sc_bb_width_rank_90 :: "jsnum option"
  sc_squeeze_on :: "bool option"
  sc_squeeze_bars :: "nat option"
  sc_dist_to_vwap_atr :: "jsnum option"
  sc_trend_agree :: "direction option"
  sc_dist_to_break_atr :: "jsnum option"
  sc_within_chase :: bool
  sc_retest_confirmed :: bool
  sc_vol_ratio :: jsnum
  sc_price_above_ema20 :: bool
  sc_watch_eligible :: bool

definition byTf :: "tf_features list \<Rightarrow> string \<Rightarrow> tf_features option" where
  "byTf features tf = List.find (\<lambda>x. ft_tf x = tf) features"

definition tfDirection :: "tf_features option \<Rightarrow> direction option" where
  "tfDirection x = (case x of None \<Rightarrow> None
     | Some f \<Rightarrow> if ft_ema50 f < ft_ema20 f then Some Long else if ft_ema20 f < ft_ema50 f then Some Short else None)"

definition trendAgreement :: "tf_features list \<Rightarrow> direction option" where
  "trendAgreement features = (let h1 = tfDirection (byTf features ''1h''); h4 = tfDirection (byTf features ''4h'') in
     if h1 \<noteq> None \<and> h1 = h4 then h1 else None)"

definition beyond :: "direction \<Rightarrow> jsnum \<Rightarrow> jsnum \<Rightarrow> bool" where
  "beyond d c level = (if d = Long then level < c else c < level)"

text \<open>The loop of \<open>brokeWithin\<close> with \<open>i + 1\<close> as its argument; \<open>lo\<close> is the bound of the loop.\<close>

fun broke_loop :: "kline list \<Rightarrow> direction \<Rightarrow> jsnum \<Rightarrow> nat \<Rightarrow> bool" where
  "broke_loop ks d lo 0 = False"
| "broke_loop ks d lo (Suc i) = (if \<not> lo \<le> num i then False
     else let prior = drop (i - 20) (take i ks) in
       if length prior < 20 then False
       else if beyond d (js_number (k_close (ks ! i))) (if d = Long then js_maxs (highs prior) else js_mins (lows prior)) then True
       else broke_loop ks d lo i)"

definition brokeWithin :: "kline list \<Rightarrow> direction \<Rightarrow> jsnum \<Rightarrow> bool" where
  "brokeWithin ks d w = broke_loop ks d (js_max (Fin 21) (num (length ks) - w)) (length ks)"

definition scanChecklist :: "tf_features list \<Rightarrow> kline list option \<Rightarrow> scan_thresholds \<Rightarrow> scan_checklist option" where
  "scanChecklist features klines th = (case features of [] \<Rightarrow> None
   | base # _ \<Rightarrow> let chaseMax = default (tr_chase_atr_max th) CHASE_ATR_MAX; volMin = default (tr_retest_vol_min th) RETEST_VOL_MIN;
       breakWindow = js_max (Fin 1) (js_floor (default (tr_breakout_window th) BREAKOUT_WINDOW));
       c = ft_last_close base;
       atrPct = (if Fin 0 < c then Some (ft_atr14 base / c * Fin 100) else None);
       floor = default (tr_atr_pct_floor th) (atrPctFloor (ft_tf base));
       snap = (case ft_indicators base of Some s \<Rightarrow> Some s
         | None \<Rightarrow> (case klines of None \<Rightarrow> None | Some ks \<Rightarrow> if ks = [] then None else indicatorSnapshot ks (ft_tf base)));
       agree = trendAgreement features;
       level = (case agree of None \<Rightarrow> None | Some Long \<Rightarrow> Some (ft_swing_high_20 base) | Some Short \<Rightarrow> Some (ft_swing_low_20 base));
       distAtr = (case level of None \<Rightarrow> None | Some l \<Rightarrow> if Fin 0 < ft_atr14 base then Some (\<bar>c - l\<bar> / ft_atr14 base) else None);
       within_range = (case distAtr of None \<Rightarrow> False | Some x \<Rightarrow> x \<le> chaseMax);
       breakLevel = (case agree of None \<Rightarrow> None
         | Some Long \<Rightarrow> Some (default (ft_swing_high_20_prev base) (ft_swing_high_20 base))
         | Some Short \<Rightarrow> Some (default (ft_swing_low_20_prev base) (ft_swing_low_20 base)));
       broke = (case (agree, breakLevel) of (Some d, Some l) \<Rightarrow> beyond d c l | _ \<Rightarrow> False);
       recently = (broke \<or> (case (agree, klines) of (Some d, Some ks) \<Rightarrow> Fin 1 < breakWindow \<and> brokeWithin ks d breakWindow | _ \<Rightarrow> False));
       retest = (recently \<and> volMin \<le> ft_vol_ratio_20 base);
       adxValue = (case snap of None \<Rightarrow> None | Some s \<Rightarrow> (case is_adx14 s of None \<Rightarrow> None
         | Some a \<Rightarrow> if is_fin (ax_adx a) then Some (ax_adx a) else None))
     in Some \<lparr>sc_tf = ft_tf base, sc_atr_pct = atrPct, sc_atr_floor = floor,
       sc_atr_ok = (case atrPct of None \<Rightarrow> False | Some p \<Rightarrow> floor \<le> p), sc_rsi14 = Option.bind snap is_rsi14, sc_adx14 = adxValue,
       sc_trend_strength = map_option (\<lambda>_. trendStrengthOf adxValue) snap, sc_bb_width_rank_90 = Option.bind snap is_bb_width_rank_90,
       sc_squeeze_on = map_option sq_on (Option.bind snap is_squeeze), sc_squeeze_bars = map_option sq_bars_on (Option.bind snap is_squeeze),
       sc_dist_to_vwap_atr = Option.bind snap is_dist_to_vwap_atr, sc_trend_agree = agree, sc_dist_to_break_atr = distAtr,
       sc_within_chase = within_range, sc_retest_confirmed = retest, sc_vol_ratio = ft_vol_ratio_20 base,
       sc_price_above_ema20 = (ft_ema20 base < c), sc_watch_eligible = (agree \<noteq> None \<and> within_range \<and> \<not> retest)\<rparr>)"

section \<open>Invalidation price\<close>

definition word_char :: "char \<Rightarrow> bool" where
  "word_char c = (is_digit c \<or> 65 \<le> code c \<and> code c \<le> 90 \<or> 97 \<le> code c \<and> code c \<le> 122 \<or> c = CHR ''_'' \<or> c = CHR ''.'')"

text \<open>\<open>(?:,[0-9]{3})*\<close>, greedily: the match and the rest.\<close>

fun group_match :: "string \<Rightarrow> string \<times> string" where
  "group_match (s # a # b # c # r) = (if s = CHR '','' \<and> is_digit a \<and> is_digit b \<and> is_digit c
     then (let (m, r') = group_match r in (s # a # b # c # m, r')) else ([], s # a # b # c # r))"
| "group_match s = ([], s)"

definition fraction_match :: "string \<Rightarrow> string \<times> string" where
  "fraction_match s = (case s of [] \<Rightarrow> ([], s) | c # r \<Rightarrow> let ds = takeWhile is_digit r in
     if c = CHR ''.'' \<and> ds \<noteq> [] then (c # ds, dropWhile is_digit r) else ([], s))"

text \<open>One match of the whole pattern at a digit.\<close>

definition number_match :: "string \<Rightarrow> string \<times> string" where
  "number_match s = (let (g, r) = group_match (dropWhile is_digit s); (f, r') = fraction_match r in (takeWhile is_digit s @ g @ f, r'))"

lemma group_match_append: "fst (group_match s) @ snd (group_match s) = s"
  by (induction s rule: group_match.induct) (simp_all add: case_prod_beta)

lemma fraction_match_append: "fst (fraction_match s) @ snd (fraction_match s) = s"
  by (simp add: fraction_match_def Let_def split: list.split)

lemma number_match_append: "fst (number_match s) @ snd (number_match s) = s"
  using group_match_append [of "dropWhile is_digit s"] fraction_match_append [of "snd (group_match (dropWhile is_digit s))"]
  by (simp add: number_match_def case_prod_beta)

lemma number_match_shorter: "is_digit c \<Longrightarrow> length (snd (number_match (c # cs))) < length (c # cs)"
proof -
  assume d: "is_digit c"
  have "length (fst (number_match (c # cs))) + length (snd (number_match (c # cs))) = length (c # cs)"
    using number_match_append [of "c # cs"] by (metis length_append)
  moreover have "0 < length (fst (number_match (c # cs)))" using d by (simp add: number_match_def case_prod_beta)
  ultimately show ?thesis by linarith
qed

text \<open>All matches in order. A match ends with a digit, so none starts right behind it.\<close>

function price_tokens :: "bool \<Rightarrow> string \<Rightarrow> string list" where
  "price_tokens blocked [] = []"
| "price_tokens blocked (c # cs) = (if \<not> blocked \<and> is_digit c
     then fst (number_match (c # cs)) # price_tokens True (snd (number_match (c # cs))) else price_tokens (word_char c) cs)"
  by pat_completeness auto
termination by (relation "measure (length \<circ> snd)") (auto dest: number_match_shorter)

definition token_value :: "string \<Rightarrow> jsnum" where "token_value tok = js_number (filter (\<lambda>c. c \<noteq> CHR '','') tok)"

definition near_price :: "jsnum \<Rightarrow> jsnum \<Rightarrow> bool" where
  "near_price ref v = (is_fin v \<and> Fin 0 < v \<and> \<bar>v - ref\<bar> / ref \<le> lit (1/5))"

definition parseInvalidationPrice :: "string option \<Rightarrow> jsnum option \<Rightarrow> jsnum option" where
  "parseInvalidationPrice text ref = (case (text, ref) of (Some t, Some r) \<Rightarrow>
     if t = [] \<or> \<not> is_fin r \<or> r \<le> Fin 0 then None else List.find (near_price r) (List.map token_value (price_tokens False t))
   | _ \<Rightarrow> None)"

section \<open>Review metrics\<close>

record review_input =
  ri_now :: int
  ri_side :: direction
  ri_in_position :: bool
  ri_mark :: "string option"
  ri_entry :: "string option"
  ri_entry_zone :: "(string \<times> string) option"
  ri_stop :: "string option"
  ri_take_profits :: "string list"
  ri_invalidation_text :: "string option"
  ri_opened_at :: "int option"
  ri_created_at :: int
  ri_tf_ms :: jsnum
  ri_features :: "tf_features list"
  ri_klines :: "kline list option"
  ri_confirm_bars :: "jsnum option"
  ri_buffer_atr :: "jsnum option"

record review_metrics =
  rm_risk_per_unit :: "jsnum option"
  rm_unrealized_r :: "jsnum option"
  rm_unrealized_pct :: "jsnum option"
  rm_dist_to_stop_r :: "jsnum option"
  rm_dist_to_stop_pct :: "jsnum option"
  rm_tp1_r :: "jsnum option"
  rm_tp1_from_entry_r :: "jsnum option"
  rm_bars_held :: "jsnum option"
  rm_minutes_held :: jsnum
  rm_closed_beyond_stop :: "bool option"
  rm_invalidation_price :: "jsnum option"
  rm_closed_beyond_invalidation :: "bool option"
  rm_bars_beyond_invalidation :: "nat option"
  rm_invalidation_depth_atr :: "jsnum option"
  rm_invalidation_confirmed :: "bool option"
  rm_in_entry_zone :: "bool option"
  rm_structure_against :: bool
  rm_trend_now_15m :: "direction option"
  rm_trend_now_h1 :: "direction option"
  rm_thesis_trend_flipped :: bool

text \<open>\<open>num\<close> of the file: the finite value of a decimal string.\<close>

definition fin_num :: "string option \<Rightarrow> jsnum option" where
  "fin_num s = (case s of None \<Rightarrow> None | Some t \<Rightarrow> if is_fin (js_number t) then Some (js_number t) else None)"

text \<open>The shared shapes \<open>a !== null && b !== null && r ? e : null\<close>.\<close>

definition both :: "(jsnum \<Rightarrow> jsnum \<Rightarrow> 'a) \<Rightarrow> jsnum option \<Rightarrow> jsnum option \<Rightarrow> 'a option" where
  "both f a b = (case (a, b) of (Some x, Some y) \<Rightarrow> Some (f x y) | _ \<Rightarrow> None)"

definition over :: "jsnum option \<Rightarrow> jsnum option \<Rightarrow> jsnum option" where
  "over a b = (case (a, b) of (Some x, Some y) \<Rightarrow> if num_truthy y then Some (x / y) else None | _ \<Rightarrow> None)"

definition side_sign :: "direction \<Rightarrow> jsnum" where "side_sign d = (if d = Long then Fin 1 else Fin (- 1))"

text \<open>The wrong side of a price: below it for a long, above it for a short.\<close>

definition past :: "direction \<Rightarrow> jsnum \<Rightarrow> jsnum \<Rightarrow> bool" where
  "past d c level = (if d = Long then c < level else level < c)"

definition bars_past :: "direction \<Rightarrow> jsnum \<Rightarrow> jsnum list \<Rightarrow> nat" where
  "bars_past d level cs = length (takeWhile (\<lambda>c. past d c level) (rev cs))"

definition judged_closes :: "kline list option \<Rightarrow> jsnum \<Rightarrow> jsnum list" where
  "judged_closes ks lastClose = (case ks of None \<Rightarrow> [lastClose] | Some k \<Rightarrow> if k = [] then [lastClose] else closes k)"

record invalidation =
  iv_bars :: "nat option"
  iv_depth :: "jsnum option"
  iv_confirmed :: "bool option"

definition invalidation_of :: "review_input \<Rightarrow> jsnum option \<Rightarrow> tf_features option \<Rightarrow> invalidation" where
  "invalidation_of inp invPrice base = (case (invPrice, base) of
     (Some p, Some b) \<Rightarrow>
       let confirmBars = js_max (Fin 1) (js_round (default (ri_confirm_bars inp) (Fin 2)));
         bufferAtr = js_max (Fin 0) (default (ri_buffer_atr inp) (lit (2/10)));
         n = bars_past (ri_side inp) p (judged_closes (ri_klines inp) (ft_last_close b));
         depth = (if num_truthy (ft_atr14 b) \<and> Fin 0 < ft_atr14 b
           then Some ((if ri_side inp = Long then p - ft_last_close b else ft_last_close b - p) / ft_atr14 b) else None)
       in \<lparr>iv_bars = Some n, iv_depth = depth, iv_confirmed = Some (confirmBars \<le> num n \<and>
            (case depth of None \<Rightarrow> True | Some x \<Rightarrow> bufferAtr \<le> x))\<rparr>
   | _ \<Rightarrow> \<lparr>iv_bars = None, iv_depth = None, iv_confirmed = None\<rparr>)"

definition zone_nums :: "(string \<times> string) option \<Rightarrow> jsnum list" where
  "zone_nums z = (case z of None \<Rightarrow> [] | Some (a, b) \<Rightarrow> List.map_filter fin_num [Some a, Some b])"

definition in_zone :: "review_input \<Rightarrow> jsnum option \<Rightarrow> jsnum option \<Rightarrow> bool option" where
  "in_zone inp mark entry = (case mark of None \<Rightarrow> None
   | Some m \<Rightarrow> if ri_in_position inp then None
       else (case zone_nums (ri_entry_zone inp) of [a, b] \<Rightarrow> Some (js_min a b \<le> m \<and> m \<le> js_max a b)
         | _ \<Rightarrow> (case entry of None \<Rightarrow> None | Some e \<Rightarrow> Some (\<bar>m - e\<bar> / e \<le> lit (1/1000)))))"

definition reviewMetrics :: "review_input \<Rightarrow> review_metrics" where
  "reviewMetrics inp = (let side = ri_side inp; mark = fin_num (ri_mark inp); entry = fin_num (ri_entry inp);
     stop = fin_num (ri_stop inp); tps = List.map_filter (fin_num \<circ> Some) (ri_take_profits inp);
     base = (case ri_features inp of [] \<Rightarrow> None | b # _ \<Rightarrow> Some b);
     risk = both (\<lambda>e s. \<bar>e - s\<bar>) entry stop; sign = side_sign side;
     unrealized = both (\<lambda>m e. sign * (m - e)) mark entry;
     distStop = both (\<lambda>m s. sign * (m - s)) mark stop;
     tp1 = (case tps of [] \<Rightarrow> None | t # _ \<Rightarrow> Some t);
     since = (if ri_in_position inp then default (ri_opened_at inp) (ri_created_at inp) else ri_created_at inp);
     heldMs = of_count (max 0 (ri_now inp - since));
     lastClose = map_option ft_last_close base;
     invPrice = parseInvalidationPrice (ri_invalidation_text inp) (or_else entry mark);
     inv = invalidation_of inp invPrice base;
     agree = trendAgreement (ri_features inp);
     againstEma = (case base of None \<Rightarrow> False | Some b \<Rightarrow> past side (ft_last_close b) (ft_ema20 b));
     now15 = tfDirection (byTf (ri_features inp) ''15m''); nowH1 = tfDirection (byTf (ri_features inp) ''1h'')
   in \<lparr>rm_risk_per_unit = risk, rm_unrealized_r = over unrealized risk,
     rm_unrealized_pct = map_option (\<lambda>x. x * Fin 100) (over unrealized entry), rm_dist_to_stop_r = over distStop risk,
     rm_dist_to_stop_pct = map_option (\<lambda>x. x * Fin 100) (over (map_option abs distStop) mark),
     rm_tp1_r = over (both (\<lambda>t m. sign * (t - m)) tp1 mark) risk,
     rm_tp1_from_entry_r = over (both (\<lambda>t e. sign * (t - e)) tp1 entry) risk,
     rm_bars_held = (if Fin 0 < ri_tf_ms inp then Some (js_floor (heldMs / ri_tf_ms inp)) else None),
     rm_minutes_held = js_round (heldMs / Fin 60000), rm_closed_beyond_stop = both (past side) lastClose stop,
     rm_invalidation_price = invPrice, rm_closed_beyond_invalidation = both (past side) lastClose invPrice,
     rm_bars_beyond_invalidation = iv_bars inv, rm_invalidation_depth_atr = iv_depth inv,
     rm_invalidation_confirmed = iv_confirmed inv, rm_in_entry_zone = in_zone inp mark entry,
     rm_structure_against = (agree \<noteq> None \<and> agree \<noteq> Some side \<or> againstEma), rm_trend_now_15m = now15, rm_trend_now_h1 = nowH1,
     rm_thesis_trend_flipped = list_ex (\<lambda>x. x \<noteq> None \<and> x \<noteq> Some side) [now15, nowH1]\<rparr>)"

section \<open>Facts\<close>

subsection \<open>The checklist and the screener\<close>

text \<open>A row of bar metrics that describes the same bar as the features: the same numbers, and a breakout zero bars ago
  exactly when the bar closed beyond the previous extreme.\<close>

definition same_bar :: "tf_features list \<Rightarrow> bar_metrics \<Rightarrow> bool" where
  "same_bar features m = (case features of [] \<Rightarrow> False
   | b # _ \<Rightarrow> bm_close m = ft_last_close b \<and> bm_atr m = ft_atr14 b \<and> bm_vol_ratio m = ft_vol_ratio_20 b \<and>
       bm_hi20 m = ft_swing_high_20 b \<and> bm_lo20 m = ft_swing_low_20 b \<and>
       ft_swing_high_20_prev b = Some (bm_hi20_prev m) \<and> ft_swing_low_20_prev b = Some (bm_lo20_prev m) \<and>
       bm_dir_h1 m = tfDirection (byTf features ''1h'') \<and> bm_dir_h4 m = tfDirection (byTf features ''4h'') \<and>
       (bm_bars_since_up m = 0) = (bm_hi20_prev m < bm_close m) \<and> (bm_bars_since_down m = 0) = (bm_close m < bm_lo20_prev m))"

definition bar_rules :: "scan_thresholds \<Rightarrow> level_mode \<Rightarrow> bar_thresholds" where
  "bar_rules th level = CURRENT_THRESHOLDS\<lparr>bt_chase_atr_max := default (tr_chase_atr_max th) CHASE_ATR_MAX,
     bt_retest_vol_min := default (tr_retest_vol_min th) RETEST_VOL_MIN, bt_breakout_level := level\<rparr>"

lemma bar_rules_simps [simp]:
  "bt_chase_atr_max (bar_rules th l) = default (tr_chase_atr_max th) CHASE_ATR_MAX"
  "bt_retest_vol_min (bar_rules th l) = default (tr_retest_vol_min th) RETEST_VOL_MIN" "bt_breakout_level (bar_rules th l) = l"
  "bt_trend_mode (bar_rules th l) = Trend_both" "bt_vol_mode (bar_rules th l) = Vol_current" "bt_breakout_window (bar_rules th l) = 1"
  by (simp_all add: bar_rules_def CURRENT_THRESHOLDS_def)

lemma same_bar_trend: "same_bar features m \<Longrightarrow> trend_dir m (bar_rules th l) = trendAgreement features"
  by (auto simp: same_bar_def trend_dir_def trendAgreement_def Let_def split: list.splits)

lemma default_simps [simp]: "default None d = d" "default (Some x) d = x"
  by (simp_all add: default_def)

lemma no_window: "Fin 1 < js_max (Fin 1) (js_floor (default None BREAKOUT_WINDOW)) \<longleftrightarrow> False"
  by (simp add: BREAKOUT_WINDOW_def js_max_def)

lemma never [simp]: "(case ks of None \<Rightarrow> False | Some k \<Rightarrow> False \<and> P k) \<longleftrightarrow> False" by (cases ks) simp_all

lemma since_zero: "0 \<le> n \<and> n < 1 \<longleftrightarrow> n = (0 :: int)" by auto


definition rising :: "string \<Rightarrow> tf_features" where
  "rising tf = \<lparr>ft_tf = tf, ft_last_close = Fin 110, ft_last_open_time = 0, ft_ema20 = Fin 105, ft_ema50 = Fin 100,
     ft_atr14 = Fin 2, ft_swing_high_20 = Fin 111, ft_swing_low_20 = Fin 90, ft_swing_high_20_prev = Some (Fin 109),
     ft_swing_low_20_prev = Some (Fin 90), ft_swing_high_50 = Fin 111, ft_swing_low_50 = Fin 80, ft_dist_to_high20_pct = Fin 1,
     ft_dist_to_low20_pct = Fin 20, ft_vol_ratio_20 = Fin 3, ft_change_pct_last = Fin 2, ft_change_pct_5 = Fin 3,
     ft_last_bars = [], ft_indicators = None\<rparr>"

definition rising_bar :: bar_metrics where
  "rising_bar = \<lparr>bm_t = 0, bm_close = Fin 110, bm_atr = Fin 2, bm_atr_pct = Fin 2, bm_atr_floor = Fin 0, bm_hi20 = Fin 111,
     bm_lo20 = Fin 90, bm_hi20_prev = Fin 109, bm_lo20_prev = Fin 90, bm_vol_ratio = Fin 3, bm_ema20 = Fin 105, bm_dir_h1 = Some Long,
     bm_dir_h4 = Some Long, bm_h4_dist_atr = None, bm_regime = None, bm_funding_abs_pct = None, bm_broke_up = True,
     bm_broke_down = False, bm_bars_since_up = 0, bm_bars_since_down = -1, bm_break_vol_up = None, bm_break_vol_down = None\<rparr>"


subsection \<open>Invalidation prices\<close>

lemma sublist_number: "sublist (fst (number_match s)) s" "suffix (snd (number_match s)) s"
  using number_match_append [of s] by (metis prefixI prefix_imp_sublist, metis suffixI)

lemma price_tokens_parts: "tok \<in> set (price_tokens b s) \<Longrightarrow> sublist tok s \<and> tok \<noteq> [] \<and> is_digit (hd tok)"
proof (induction b s rule: price_tokens.induct)
  case (2 b c cs)
  show ?case
  proof (cases "\<not> b \<and> is_digit c")
    case True
    have hd: "fst (number_match (c # cs)) \<noteq> [] \<and> is_digit (hd (fst (number_match (c # cs))))"
      using True by (simp add: number_match_def case_prod_beta)
    show ?thesis using 2 True hd sublist_number [of "c # cs"]
      by (auto intro: sublist_order.order_trans suffix_imp_sublist)
  next
    case False
    then show ?thesis using 2 by (auto simp: sublist_Cons_right)
  qed
qed simp

text \<open>C39 The invalidation price is never invented: it is the value of a number written in the text, positive and within a fifth
  of the reference price.\<close>

theorem invalidation_price_from_text:
  assumes "parseInvalidationPrice text ref = Some v"
  shows "\<exists>t r tok. text = Some t \<and> ref = Some r \<and> sublist tok t \<and> is_digit (hd tok) \<and> v = token_value tok \<and>
    is_fin v \<and> Fin 0 < v \<and> \<bar>v - r\<bar> / r \<le> lit (1/5)"
proof -
  obtain t r where tr: "text = Some t" "ref = Some r" and f: "List.find (near_price r) (List.map token_value (price_tokens False t)) = Some v"
    using assms by (auto simp: parseInvalidationPrice_def split: option.splits if_splits)
  then have v: "v \<in> token_value ` set (price_tokens False t)" "near_price r v"
    by (metis (no_types, lifting) find_Some_iff nth_mem set_map)+
  then obtain tok where "tok \<in> set (price_tokens False t)" "v = token_value tok" by auto
  then show ?thesis using price_tokens_parts v(2) tr unfolding near_price_def by blast
qed

theorem invalidation_price_from_text_witness:
  "parseInvalidationPrice (Some ''4h close above 63,820.86'') (Some (Fin 63000)) = Some (token_value ''63,820.86'') \<and>
   parseInvalidationPrice (Some ''15m close below 13.2'') (Some (Fin 14)) = Some (Fin 15)"
proof -
  have a: "parseInvalidationPrice (Some ''4h close above 63,820.86'') (Some (Fin 63000)) = Some (token_value ''63,820.86'')" by code_simp
  have b: "parseInvalidationPrice (Some ''15m close below 13.2'') (Some (Fin 14)) = Some (Fin 15)" by code_simp
  show ?thesis using a b invalidation_price_from_text [OF a] by blast
qed

subsection \<open>Both sides\<close>

lemma signed_sides: "side_sign Short * (a - b) = - (side_sign Long * (a - b))"
  by (simp add: side_sign_def)

lemma js_minus_divide: "(- x) / y = - (x / y)" for x y :: jsnum
  by (cases x; cases y) (auto simp: rnd_minus)

lemma over_minus: "over (map_option uminus a) b = map_option uminus (over a b)"
  by (simp add: over_def js_minus_divide split: option.split)

lemma both_sides: "both (\<lambda>a b. side_sign Short * (a - b)) x y = map_option uminus (both (\<lambda>a b. side_sign Long * (a - b)) x y)"
  by (simp add: both_def signed_sides split: option.split)

lemma js_minus_times: "(- x) * y = - (x * y)" for x y :: jsnum
  by (cases x; cases y) (auto simp: rnd_minus)

lemma percent_minus: "map_option (\<lambda>x. x * Fin 100) (map_option uminus v) = map_option uminus (map_option (\<lambda>x. x * Fin 100) v)"
  by (cases v) (simp_all add: js_minus_times)

lemma abs_both: "map_option abs (map_option uminus v) = map_option abs (v :: jsnum option)"
proof -
  have "\<bar>- x\<bar> = \<bar>x\<bar>" for x :: jsnum by (cases x) simp_all
  then show ?thesis by (cases v) simp_all
qed

text \<open>The same prices seen from the other side: every signed measure of a short is the negative of the long's, and the risk
  and the distance to the stop in percent are the same.\<close>

theorem review_mirrors:
  "let l = reviewMetrics (inp\<lparr>ri_side := Long\<rparr>); s = reviewMetrics (inp\<lparr>ri_side := Short\<rparr>) in
    rm_unrealized_r s = map_option uminus (rm_unrealized_r l) \<and> rm_unrealized_pct s = map_option uminus (rm_unrealized_pct l) \<and>
    rm_dist_to_stop_r s = map_option uminus (rm_dist_to_stop_r l) \<and> rm_dist_to_stop_pct s = rm_dist_to_stop_pct l \<and>
    rm_tp1_r s = map_option uminus (rm_tp1_r l) \<and> rm_tp1_from_entry_r s = map_option uminus (rm_tp1_from_entry_r l) \<and>
    rm_risk_per_unit s = rm_risk_per_unit l"
  by (simp add: reviewMetrics_def Let_def both_sides over_minus percent_minus abs_both)

lemma last_takeWhile: "list_all P (last_n (length (takeWhile P (rev xs))) xs)"
proof -
  have "rev (last_n k xs) = take k (rev xs)" for k by (simp add: last_n_def take_rev)
  then have "last_n (length (takeWhile P (rev xs))) xs = rev (takeWhile P (rev xs))"
    by (metis rev_rev_ident takeWhile_eq_take)
  then show ?thesis by (auto simp: list_all_iff dest: set_takeWhileD)
qed

text \<open>A confirmed invalidation means that the latest closes, as many as the confirmation asks for and at least one, all lie
  past the price.\<close>

theorem confirmed_closes_past:
  assumes "rm_invalidation_confirmed (reviewMetrics inp) = Some True"
  shows "\<exists>p b n. rm_invalidation_price (reviewMetrics inp) = Some p \<and> b \<in> set (ri_features inp) \<and>
    rm_bars_beyond_invalidation (reviewMetrics inp) = Some n \<and> 1 \<le> n \<and>
    js_round (default (ri_confirm_bars inp) (Fin 2)) \<le> num n \<and>
    list_all (\<lambda>c. past (ri_side inp) c p) (last_n n (judged_closes (ri_klines inp) (ft_last_close b)))"
proof -
  let ?p = "rm_invalidation_price (reviewMetrics inp)"
  obtain p b bs where pb: "?p = Some p" "ri_features inp = b # bs"
    and i: "iv_confirmed (invalidation_of inp (Some p) (Some b)) = Some True"
      "rm_bars_beyond_invalidation (reviewMetrics inp) = iv_bars (invalidation_of inp (Some p) (Some b))"
    using assms unfolding reviewMetrics_def Let_def
    by (auto simp: invalidation_of_def split: option.splits list.splits)
  define n where "n = bars_past (ri_side inp) p (judged_closes (ri_klines inp) (ft_last_close b))"
  have n: "js_max (Fin 1) (js_round (default (ri_confirm_bars inp) (Fin 2))) \<le> num n" "iv_bars (invalidation_of inp (Some p) (Some b)) = Some n"
    using i(1) unfolding invalidation_of_def Let_def n_def by simp_all
  then have one: "Fin 1 \<le> num n" "js_round (default (ri_confirm_bars inp) (Fin 2)) \<le> num n"
    using js_max_ge js_le_not_NaN js_le_trans by metis+
  then have "1 \<le> n" by (cases n) auto
  moreover have "list_all (\<lambda>c. past (ri_side inp) c p) (last_n n (judged_closes (ri_klines inp) (ft_last_close b)))"
    unfolding n_def bars_past_def by (rule last_takeWhile)
  ultimately show ?thesis using pb i(2) n(2) one(2) by auto
qed

end
