(* ===== verification/ErrorText.thy ===== *)
theory ErrorText imports JsText begin

text \<open>
  The patterns the runtime matches exchange errors with (\<open>execution-agent.ts\<close> and \<open>runtime.ts\<close>), as matchers on
  strings. All of them ignore case; \<open>within_line\<close> is the dot-star of a pattern, which does not cross a line end.
\<close>

fun anywhere :: "(string \<Rightarrow> bool) \<Rightarrow> string \<Rightarrow> bool" where
  "anywhere p [] = p []"
| "anywhere p (c # cs) = (p (c # cs) \<or> anywhere p cs)"

definition starts :: "string \<Rightarrow> string \<Rightarrow> bool" where "starts p s = (take (length p) s = p)"

definition has :: "string \<Rightarrow> string \<Rightarrow> bool" where "has p = anywhere (starts p)"

definition line_end :: "char \<Rightarrow> bool" where "line_end c = (code c = 10 \<or> code c = 13)"

definition within_line :: "(string \<Rightarrow> bool) \<Rightarrow> string \<Rightarrow> bool" where
  "within_line p s = (let line = takeWhile (\<lambda>c. \<not> line_end c) s in
     list_ex (\<lambda>i. p (drop i s)) [0..<Suc (length line)])"

text \<open>\<open>a.*b\<close>.\<close>

definition has_then :: "string \<Rightarrow> string \<Rightarrow> string \<Rightarrow> bool" where
  "has_then a b = anywhere (\<lambda>s. starts a s \<and> within_line (starts b) (drop (length a) s))"

text \<open>\<open>\b\<close> after a digit: the next character is no letter, digit or underscore.\<close>

definition word_char :: "char \<Rightarrow> bool" where
  "word_char c = (is_digit c \<or> 65 \<le> code c \<and> code c \<le> 90 \<or> 97 \<le> code c \<and> code c \<le> 122 \<or> c = CHR ''_'')"

definition word_ends :: "string \<Rightarrow> bool" where
  "word_ends s = (case s of [] \<Rightarrow> True | c # _ \<Rightarrow> \<not> word_char c)"

definition has_code :: "string \<Rightarrow> string \<Rightarrow> bool" where
  "has_code p = anywhere (\<lambda>s. starts p s \<and> word_ends (drop (length p) s))"

text \<open>\<open>-\d{4}\b\<close>.\<close>

definition has_exchange_code :: "string \<Rightarrow> bool" where
  "has_exchange_code = anywhere (\<lambda>s. case s of d # a # b # c # e # r \<Rightarrow>
     d = CHR ''-'' \<and> is_digit a \<and> is_digit b \<and> is_digit c \<and> is_digit e \<and> word_ends r | _ \<Rightarrow> False)"

text \<open>\<open>timed?\s*out\<close>: the white space of the pattern is that of the trimming function.\<close>

definition has_time_out :: "string \<Rightarrow> bool" where
  "has_time_out = anywhere (\<lambda>s. starts ''time'' s \<and>
     (let r = drop 4 s; r' = (if starts ''d'' r then tl r else r) in starts ''out'' (dropWhile is_space r')))"

definition text_of :: "string option \<Rightarrow> string" where "text_of e = (case e of None \<Rightarrow> [] | Some s \<Rightarrow> lower s)"

definition isTransportError :: "string option \<Rightarrow> bool" where
  "isTransportError e = (let s = text_of e in
     anywhere (\<lambda>x. starts ''socket'' x \<and> within_line (starts ''clos'') (drop 6 x)) s \<or> has ''before a response'' s \<or>
     has ''result not confirmed'' s \<or> has_time_out s \<or> has ''econnreset'' s \<or> has ''epipe'' s \<or> has ''fetch failed'' s \<or>
     has ''network'' s)"

text \<open>The three patterns of \<open>placeProtection\<close>: the client id was already used; a stop of this side is already there;
  the exchange refused the stop for a reason other than a missing position.\<close>

definition duplicate_id :: "string option \<Rightarrow> bool" where
  "duplicate_id e = (let s = text_of e in has_then ''duplicate'' ''id'' s \<or> has_then ''duplicate'' ''order'' s \<or>
     anywhere (\<lambda>x. starts ''client'' x \<and> within_line (\<lambda>y. starts ''id'' y \<and> within_line (starts '' already exists'') (drop 2 y)) (drop 6 x)) s \<or>
     has_code ''-4111'' s)"

definition stop_exists :: "string option \<Rightarrow> bool" where "stop_exists e = has_code ''-4130'' (text_of e)"

definition stop_refused :: "string option \<Rightarrow> bool" where
  "stop_refused e = (let s = text_of e in (has_exchange_code s \<or> has ''rejected'' s \<or> has ''invalid'' s) \<and>
     \<not> (has ''-4509'' s \<or> has ''-2022'' s \<or> has ''no open position'' s \<or> has ''reduceonly'' s))"

lemma error_examples:
  "isTransportError (Some ''socket was closed'')" "isTransportError (Some ''Request timed out'')" "isTransportError (Some ''TIMEOUT'')"
  "\<not> isTransportError (Some ''-2019 margin'')" "\<not> isTransportError None" "duplicate_id (Some ''Duplicate client order'')"
  "stop_exists (Some ''code -4130: exists'')" "\<not> stop_exists (Some ''-41301'')" "stop_refused (Some ''-1102 bad'')"
  "\<not> stop_refused (Some ''-2022 ReduceOnly'')"
  by code_simp+

end
