(* ===== verification/RuntimeState.thy ===== *)
theory RuntimeState imports Gates Paper ErrorText Confirm JsonText begin

text \<open>
  What the runtime (\<open>runtime.ts\<close>) keeps and what it calls. The state holds the thread and intent tables of the store
  (\<open>store.ts\<close>), the key-value table, the last account and market views and the two flags; the trace of the calls made
  to the execution backend is kept beside them. The backend, the public market data, the clock and fresh identifiers are
  an environment: what the n-th request is answered is any function of n and of its arguments, so a proof for every
  environment covers every behaviour of the exchange. An answer of None is a call that throws.

  A handler runs here without another handler between its awaits; logging, activities, narration, emitted events and
  the receipts kept for audit are left out.
\<close>

section \<open>Intents\<close>

datatype intent_status = IS_pending_approval | IS_approved | IS_rejected | IS_submitted | IS_filled | IS_failed | IS_unknown

datatype intent_kind = IK_open | IK_close | IK_reduce

datatype principal = By_agent | By_user

record intent =
  in_id :: string
  in_episode_id :: string
  in_thread_id :: "string option"
  in_principal :: principal
  in_at :: int
  in_kind :: intent_kind
  in_symbol :: string
  in_direction :: direction
  in_quantity :: string
  in_entry :: entry_kind
  in_limit_price :: "string option"
  in_stop_price :: "string option"
  in_take_profit_price :: "string option"
  in_sizing :: sizing
  in_status :: intent_status
  in_client_order_id :: "string option"
  in_backend :: backend
  in_error :: "close_reason option"

section \<open>Backend interface\<close>

datatype leg_outcome = Leg order_outcome | Skipped

record leg_receipt =
  lr_outcome :: leg_outcome
  lr_algo_id :: "string option"
  lr_error :: "string option"

record open_request =
  oq_entry :: entry_request
  oq_stop_price :: string
  oq_stop_id :: string
  oq_take_profit :: "(string \<times> string) option"

record open_receipt =
  oc_entry :: order_receipt
  oc_stop :: leg_receipt
  oc_tp :: leg_receipt

text \<open>The requests the runtime makes, with the thread they are made for where there is one.\<close>

datatype call = C_account | C_rules string | C_market string | C_ticker string
  | C_place_entry string entry_request | C_open_protected string open_request
  | C_place_stop string string direction string string | C_take_profit string string direction string string
  | C_algo_exists string string | C_get_order string string | C_close string string | C_reduce string string string
  | C_cancel_all string | C_cancel_order string string | C_set_leverage string jsnum | C_set_margin string margin_mode
  | C_list_algo string | C_cancel_algo string string | C_review string trigger_kind

record exec_env =
  xe_now :: "nat \<Rightarrow> int"
  xe_sha1 :: "string \<Rightarrow> string"
  xe_sha256 :: "string \<Rightarrow> string"
  xe_fresh_id :: "nat \<Rightarrow> string"
  xe_gates :: gate_config
  xe_account :: "nat \<Rightarrow> account_view option"
  xe_rules :: "nat \<Rightarrow> string \<Rightarrow> symbol_rules option"
  xe_market :: "nat \<Rightarrow> string \<Rightarrow> market_view option"
  xe_ticker :: "nat \<Rightarrow> string \<Rightarrow> unit option"
  xe_place_entry :: "nat \<Rightarrow> entry_request \<Rightarrow> order_receipt option"
  xe_open_protected :: "(nat \<Rightarrow> open_request \<Rightarrow> open_receipt option) option"
  xe_place_stop :: "nat \<Rightarrow> string \<Rightarrow> order_receipt option"
  xe_take_profit :: "nat \<Rightarrow> string \<Rightarrow> order_receipt option"
  xe_algo_exists :: "(nat \<Rightarrow> string \<Rightarrow> bool option option) option"
  xe_get_order :: "nat \<Rightarrow> string \<Rightarrow> order_status_view option option"
  xe_close :: "nat \<Rightarrow> string \<Rightarrow> string \<Rightarrow> (bool \<times> string option \<times> (string option \<times> string option)) option"
  xe_reduce :: "nat \<Rightarrow> string \<Rightarrow> string \<Rightarrow> order_receipt option"
  xe_ack :: "nat \<Rightarrow> call \<Rightarrow> (bool \<times> string option) option"
  xe_list_algo :: "(nat \<Rightarrow> string \<Rightarrow> string list option option) option"
  xe_has_capability :: bool

section \<open>State\<close>

record rt =
  rt_threads :: "(string \<times> thread) list"
  rt_intents :: "(string \<times> intent) list"
  rt_kv :: "(string \<times> string) list"
  rt_account :: "account_view option"
  rt_markets :: "(string \<times> market_view) list"
  rt_symbols :: "symbol_info list option"
  rt_workflow :: workflow
  rt_halted :: bool
  rt_backend :: backend
  rt_retry_at :: "(string \<times> int) list"
  rt_events :: "paper_event list"
  rt_tokens :: tokens
  rt_proposals :: "(string \<times> workflow_proposal) list"
  rt_calls :: "call list"
  rt_tick :: nat

datatype rt_error = Thrown | Conflict | Not_found | Bad_request | Confirm_refused | Bad_gateway

subsection \<open>The tables\<close>

text \<open>The table keeps insertion order; rows with equal times, whose order the query leaves open, come in that order.\<close>

definition newest_first :: "('a \<Rightarrow> int) \<Rightarrow> nat \<Rightarrow> 'a list \<Rightarrow> 'a list" where
  "newest_first time limit xs = take limit (sort_key (\<lambda>x. - time x) xs)"

definition backend_text :: "backend \<Rightarrow> string" where
  "backend_text b = (case b of PaperB \<Rightarrow> ''paper'' | DemoB \<Rightarrow> ''demo'' | CliB \<Rightarrow> ''cli'' | AgentMcpB \<Rightarrow> ''agent_mcp'')"

definition backend_of :: "thread \<Rightarrow> backend" where "backend_of t = (case t_backend t of None \<Rightarrow> PaperB | Some b \<Rightarrow> b)"

definition store_threads :: "thread_status list \<Rightarrow> nat \<Rightarrow> backend option \<Rightarrow> rt \<Rightarrow> thread list" where
  "store_threads statuses limit b s = newest_first t_updated_at limit (filter (\<lambda>t.
     (statuses = [] \<or> t_status t \<in> set statuses) \<and> (case b of None \<Rightarrow> True | Some k \<Rightarrow> backend_of t = k)) (List.map snd (rt_threads s)))"

definition openThreads :: "rt \<Rightarrow> thread list" where
  "openThreads s = store_threads [Pending_entry, In_position] 200 (Some (rt_backend s)) s"

definition store_intents :: "nat \<Rightarrow> rt \<Rightarrow> intent list" where
  "store_intents limit s = newest_first in_at limit (List.map snd (rt_intents s))"

definition intentsForThread :: "string \<Rightarrow> rt \<Rightarrow> intent list" where
  "intentsForThread tid s = filter (\<lambda>i. in_thread_id i = Some tid) (store_intents 500 s)"

definition threadOpensSince :: "int \<Rightarrow> string option \<Rightarrow> rt \<Rightarrow> int" where
  "threadOpensSince since exclude s = int (length (filter (\<lambda>t. since \<le> t_created_at t \<and>
     t_id t \<noteq> (case exclude of None \<Rightarrow> [] | Some x \<Rightarrow> x) \<and> t_status t \<noteq> Canceled \<and> t_source t \<noteq> SrcManual \<and>
     t_entry_client_order_id t \<noteq> None) (List.map snd (rt_threads s))))"

definition thread_at :: "rt \<Rightarrow> string \<Rightarrow> thread option" where "thread_at s tid = map_of (rt_threads s) tid"

subsection \<open>Effects\<close>

type_synonym 'a act = "rt \<Rightarrow> (rt_error + 'a) \<times> rt"

definition ret :: "'a \<Rightarrow> 'a act" where "ret x = (\<lambda>s. (Inr x, s))"

definition throw :: "rt_error \<Rightarrow> 'a act" where "throw e = (\<lambda>s. (Inl e, s))"

definition and_then :: "'a act \<Rightarrow> ('a \<Rightarrow> 'b act) \<Rightarrow> 'b act" where
  "and_then m f = (\<lambda>s. case m s of (Inl e, s') \<Rightarrow> (Inl e, s') | (Inr x, s') \<Rightarrow> f x s')"

definition reading :: "(rt \<Rightarrow> 'a) \<Rightarrow> 'a act" where "reading f = (\<lambda>s. (Inr (f s), s))"

definition change :: "(rt \<Rightarrow> rt) \<Rightarrow> unit act" where "change f = (\<lambda>s. (Inr (), f s))"

definition require :: "bool \<Rightarrow> rt_error \<Rightarrow> unit act" where "require b e = (if b then ret () else throw e)"

text \<open>\<open>try m catch\<close>: None when it threw.\<close>

definition attempt :: "'a act \<Rightarrow> 'a option act" where
  "attempt m = (\<lambda>s. case m s of (Inl e, s') \<Rightarrow> (Inr None, s') | (Inr x, s') \<Rightarrow> (Inr (Some x), s'))"

definition request :: "call \<Rightarrow> (nat \<Rightarrow> 'a option) \<Rightarrow> 'a act" where
  "request c answer = (\<lambda>s. let s' = s\<lparr>rt_calls := rt_calls s @ [c], rt_tick := rt_tick s + 1\<rparr> in
     case answer (rt_tick s) of None \<Rightarrow> (Inl Thrown, s') | Some a \<Rightarrow> (Inr a, s'))"

definition clock :: "exec_env \<Rightarrow> int act" where
  "clock env = (\<lambda>s. (Inr (xe_now env (rt_tick s)), s\<lparr>rt_tick := rt_tick s + 1\<rparr>))"

definition fresh_id :: "exec_env \<Rightarrow> string act" where
  "fresh_id env = (\<lambda>s. (Inr (xe_fresh_id env (rt_tick s)), s\<lparr>rt_tick := rt_tick s + 1\<rparr>))"

definition only_if :: "bool \<Rightarrow> unit act \<Rightarrow> unit act" where "only_if b m = (if b then m else ret ())"

fun each :: "('a \<Rightarrow> unit act) \<Rightarrow> 'a list \<Rightarrow> unit act" where
  "each f [] = ret ()"
| "each f (x # xs) = and_then (f x) (\<lambda>_. each f xs)"

definition saveThread :: "thread \<Rightarrow> unit act" where
  "saveThread t = change (\<lambda>s. s\<lparr>rt_threads := map_set (rt_threads s) (t_id t) t\<rparr>)"

text \<open>\<open>this.store.thread(t.id) ?? t\<close>.\<close>

definition reread :: "thread \<Rightarrow> thread act" where "reread t = reading (\<lambda>s. case thread_at s (t_id t) of None \<Rightarrow> t | Some u \<Rightarrow> u)"

definition update_intent :: "string \<Rightarrow> (intent \<Rightarrow> intent) \<Rightarrow> unit act" where
  "update_intent iid f = change (\<lambda>s. case map_of (rt_intents s) iid of None \<Rightarrow> s
     | Some i \<Rightarrow> s\<lparr>rt_intents := map_set (rt_intents s) iid (f i)\<rparr>)"

definition kv_set :: "string \<Rightarrow> string \<Rightarrow> unit act" where
  "kv_set k v = change (\<lambda>s. s\<lparr>rt_kv := map_set (rt_kv s) k v\<rparr>)"

definition filled_text :: "string option \<Rightarrow> bool" where "filled_text v = (case v of None \<Rightarrow> False | Some x \<Rightarrow> x \<noteq> [])"

end
