(* ===== verification/Execution.thy ===== *)
theory Execution imports RuntimeState begin

text \<open>
  How the runtime opens, protects, closes and reduces (\<open>runtime.ts\<close>, sections on opening and closing). Each handler is
  one definition with the requests in the order of the code; what it saves to the store between them is saved there.
\<close>

section \<open>Limits of the day\<close>

definition utcDayStart :: "int \<Rightarrow> int" where "utcDayStart now = now div 86400000 * 86400000"

definition dayStartKey :: "rt \<Rightarrow> string" where "dayStartKey s = ''demo.day_start_equity:'' @ backend_text (rt_backend s)"

definition dailyLossPct :: "rt \<Rightarrow> jsnum" where
  "dailyLossPct s = (case rt_account s of None \<Rightarrow> Fin 0
     | Some a \<Rightarrow> if av_backend a \<noteq> rt_backend s then Fin 0
         else let start = js_number (case map_of (rt_kv s) (dayStartKey s) of None \<Rightarrow> av_equity a | Some v \<Rightarrow> v) in
           if \<not> Fin 0 < start then Fin 0 else (start - js_number (av_equity a)) / start * Fin 100)"

definition dailyLossHit :: "rt \<Rightarrow> bool" where
  "dailyLossHit s = (js_number (w_daily_loss_stop_pct (rt_workflow s)) \<le> dailyLossPct s)"

datatype preflight = PF_halted | PF_paused | PF_has_position string | PF_opening opening_blocker | PF_not_trading string string

definition preflightOpen :: "int \<Rightarrow> string \<Rightarrow> account_view \<Rightarrow> string option \<Rightarrow> rt \<Rightarrow> preflight list" where
  "preflightOpen now symbol acct exclude s = (
     (if rt_halted s then [PF_halted] else [])
   @ (if w_paused (rt_workflow s) then [PF_paused] else [])
   @ (if list_ex (\<lambda>p. pv_symbol p = symbol) (av_positions acct) then [PF_has_position symbol] else [])
   @ List.map PF_opening (openingBlockers (filter (\<lambda>t. Some (t_id t) \<noteq> exclude) (openThreads s)) (rt_workflow s) symbol
        (threadOpensSince (utcDayStart now) exclude s) (dailyLossHit s))
   @ (case Option.bind (rt_symbols s) (List.find (\<lambda>x. si_symbol x = symbol)) of None \<Rightarrow> []
      | Some i \<Rightarrow> if si_status i \<noteq> ''TRADING'' then [PF_not_trading symbol (si_status i)] else []))"

section \<open>Intents\<close>

record intent_part =
  ip_kind :: intent_kind
  ip_direction :: direction
  ip_quantity :: string
  ip_entry :: entry_kind
  ip_limit_price :: "string option"
  ip_stop_price :: "string option"
  ip_take_profit_price :: "string option"
  ip_sizing :: sizing

definition newIntent :: "exec_env \<Rightarrow> string option \<Rightarrow> thread \<Rightarrow> principal \<Rightarrow> intent_part \<Rightarrow> intent act" where
  "newIntent env ep t who part =
     and_then (fresh_id env) (\<lambda>iid. and_then (clock env) (\<lambda>now. and_then (reading rt_backend) (\<lambda>b.
     let i = \<lparr>in_id = iid, in_episode_id = (case ep of None \<Rightarrow> [] | Some e \<Rightarrow> e), in_thread_id = Some (t_id t), in_principal = who,
       in_at = now, in_kind = ip_kind part, in_symbol = t_symbol t, in_direction = ip_direction part,
       in_quantity = ip_quantity part, in_entry = ip_entry part, in_limit_price = ip_limit_price part,
       in_stop_price = ip_stop_price part, in_take_profit_price = ip_take_profit_price part, in_sizing = ip_sizing part,
       in_status = IS_pending_approval, in_client_order_id = None, in_backend = b, in_error = None\<rparr> in
     and_then (change (\<lambda>s. s\<lparr>rt_intents := map_set (rt_intents s) iid i\<rparr>)) (\<lambda>_.
     and_then (change (\<lambda>s. case thread_at s (t_id t) of None \<Rightarrow> s
        | Some u \<Rightarrow> s\<lparr>rt_threads := map_set (rt_threads s) (t_id u) (u\<lparr>t_intent_ids := t_intent_ids u @ [iid]\<rparr>)\<rparr>)) (\<lambda>_.
     ret i)))))"

text \<open>The thread's orders are settled: what the query found out about an intent parked as unknown.\<close>

definition unknown_status :: "order_status_view option \<Rightarrow> intent_status" where
  "unknown_status ord = (case ord of None \<Rightarrow> IS_unknown
     | Some v \<Rightarrow> if os_status v = ''FILLED'' then IS_filled
         else if os_status v \<in> {''CANCELED'', ''EXPIRED'', ''REJECTED''} then IS_failed else IS_submitted)"

definition resolveUnknownIntents :: "thread \<Rightarrow> order_status_view option \<Rightarrow> unit act" where
  "resolveUnknownIntents t ord = and_then (reading (intentsForThread (t_id t))) (each (\<lambda>i.
     only_if (in_status i = IS_unknown \<and> unknown_status ord \<noteq> IS_unknown)
       (update_intent (in_id i) (\<lambda>x. x\<lparr>in_status := unknown_status ord, in_error := None\<rparr>))))"

definition resolved :: "thread \<Rightarrow> intent_status \<Rightarrow> intent \<Rightarrow> intent" where
  "resolved t fallback i = (if in_status i \<in> {IS_pending_approval, IS_unknown, IS_approved}
       then (if in_status i = IS_pending_approval then i\<lparr>in_status := IS_rejected, in_error := Some CR_thread_ended\<rparr>
             else i\<lparr>in_status := fallback\<rparr>)
     else if in_status i = IS_submitted \<and> in_kind i = IK_open
       then i\<lparr>in_status := (if filled_text (t_filled_avg_price t) then IS_filled else fallback)\<rparr>
     else i)"

definition resolveOpenIntents :: "thread \<Rightarrow> intent_status \<Rightarrow> unit act" where
  "resolveOpenIntents t fallback = and_then (reading (intentsForThread (t_id t)))
     (each (\<lambda>i. update_intent (in_id i) (resolved t fallback)))"

section \<open>Protection\<close>

record placed_leg =
  pl_id :: string
  pl_receipt :: order_receipt

record placed_legs =
  pg_stop :: placed_leg
  pg_tp :: "placed_leg option"

definition end_status :: "string \<Rightarrow> bool" where "end_status st = (st \<in> {''CANCELED'', ''EXPIRED'', ''REJECTED''})"

definition place_stop :: "exec_env \<Rightarrow> thread \<Rightarrow> string \<Rightarrow> string \<Rightarrow> order_receipt act" where
  "place_stop env t price cid = request (C_place_stop (t_id t) (t_symbol t) (t_side t) price cid) (\<lambda>n. xe_place_stop env n cid)"

definition get_order :: "exec_env \<Rightarrow> string \<Rightarrow> string \<Rightarrow> order_status_view option act" where
  "get_order env symbol cid = request (C_get_order symbol cid) (\<lambda>n. xe_get_order env n cid)"

text \<open>Whether the exchange has the stop; None when that is uncertain, a throwing query included.\<close>

definition stop_seen :: "exec_env \<Rightarrow> thread \<Rightarrow> string \<Rightarrow> bool option act" where
  "stop_seen env t cid = and_then (attempt (case xe_algo_exists env of
       Some q \<Rightarrow> request (C_algo_exists (t_symbol t) cid) (\<lambda>n. q n cid)
     | None \<Rightarrow> and_then (get_order env (t_symbol t) cid) (\<lambda>found. ret (map_option (\<lambda>v. \<not> end_status (os_status v)) found))))
     (\<lambda>r. ret (case r of None \<Rightarrow> None | Some x \<Rightarrow> x))"

definition in_doubt :: "order_receipt \<Rightarrow> order_receipt" where
  "in_doubt r = (if isTransportError (rc_error r) then r\<lparr>rc_outcome := OO_unknown\<rparr> else r)"

definition as_submitted :: "order_receipt \<Rightarrow> order_receipt" where
  "as_submitted r = r\<lparr>rc_outcome := OO_submitted, rc_error := None\<rparr>"

text \<open>The receipt of the stop after the exchange was asked about an unknown one; None when it stays uncertain.\<close>

definition settle_stop :: "exec_env \<Rightarrow> thread \<Rightarrow> string \<Rightarrow> string \<Rightarrow> order_receipt \<Rightarrow> order_receipt option act" where
  "settle_stop env t price cid r = (if rc_outcome r \<noteq> OO_unknown then ret (Some r)
     else and_then (stop_seen env t cid) (\<lambda>seen. case seen of
       None \<Rightarrow> ret None
     | Some True \<Rightarrow> ret (Some (as_submitted r))
     | Some False \<Rightarrow> and_then (place_stop env t price cid) (\<lambda>again.
         ret (Some (if isTransportError (rc_error again) then again\<lparr>rc_outcome := OO_unknown\<rparr>
           else if rc_outcome again = OO_failed \<and> duplicate_id (rc_error again) then as_submitted again else again)))))"

definition protection_key :: "rt \<Rightarrow> string" where "protection_key s = ''protection_verified:'' @ backend_text (rt_backend s)"

definition invalidateProtection :: "exec_env \<Rightarrow> unit act" where
  "invalidateProtection env = (if \<not> xe_has_capability env then ret ()
     else and_then (reading protection_key) (\<lambda>k. kv_set k []))"

definition close_position :: "exec_env \<Rightarrow> string \<Rightarrow> string \<Rightarrow> (bool \<times> string option \<times> (string option \<times> string option)) act" where
  "close_position env symbol cid = request (C_close symbol cid) (\<lambda>n. xe_close env n symbol cid)"

definition mint_leg :: "exec_env \<Rightarrow> leg \<Rightarrow> thread \<Rightarrow> string \<times> thread" where
  "mint_leg env l t = nextLegCid (xe_sha1 env) t l"

definition stamp_thread :: "int \<Rightarrow> thread \<Rightarrow> thread" where
  "stamp_thread now t = t\<lparr>t_version := t_version t + 1, t_updated_at := now\<rparr>"

text \<open>No stop can be had: the position is closed at once, or the thread is flagged.\<close>

definition compensate :: "exec_env \<Rightarrow> thread \<Rightarrow> order_receipt \<Rightarrow> unit act" where
  "compensate env t r =
     and_then (only_if (rc_outcome r = OO_failed \<and> \<not> isTransportError (rc_error r) \<and> stop_refused (rc_error r)) (invalidateProtection env)) (\<lambda>_.
     let (cid, t') = mint_leg env LegClose t in
     and_then (saveThread t') (\<lambda>_. and_then (close_position env (t_symbol t') cid) (\<lambda>(closed, err, _).
     and_then (clock env) (\<lambda>now.
       if closed \<and> \<not> filled_text err
       then and_then (saveThread (stamp_thread now (t'\<lparr>t_status := Closed, t_closed_at := Some now,
              t_close_reason := Some CR_stop_failed, t_attention := None\<rparr>))) (\<lambda>_. resolveOpenIntents t' IS_filled)
       else saveThread (stamp_thread now (t'\<lparr>t_attention := Some ''CLOSE_FAILED''\<rparr>))))))"

definition is_tp_id :: "string \<Rightarrow> bool" where
  "is_tp_id x = (let ds = takeWhile is_digit (rev x) in ds \<noteq> [] \<and> take 2 (drop (length ds) (rev x)) = ''t-'')"

text \<open>The stop of a position: the thread after it and the id of the stop, or None when the handler ends there.\<close>

definition protect_stop :: "exec_env \<Rightarrow> placed_legs option \<Rightarrow> thread \<Rightarrow> (thread \<times> string list) option act" where
  "protect_stop env placed t = (if \<not> filled_text (t_stop_price t) then ret (Some (t, []))
     else let price = the (t_stop_price t);
         (cid, t') = (case placed of Some p \<Rightarrow> (pl_id (pg_stop p), t) | None \<Rightarrow> mint_leg env LegStop t) in
       and_then (saveThread t') (\<lambda>_.
       and_then (case placed of Some p \<Rightarrow> ret (pl_receipt (pg_stop p)) | None \<Rightarrow> place_stop env t' price cid) (\<lambda>r0.
       and_then (settle_stop env t' price cid (in_doubt r0)) (\<lambda>settled. case settled of
         None \<Rightarrow> and_then (clock env) (\<lambda>now. and_then (saveThread (stamp_thread now (t'\<lparr>t_attention := Some ''PROTECTION_MISSING''\<rparr>)))
           (\<lambda>_. ret None))
       | Some r1 \<Rightarrow> let r = (if rc_outcome r1 = OO_failed \<and> stop_exists (rc_error r1) then as_submitted r1 else r1) in
           if rc_outcome r \<in> {OO_failed, OO_unknown} then and_then (compensate env t' r) (\<lambda>_. ret None)
           else ret (Some (t', [cid]))))))"

definition protect_tp :: "exec_env \<Rightarrow> placed_legs option \<Rightarrow> thread \<Rightarrow> string list \<Rightarrow> (thread \<times> string list) act" where
  "protect_tp env placed t ids = (case t_take_profits t of [] \<Rightarrow> ret (t, ids)
   | tp0 # _ \<Rightarrow> if tp0 = [] \<or> list_ex is_tp_id ids then ret (t, ids)
     else let given = Option.bind placed pg_tp;
         (cid, t') = (case given of Some p \<Rightarrow> (pl_id p, t) | None \<Rightarrow> mint_leg env LegTp t) in
       and_then (saveThread t') (\<lambda>_.
       and_then (case given of Some p \<Rightarrow> ret (pl_receipt p)
         | None \<Rightarrow> request (C_take_profit (t_id t') (t_symbol t') (t_side t') tp0 cid) (\<lambda>n. xe_take_profit env n cid)) (\<lambda>r.
       ret (t', if rc_outcome r \<in> {OO_failed, OO_unknown} then ids else ids @ [cid]))))"

definition placeProtection :: "exec_env \<Rightarrow> thread \<Rightarrow> placed_legs option \<Rightarrow> unit act" where
  "placeProtection env tIn placed = and_then (reading rt_halted) (\<lambda>halted.
     if t_status tIn \<noteq> In_position \<or> halted then ret ()
     else and_then (clock env) (\<lambda>now. and_then (reading (\<lambda>s. map_of (rt_retry_at s) (t_id tIn))) (\<lambda>last_at.
       if now - (case last_at of None \<Rightarrow> 0 | Some x \<Rightarrow> x) < 60000 then ret ()
       else and_then (clock env) (\<lambda>now1. and_then (change (\<lambda>s. s\<lparr>rt_retry_at := map_set (rt_retry_at s) (t_id tIn) now1\<rparr>)) (\<lambda>_.
         and_then (reread tIn) (\<lambda>t.
         let ids = filter (\<lambda>x. placed = None \<or> x \<noteq> pl_id (pg_stop (the placed)) \<and> Some x \<noteq> map_option pl_id (pg_tp (the placed)))
               (t_protection_client_order_ids t) in
         and_then (protect_stop env placed t) (\<lambda>stop. case stop of None \<Rightarrow> ret ()
         | Some (t1, stop_ids) \<Rightarrow> and_then (protect_tp env placed t1 (ids @ stop_ids)) (\<lambda>(t2, ids2).
           and_then (reread t2) (\<lambda>cur. and_then (clock env) (\<lambda>now2.
           saveThread (stamp_thread now2 (cur\<lparr>t_protection_client_order_ids := ids2,
             t_attention := (if t_attention cur = Some ''ENTRY_REMAINDER'' then Some ''ENTRY_REMAINDER'' else None)\<rparr>))))))))))))"

end
