(* ===== verification/Reconcile.thy ===== *)
theory Reconcile imports Execution begin

text \<open>
  Following the exchange (\<open>runtime.ts\<close>, section on polling and reconciliation): the pass over the open threads on fresh
  account facts, the halt that is retried until the exchange is clean, and the account poll that drives both.
\<close>

section \<open>Halting\<close>

definition ack :: "exec_env \<Rightarrow> call \<Rightarrow> (bool \<times> string option) act" where "ack env c = request c (\<lambda>n. xe_ack env n c)"

definition get_account :: "exec_env \<Rightarrow> account_view act" where "get_account env = request C_account (xe_account env)"

definition has_symbol :: "string \<Rightarrow> account_view \<Rightarrow> bool" where
  "has_symbol symbol acct = list_ex (\<lambda>p. pv_symbol p = symbol) (av_positions acct)"

definition ended_status :: "thread \<Rightarrow> thread_status" where
  "ended_status t = (if t_status t = Pending_entry then Canceled else Closed)"

definition retryHalt :: "exec_env \<Rightarrow> thread \<Rightarrow> bool \<Rightarrow> unit act" where
  "retryHalt env t hasPosition =
     and_then (ack env (C_cancel_all (t_symbol t))) (\<lambda>(c_ok, _).
     and_then (if \<not> hasPosition then ret True
       else let (cid, t') = mint_leg env LegClose t in
         and_then (saveThread t') (\<lambda>_. and_then (close_position env (t_symbol t) cid) (\<lambda>(closed, err, _). ret (closed \<and> \<not> filled_text err)))) (\<lambda>closed.
     if \<not> (c_ok \<and> closed) then ret ()
     else and_then (get_account env) (\<lambda>fresh.
       if has_symbol (t_symbol t) fresh then ret ()
       else and_then (reread t) (\<lambda>cur. and_then (clock env) (\<lambda>now.
         saveThread (stamp_thread now (cur\<lparr>t_status := ended_status t, t_closed_at := Some now, t_close_reason := Some CR_halt_retried,
           t_attention := None\<rparr>)))))))"

section \<open>The pass over a thread\<close>

definition SUBMIT_PHASE_MAX_MS :: int where "SUBMIT_PHASE_MAX_MS = 150000"

definition review :: "string \<Rightarrow> trigger_kind \<Rightarrow> unit act" where
  "review tid k = change (\<lambda>s. s\<lparr>rt_calls := rt_calls s @ [C_review tid k]\<rparr>)"

definition final_order :: "string \<Rightarrow> bool" where "final_order st = (st = ''FILLED'' \<or> end_status st)"

text \<open>A partial fill whose remainder was to be canceled. A lookup that fails counts as no answer, as in the code.\<close>

definition chase_remainder :: "exec_env \<Rightarrow> thread \<Rightarrow> string \<Rightarrow> unit act" where
  "chase_remainder env t cid =
     and_then (attempt (get_order env (t_symbol t) cid)) (\<lambda>r. let rem = (case r of None \<Rightarrow> None | Some x \<Rightarrow> x);
       live = (case rem of None \<Rightarrow> False | Some v \<Rightarrow> \<not> final_order (os_status v)) in
     and_then (if live then and_then (ack env (C_cancel_order (t_symbol t) cid)) (\<lambda>(k, _). ret k) else ret True) (\<lambda>go.
     if \<not> go then ret ()
     else and_then (reading (\<lambda>s. thread_at s (t_id t))) (\<lambda>cur. case cur of None \<Rightarrow> ret ()
       | Some u \<Rightarrow> if t_attention u \<noteq> Some ''ENTRY_REMAINDER'' then ret ()
         else and_then (clock env) (\<lambda>now.
           let u' = (case rem of Some v \<Rightarrow> if os_status v = ''FILLED'' \<and> Fin 0 < js_number (os_executed_qty v)
                 then u\<lparr>t_qty := os_executed_qty v\<rparr> else u | None \<Rightarrow> u) in
           saveThread (stamp_thread now (u'\<lparr>t_attention := None\<rparr>))))))"

definition submitting :: "int \<Rightarrow> thread \<Rightarrow> bool" where
  "submitting now t = (t_status t = Pending_entry \<and> filled_text (t_entry_client_order_id t) \<and>
     (case t_entry_submitting_since t of None \<Rightarrow> False | Some x \<Rightarrow> now - x < SUBMIT_PHASE_MAX_MS))"

text \<open>The entry order as the pass sees it; None when the lookup threw and the thread is left alone.\<close>

definition look_up_entry :: "exec_env \<Rightarrow> thread \<Rightarrow> entry_lookup option act" where
  "look_up_entry env t = (if t_status t = Pending_entry \<and> filled_text (t_entry_client_order_id t)
     then and_then (attempt (get_order env (t_symbol t) (the (t_entry_client_order_id t)))) (\<lambda>r.
       ret (case r of None \<Rightarrow> None | Some None \<Rightarrow> Some NotFound | Some (Some v) \<Rightarrow> Some (Found v)))
     else ret (Some Unqueried))"

definition with_paper_close :: "paper_event option \<Rightarrow> thread \<Rightarrow> thread" where
  "with_paper_close ev t = (case ev of None \<Rightarrow> t | Some e \<Rightarrow> if t_status t \<noteq> Closed then t
     else t\<lparr>t_close_reason := Some (if pe_kind e = PE_sl_hit then CR_paper_stop (pe_price e) else CR_paper_tp (pe_price e)),
       t_realized_pnl := pe_realized_pnl e, t_exit_price := Some (pe_price e)\<rparr>)"

definition order_of :: "entry_lookup \<Rightarrow> order_status_view option" where
  "order_of l = (case l of Found v \<Rightarrow> Some v | _ \<Rightarrow> None)"

text \<open>What follows a change: settled intents, protection after a fill, clean-up after an end.\<close>

definition follow_up :: "exec_env \<Rightarrow> entry_lookup \<Rightarrow> thread \<Rightarrow> event_kind list \<Rightarrow> unit act" where
  "follow_up env look next evs =
     and_then (only_if ((Ev_attention_cleared \<in> set evs \<or> Ev_entry_filled \<in> set evs) \<and> look \<noteq> Unqueried)
       (resolveUnknownIntents next (order_of look))) (\<lambda>_.
     and_then (only_if (Ev_entry_filled \<in> set evs)
       (and_then (only_if (t_attention next = Some ''ENTRY_REMAINDER'' \<and> filled_text (t_entry_client_order_id next))
          (and_then (ack env (C_cancel_order (t_symbol next) (the (t_entry_client_order_id next)))) (\<lambda>(k, _).
             only_if k (and_then (clock env) (\<lambda>now. saveThread (stamp_thread now (next\<lparr>t_attention := None\<rparr>))))))) (\<lambda>_.
        and_then (placeProtection env next None) (\<lambda>_. review (t_id next) Order_filled)))) (\<lambda>_.
     and_then (only_if (t_status next = Closed)
       (and_then (ack env (C_cancel_all (t_symbol next))) (\<lambda>_. resolveOpenIntents next IS_filled))) (\<lambda>_.
     and_then (only_if (t_status next = Canceled) (resolveOpenIntents next IS_failed)) (\<lambda>_.
     only_if (t_attention next = Some ''PROTECTION_MISSING'') (placeProtection env next None)))))"

definition reconcile_one :: "exec_env \<Rightarrow> account_view \<Rightarrow> paper_event list \<Rightarrow> thread \<Rightarrow> unit act" where
  "reconcile_one env acct evs t = and_then (reading rt_halted) (\<lambda>halted.
     let position = List.find (\<lambda>p. pv_symbol p = t_symbol t) (av_positions acct);
       orders = filter (\<lambda>x. ov_symbol x = t_symbol t) (av_open_orders acct) in
     if halted then only_if (t_attention t = Some ''HALT_INCOMPLETE'' \<or> position \<noteq> None \<or> orders \<noteq> []) (retryHalt env t (position \<noteq> None))
     else if t_attention t = Some ''ENTRY_REMAINDER'' \<and> filled_text (t_entry_client_order_id t)
       then chase_remainder env t (the (t_entry_client_order_id t))
     else and_then (clock env) (\<lambda>now. if submitting now t then ret ()
     else and_then (look_up_entry env t) (\<lambda>l. case l of None \<Rightarrow> ret ()
     | Some look \<Rightarrow> and_then (clock env) (\<lambda>now2. and_then (reading (\<lambda>s. map_option mv_mark (map_of (rt_markets s) (t_symbol t)))) (\<lambda>m.
         let r = reconcileThread t \<lparr>f_now = now2, f_position = position, f_entry_order = look, f_open_orders = orders, f_mark = m\<rparr> in
         if \<not> r_changed r then ret ()
         else let next = with_paper_close (List.find (\<lambda>e. pe_symbol e = t_symbol t \<and> pe_kind e \<in> {PE_sl_hit, PE_tp_hit}) evs) (r_next r) in
           and_then (saveThread next) (\<lambda>_. follow_up env look next (List.map fst (r_events r))))))))"

definition reconcileThreads :: "exec_env \<Rightarrow> account_view \<Rightarrow> unit act" where
  "reconcileThreads env acct = and_then (reading rt_events) (\<lambda>evs. and_then (change (\<lambda>s. s\<lparr>rt_events := []\<rparr>)) (\<lambda>_.
     and_then (reading openThreads) (each (reconcile_one env acct evs))))"

section \<open>The account poll\<close>

definition closedThreads :: "nat \<Rightarrow> backend option \<Rightarrow> rt \<Rightarrow> thread list" where
  "closedThreads limit b s = newest_first (\<lambda>t. case t_closed_at t of Some x \<Rightarrow> x | None \<Rightarrow> t_updated_at t) limit
     (filter (\<lambda>t. t_status t \<in> {Closed, Canceled, Invalidated} \<and> (case b of None \<Rightarrow> True | Some k \<Rightarrow> backend_of t = k))
       (List.map snd (rt_threads s)))"

text \<open>The equity the day started with; a change of a fifth without positions, orders or closings is a transfer.\<close>

definition trackDailyEquity :: "exec_env \<Rightarrow> account_view \<Rightarrow> unit act" where
  "trackDailyEquity env acct = and_then (clock env) (\<lambda>now. and_then (clock env) (\<lambda>now2. change (\<lambda>s.
     let day = int_str (utcDayStart now); dayKey = ''demo.day:'' @ backend_text (rt_backend s); put = (\<lambda>k v m. map_set m k v) in
     if map_of (rt_kv s) dayKey \<noteq> Some day \<or> map_of (rt_kv s) (dayStartKey s) = None
       then s\<lparr>rt_kv := put (dayStartKey s) (av_equity acct) (put dayKey day (rt_kv s))\<rparr>
     else let start = js_number (the (map_of (rt_kv s) (dayStartKey s))); eq = js_number (av_equity acct) in
       if Fin 0 < start \<and> Fin 0 < eq \<and> av_positions acct = [] \<and> av_open_orders acct = [] \<and> lit (2/10) \<le> \<bar>eq - start\<bar> / start \<and>
           \<not> list_ex (\<lambda>t. utcDayStart now2 \<le> (case t_closed_at t of None \<Rightarrow> 0 | Some x \<Rightarrow> x)) (closedThreads 20 (Some (rt_backend s)) s)
       then s\<lparr>rt_kv := put (dayStartKey s) (av_equity acct) (rt_kv s)\<rparr> else s)))"

text \<open>Whatever throws ends the poll and is only logged.\<close>

definition pollAccount :: "exec_env \<Rightarrow> unit act" where
  "pollAccount env = and_then (attempt (and_then (get_account env) (\<lambda>acct.
     and_then (change (\<lambda>s. s\<lparr>rt_account := Some acct\<rparr>)) (\<lambda>_.
     and_then (trackDailyEquity env acct) (\<lambda>_. reconcileThreads env acct))))) (\<lambda>_. ret ())"

end
