(* ===== verification/Opening.thy ===== *)
theory Opening imports Reconcile begin

text \<open>
  Opening, canceling, closing and reducing a thread, and the approvals that lead there (\<open>runtime.ts\<close>, sections on
  opening and on closing and reducing). The waits of the code carry no meaning here and are left out.
\<close>

section \<open>Sending an entry\<close>

definition as_receipt :: "leg_receipt \<Rightarrow> order_receipt" where
  "as_receipt l = \<lparr>rc_outcome = (case lr_outcome l of Skipped \<Rightarrow> OO_failed | Leg OO_filled \<Rightarrow> OO_failed | Leg x \<Rightarrow> x), rc_receipt = JNull,
     rc_avg_price = None, rc_error = (case lr_error l of Some e \<Rightarrow> Some e
       | None \<Rightarrow> (case lr_outcome l of Leg OO_filled \<Rightarrow> Some ''leg triggered'' | Skipped \<Rightarrow> Some ''leg not sent'' | _ \<Rightarrow> None))\<rparr>"

text \<open>The recheck of an approved quantity on fresh data: the quantity is kept, the caps are applied to it.\<close>

definition checked_proposal :: "thread \<Rightarrow> judgement" where
  "checked_proposal t = \<lparr>j_action = PROPOSE, j_direction = None, j_confidence = Fin 0, j_headline = [], j_thesis = [], j_reasons = [],
     j_evidence_refs = [], j_invalidation = None, j_invalidation_price = None, j_target_price = None, j_watch_conditions = [],
     j_proposal = Some \<lparr>p_direction = t_side t, p_entry = en_type (t_entry t), p_limit_price = en_price (t_entry t),
       p_entry_zone = None, p_stop_price = (case t_stop_price t of None \<Rightarrow> [] | Some x \<Rightarrow> x), p_take_profit_price = None,
       p_take_profits = [], p_rationale = []\<rparr>, j_strategy_id = None\<rparr>"

definition size_ok :: "exec_env \<Rightarrow> rt \<Rightarrow> intent \<Rightarrow> thread \<Rightarrow> account_view \<Rightarrow> market_view \<Rightarrow> symbol_rules \<Rightarrow> bool" where
  "size_ok env s i t acct m rules = (case computeSizing (checked_proposal t) acct m rules
       ((xe_gates env)\<lparr>gc_risk_pct := js_min (js_number (sz_risk_pct (in_sizing i))) (js_number (w_risk_pct (rt_workflow s)))\<rparr>)
       \<lparr>so_liquidity_notional_cap = None, so_fixed_qty = Some (t_qty t)\<rparr> of
     None \<Rightarrow> False | Some (_, _, ok) \<Rightarrow> ok)"

definition abort_open :: "exec_env \<Rightarrow> thread \<Rightarrow> string \<Rightarrow> close_reason \<Rightarrow> unit act" where
  "abort_open env t iid why =
     and_then (update_intent iid (\<lambda>i. i\<lparr>in_status := IS_rejected, in_error := Some why\<rparr>)) (\<lambda>_.
     and_then (reread t) (\<lambda>cur. and_then (clock env) (\<lambda>now.
     saveThread (cur\<lparr>t_status := Canceled, t_entry_client_order_id := None, t_closed_at := Some now, t_close_reason := Some why,
       t_version := t_version t + 2, t_updated_at := now\<rparr>))))"

text \<open>The checks before sending, in order: Some reason when the entry is not sent.\<close>

definition recheck_size :: "exec_env \<Rightarrow> intent \<Rightarrow> thread \<Rightarrow> account_view \<Rightarrow> close_reason option act" where
  "recheck_size env i t fresh = (if \<not> Fin 0 < js_number (sz_risk_pct (in_sizing i)) then ret None
     else and_then (attempt (and_then (request (C_market (t_symbol t)) (\<lambda>n. xe_market env n (t_symbol t))) (\<lambda>m.
       and_then (request (C_ticker (t_symbol t)) (\<lambda>n. xe_ticker env n (t_symbol t))) (\<lambda>_.
       and_then (request (C_rules (t_symbol t)) (\<lambda>n. xe_rules env n (t_symbol t))) (\<lambda>rules.
       and_then (change (\<lambda>s. s\<lparr>rt_markets := map_set (rt_markets s) (t_symbol t) m\<rparr>)) (\<lambda>_. reading (\<lambda>s. size_ok env s i t fresh m rules))))))) (\<lambda>r.
       ret (case r of None \<Rightarrow> Some CR_no_data | Some ok \<Rightarrow> if ok then None else Some CR_size_check)))"

definition before_send :: "exec_env \<Rightarrow> intent \<Rightarrow> thread \<Rightarrow> close_reason option act" where
  "before_send env i t =
     and_then (get_account env) (\<lambda>fresh. and_then (change (\<lambda>s. s\<lparr>rt_account := Some fresh\<rparr>)) (\<lambda>_.
     and_then (clock env) (\<lambda>now. and_then (reading (preflightOpen now (t_symbol t) fresh (Some (t_id t)))) (\<lambda>blockers.
     if blockers \<noteq> [] then ret (Some CR_preflight)
     else and_then (recheck_size env i t fresh) (\<lambda>bad. case bad of Some why \<Rightarrow> ret (Some why)
     | None \<Rightarrow> and_then (ack env (C_set_leverage (t_symbol t) (t_leverage t))) (\<lambda>(lev, e1). if \<not> lev then ret (Some (CR_leverage e1))
       else and_then (ack env (C_set_margin (t_symbol t) (t_margin_mode t))) (\<lambda>(mt, e2). if \<not> mt then ret (Some (CR_margin e2))
       else and_then (reading rt_halted) (\<lambda>h. ret (if h then Some CR_halted_before_send else None)))))))))"

definition entry_of :: "thread \<Rightarrow> string \<Rightarrow> entry_request" where
  "entry_of t cid = \<lparr>er_symbol = t_symbol t, er_direction = t_side t, er_qty = t_qty t, er_entry = en_type (t_entry t),
     er_limit_price = en_price (t_entry t), er_client_order_id = cid\<rparr>"

text \<open>Entry and protection in one request, where the backend can; otherwise the entry alone.\<close>

definition send_entry :: "exec_env \<Rightarrow> thread \<Rightarrow> thread \<Rightarrow> string \<Rightarrow> (order_receipt \<times> placed_legs option) act" where
  "send_entry env t minted cid = (case (xe_open_protected env, en_type (t_entry t), t_stop_price t) of
     (Some open_protected, Market, Some (p # ps)) \<Rightarrow>
       and_then (reread minted) (\<lambda>cur.
       let (stop_id, t1) = mint_leg env LegStop cur;
         tp = (case t_take_profits t of x # _ \<Rightarrow> if x = [] then None else Some (mint_leg env LegTp t1, x) | [] \<Rightarrow> None);
         t2 = (case tp of None \<Rightarrow> t1 | Some ((_, u), _) \<Rightarrow> u);
         req = \<lparr>oq_entry = (entry_of t cid)\<lparr>er_entry := Market\<rparr>, oq_stop_price = p # ps, oq_stop_id = stop_id,
           oq_take_profit = map_option (\<lambda>((c, _), x). (x, c)) tp\<rparr> in
       and_then (saveThread (t2\<lparr>t_protection_client_order_ids := stop_id # (case tp of None \<Rightarrow> [] | Some ((c, _), _) \<Rightarrow> [c])\<rparr>)) (\<lambda>_.
       and_then (request (C_open_protected (t_id t) req) (\<lambda>n. open_protected n req)) (\<lambda>r.
       ret (oc_entry r, Some \<lparr>pg_stop = \<lparr>pl_id = stop_id, pl_receipt = as_receipt (oc_stop r)\<rparr>,
         pg_tp = map_option (\<lambda>((c, _), _). \<lparr>pl_id = c, pl_receipt = as_receipt (oc_tp r)\<rparr>) tp\<rparr>))))
   | _ \<Rightarrow> and_then (request (C_place_entry (t_id t) (entry_of t cid)) (\<lambda>n. xe_place_entry env n (entry_of t cid))) (\<lambda>r. ret (r, None)))"

definition found_outcome :: "order_status_view option option \<Rightarrow> order_outcome" where
  "found_outcome r = (case r of Some (Some v) \<Rightarrow> if os_status v = ''FILLED'' then OO_filled
       else if end_status (os_status v) then OO_failed else OO_submitted
     | _ \<Rightarrow> OO_unknown)"

definition settle_entry :: "exec_env \<Rightarrow> thread \<Rightarrow> string \<Rightarrow> order_receipt \<Rightarrow> order_outcome act" where
  "settle_entry env t cid r = (if rc_outcome r \<noteq> OO_unknown then ret (rc_outcome r)
     else and_then (attempt (get_order env (t_symbol t) cid)) (\<lambda>found. ret (found_outcome found)))"

definition after_entry :: "exec_env \<Rightarrow> thread \<Rightarrow> string \<Rightarrow> order_receipt \<Rightarrow> placed_legs option \<Rightarrow> thread \<Rightarrow> order_outcome \<Rightarrow> unit act" where
  "after_entry env t iid r placed cur outcome = and_then (clock env) (\<lambda>now. case outcome of
     OO_unknown \<Rightarrow> and_then (update_intent iid (\<lambda>i. i\<lparr>in_status := IS_unknown, in_error := Some CR_entry_unknown\<rparr>)) (\<lambda>_.
       saveThread (stamp_thread now (cur\<lparr>t_attention := Some ''ORDER_UNKNOWN''\<rparr>)))
   | OO_failed \<Rightarrow> and_then (update_intent iid (\<lambda>i. i\<lparr>in_status := IS_failed,
         in_error := Some (case rc_error r of Some e \<Rightarrow> CR_text e | None \<Rightarrow> CR_entry_not_filled)\<rparr>)) (\<lambda>_.
       saveThread (stamp_thread now (cur\<lparr>t_status := Canceled, t_closed_at := Some now, t_close_reason := Some (CR_entry_failed (rc_error r))\<rparr>)))
   | OO_filled \<Rightarrow> and_then (update_intent iid (\<lambda>i. i\<lparr>in_status := IS_filled\<rparr>)) (\<lambda>_.
       and_then (reading (\<lambda>s. map_option mv_mark (map_of (rt_markets s) (t_symbol t)))) (\<lambda>mk.
       let next = stamp_thread now (cur\<lparr>t_status := In_position, t_opened_at := Some now,
         t_filled_avg_price := (case rc_avg_price r of Some p \<Rightarrow> Some p | None \<Rightarrow> mk)\<rparr>) in
       and_then (saveThread next) (\<lambda>_. and_then (placeProtection env next placed) (\<lambda>_. pollAccount env))))
   | OO_submitted \<Rightarrow> and_then (update_intent iid (\<lambda>i. i\<lparr>in_status := IS_submitted\<rparr>)) (\<lambda>_.
       and_then (saveThread (stamp_thread now cur)) (\<lambda>_. pollAccount env)))"

text \<open>From the order id on: the checks, the request, and what its outcome means.\<close>

definition submit_entry :: "exec_env \<Rightarrow> thread \<Rightarrow> thread \<Rightarrow> string \<Rightarrow> intent \<Rightarrow> unit act" where
  "submit_entry env t minted cid i =
     and_then (update_intent (in_id i) (\<lambda>x. x\<lparr>in_status := IS_approved, in_client_order_id := Some cid\<rparr>)) (\<lambda>_.
     and_then (before_send env i t) (\<lambda>bad. case bad of
       Some why \<Rightarrow> abort_open env t (in_id i) why
     | None \<Rightarrow> and_then (send_entry env t minted cid) (\<lambda>(r, placed).
       and_then (reread t) (\<lambda>c. and_then (clock env) (\<lambda>now2.
       and_then (saveThread (stamp_thread now2 (c\<lparr>t_entry_submitting_since := None, t_entry_submitted_at := Some now2\<rparr>))) (\<lambda>_.
       and_then (reread t) (\<lambda>cur. and_then (settle_entry env t cid r) (\<lambda>outcome.
       after_entry env t (in_id i) r placed cur outcome))))))))"

definition executeOpen :: "exec_env \<Rightarrow> thread \<Rightarrow> intent \<Rightarrow> unit act" where
  "executeOpen env tIn i = and_then (reread tIn) (\<lambda>t.
     and_then (require (t_status t = Pending_entry \<and> \<not> filled_text (t_entry_client_order_id t)) Conflict) (\<lambda>_.
     let (cid, minted) = mint_leg env LegEntry t in
     and_then (clock env) (\<lambda>now.
     let sent = (stamp_thread now minted)\<lparr>t_entry_client_order_id := Some cid, t_entry_submitting_since := Some now,
       t_entry_submitted_at := None\<rparr> in
     and_then (saveThread sent) (\<lambda>_. submit_entry env t minted cid i))))"

section \<open>Ending a thread\<close>

definition cancelEntry :: "exec_env \<Rightarrow> thread \<Rightarrow> close_reason \<Rightarrow> unit act" where
  "cancelEntry env t reason =
     and_then (if filled_text (t_entry_client_order_id t)
       then and_then (ack env (C_cancel_order (t_symbol t) (the (t_entry_client_order_id t)))) (\<lambda>(k, _). ret k) else ret True) (\<lambda>ok.
     and_then (clock env) (\<lambda>now.
     and_then (saveThread (stamp_thread now (if ok then t\<lparr>t_status := Canceled, t_closed_at := Some now, t_close_reason := Some reason,
         t_attention := None\<rparr> else t\<lparr>t_attention := Some ''CANCEL_UNKNOWN'', t_close_reason := Some reason\<rparr>))) (\<lambda>_.
     pollAccount env)))"

definition held :: "rt \<Rightarrow> string \<Rightarrow> position_view option" where
  "held s symbol = Option.bind (rt_account s) (\<lambda>a. List.find (\<lambda>p. pv_symbol p = symbol) (av_positions a))"

definition equity_text :: "rt \<Rightarrow> string" where "equity_text s = (case rt_account s of None \<Rightarrow> ''0'' | Some a \<Rightarrow> av_equity a)"

definition market_part :: "intent_kind \<Rightarrow> thread \<Rightarrow> string \<Rightarrow> string \<Rightarrow> string \<Rightarrow> intent_part" where
  "market_part k t qty equity step = \<lparr>ip_kind = k, ip_direction = t_side t, ip_quantity = qty, ip_entry = Market, ip_limit_price = None,
     ip_stop_price = None, ip_take_profit_price = None, ip_sizing = \<lparr>sz_equity = equity, sz_risk_pct = ''0'', sz_risk_usdt = ''0'',
       sz_stop_distance = ''0'', sz_raw_qty = qty, sz_step_size = step, sz_note = []\<rparr>\<rparr>"

definition close_proven :: "exec_env \<Rightarrow> string \<Rightarrow> bool \<times> string option \<times> (string option \<times> string option) \<Rightarrow> bool act" where
  "close_proven env symbol = (\<lambda>(closed, err, _). if closed \<and> \<not> filled_text err then ret True
     else if filled_text err then ret False
     else and_then (get_account env) (\<lambda>fresh. and_then (change (\<lambda>s. s\<lparr>rt_account := Some fresh\<rparr>)) (\<lambda>_. ret (\<not> has_symbol symbol fresh))))"

definition closeThreadNow :: "exec_env \<Rightarrow> thread \<Rightarrow> string option \<Rightarrow> close_reason \<Rightarrow> unit act" where
  "closeThreadNow env t0 ep reason = (if t_status t0 = Pending_entry then cancelEntry env t0 reason
     else and_then (reading (\<lambda>s. (held s (t_symbol t0), equity_text s))) (\<lambda>(pos, equity).
       let qty = (case pos of None \<Rightarrow> t_qty t0 | Some p \<Rightarrow> pv_qty p) in
       and_then (newIntent env ep t0 (if ep = None then By_user else By_agent) (market_part IK_close t0 qty equity ''0'')) (\<lambda>i.
       let (cid, t) = mint_leg env LegClose t0 in
       and_then (saveThread t) (\<lambda>_.
       and_then (update_intent (in_id i) (\<lambda>x. x\<lparr>in_status := IS_approved, in_client_order_id := Some cid\<rparr>)) (\<lambda>_.
       and_then (ack env (C_cancel_all (t_symbol t))) (\<lambda>_.
       and_then (close_position env (t_symbol t) cid) (\<lambda>r.
       and_then (close_proven env (t_symbol t) r) (\<lambda>proven. and_then (clock env) (\<lambda>now.
       if \<not> proven
       then and_then (update_intent (in_id i) (\<lambda>x. x\<lparr>in_status := IS_failed,
             in_error := Some (case fst (snd r) of Some e \<Rightarrow> CR_text e | None \<Rightarrow> CR_close_unproven)\<rparr>)) (\<lambda>_.
           saveThread (stamp_thread now (t\<lparr>t_attention := Some ''CLOSE_FAILED''\<rparr>)))
       else and_then (update_intent (in_id i) (\<lambda>x. x\<lparr>in_status := IS_filled\<rparr>)) (\<lambda>_.
         and_then (reading (\<lambda>s. map_option mv_mark (map_of (rt_markets s) (t_symbol t)))) (\<lambda>mk.
         and_then (saveThread (stamp_thread now (t\<lparr>t_status := Closed, t_closed_at := Some now, t_close_reason := Some reason,
           t_realized_pnl := fst (snd (snd r)), t_exit_price := (case snd (snd (snd r)) of Some p \<Rightarrow> Some p | None \<Rightarrow> mk),
           t_attention := None\<rparr>))) (\<lambda>_. pollAccount env))))))))))))"

end
