(* ===== verification/Controls.thy ===== *)
theory Controls imports Opening Settings begin

text \<open>
  What a person, the chat or a review makes the runtime do (\<open>runtime.ts\<close>): halving and closing a position, the halt,
  approving and rejecting an intent, opening from a judgment, adopting a position and the order panel. The set that
  keeps two approvals of one intent apart is left out, since no handler runs between the awaits of another.
\<close>

section \<open>Reducing and closing\<close>

definition or_step :: "string \<Rightarrow> jsnum" where
  "or_step step = (let n = js_number step in if num_truthy n then n else lit (1/1000))"

definition reduceHalf :: "exec_env \<Rightarrow> thread \<Rightarrow> string \<Rightarrow> unit act" where
  "reduceHalf env t0 ep = and_then (reading (\<lambda>s. (held s (t_symbol t0), equity_text s))) (\<lambda>(found, equity). case found of None \<Rightarrow> ret ()
   | Some pos \<Rightarrow> and_then (request (C_rules (t_symbol t0)) (\<lambda>n. xe_rules env n (t_symbol t0))) (\<lambda>rules.
       let decimals = step_decimals (sr_step_size rules); step = or_step (sr_step_size rules);
         half = to_fixed decimals (js_floor (js_number (pv_qty pos) / Fin 2 / step) * step) in
       if \<not> Fin 0 < js_number half then ret ()
       else and_then (newIntent env (Some ep) t0 By_agent (market_part IK_reduce t0 half equity (sr_step_size rules))) (\<lambda>i.
       let (cid, t) = mint_leg env LegReduce t0 in
       and_then (saveThread t) (\<lambda>_.
       and_then (update_intent (in_id i) (\<lambda>x. x\<lparr>in_status := IS_approved, in_client_order_id := Some cid\<rparr>)) (\<lambda>_.
       and_then (request (C_reduce (t_symbol t0) half cid) (\<lambda>n. xe_reduce env n (t_symbol t0) cid)) (\<lambda>r.
       and_then (update_intent (in_id i) (\<lambda>x. x\<lparr>in_status := (case rc_outcome r of OO_failed \<Rightarrow> IS_failed | OO_unknown \<Rightarrow> IS_unknown
           | _ \<Rightarrow> IS_filled), in_error := map_option CR_text (rc_error r)\<rparr>)) (\<lambda>_.
       and_then (only_if (rc_outcome r = OO_filled) (and_then (reread t0) (\<lambda>u. and_then (clock env) (\<lambda>now.
           saveThread (stamp_thread now (u\<lparr>t_qty := to_fixed decimals (js_number (pv_qty pos) - js_number half)\<rparr>)))))) (\<lambda>_.
       pollAccount env))))))))"

definition closeThread :: "exec_env \<Rightarrow> string \<Rightarrow> unit act" where
  "closeThread env tid = and_then (reading (\<lambda>s. thread_at s tid)) (\<lambda>found. case found of None \<Rightarrow> throw Not_found
   | Some t \<Rightarrow> and_then (require (isOpen t) Conflict) (\<lambda>_.
       and_then (require (\<not> (t_status t = Pending_entry \<and> t_entry_submitting_since t \<noteq> None)) Conflict) (\<lambda>_.
       closeThreadNow env t None CR_manual_close)))"

section \<open>Halting\<close>

function base36 :: "nat \<Rightarrow> string" where
  "base36 n = (let d = (if n mod 36 < 10 then digit (int (n mod 36)) else char_of (87 + int (n mod 36))) in
     if n < 36 then [d] else base36 (n div 36) @ [d])"
  by pat_completeness auto
termination by (relation "measure id") auto

definition clock_tag :: "int \<Rightarrow> string" where
  "clock_tag now = (let s = base36 (nat now) in drop (length s - 6) s)"

fun collect :: "('a \<Rightarrow> bool act) \<Rightarrow> 'a list \<Rightarrow> 'a list act" where
  "collect f [] = ret []"
| "collect f (x # xs) = and_then (f x) (\<lambda>b. and_then (collect f xs) (\<lambda>ys. ret (if b then x # ys else ys)))"

text \<open>Whether the halt could not be proven for a symbol.\<close>

definition halt_symbol :: "exec_env \<Rightarrow> string \<Rightarrow> bool act" where
  "halt_symbol env symbol = and_then (ack env (C_cancel_all symbol)) (\<lambda>(c_ok, _). and_then (clock env) (\<lambda>now.
     and_then (close_position env symbol (''tgd-halt-'' @ clock_tag now)) (\<lambda>(closed, err, _).
     and_then (reading (\<lambda>s. held s symbol \<noteq> None)) (\<lambda>had.
     ret (\<not> c_ok \<or> filled_text err \<or> \<not> closed \<and> had)))))"

definition halt_thread :: "exec_env \<Rightarrow> string list \<Rightarrow> thread \<Rightarrow> unit act" where
  "halt_thread env missed t = and_then (clock env) (\<lambda>now. saveThread (stamp_thread now (
     if t_symbol t \<in> set missed then t\<lparr>t_attention := Some ''HALT_INCOMPLETE''\<rparr>
     else t\<lparr>t_status := ended_status t, t_closed_at := Some now, t_close_reason := Some CR_halt\<rparr>)))"

definition halt :: "exec_env \<Rightarrow> unit act" where
  "halt env = and_then (change (\<lambda>s. s\<lparr>rt_halted := True\<rparr>)) (\<lambda>_. and_then (kv_set ''demo.halted'' ''1'') (\<lambda>_.
     and_then (reading (\<lambda>s. uniq (List.map t_symbol (openThreads s) @
        (case rt_account s of None \<Rightarrow> [] | Some a \<Rightarrow> List.map pv_symbol (av_positions a))))) (\<lambda>symbols.
     and_then (collect (halt_symbol env) symbols) (\<lambda>missed.
     and_then (reading openThreads) (\<lambda>ts. and_then (each (halt_thread env missed) ts) (\<lambda>_. pollAccount env))))))"

section \<open>Approval\<close>

definition intent_kind_str :: "intent_kind \<Rightarrow> string" where
  "intent_kind_str k = (case k of IK_open \<Rightarrow> ''open'' | IK_close \<Rightarrow> ''close'' | IK_reduce \<Rightarrow> ''reduce'')"

definition intent_status_str :: "intent_status \<Rightarrow> string" where
  "intent_status_str st = (case st of IS_pending_approval \<Rightarrow> ''pending_approval'' | IS_approved \<Rightarrow> ''approved''
     | IS_rejected \<Rightarrow> ''rejected'' | IS_submitted \<Rightarrow> ''submitted'' | IS_filled \<Rightarrow> ''filled'' | IS_failed \<Rightarrow> ''failed''
     | IS_unknown \<Rightarrow> ''unknown'')"

definition intent_view :: "intent \<Rightarrow> json" where
  "intent_view i = JObj [(''id'', JStr (in_id i)), (''kind'', JStr (intent_kind_str (in_kind i))), (''symbol'', JStr (in_symbol i)),
     (''direction'', JStr (if in_direction i = Long then ''long'' else ''short'')), (''quantity'', JStr (in_quantity i)),
     (''entry'', JStr (if in_entry i = Market then ''market'' else ''limit'')), (''limit_price'', opt_str (in_limit_price i)),
     (''stop_price'', opt_str (in_stop_price i)), (''take_profit_price'', opt_str (in_take_profit_price i)),
     (''status'', JStr (intent_status_str (in_status i))), (''backend'', JStr (backend_text (in_backend i)))]"

definition intentFingerprint :: "exec_env \<Rightarrow> intent \<Rightarrow> string" where
  "intentFingerprint env i = fingerprintOf (xe_sha256 env) stringify (intent_view i)"

definition find_intent :: "string \<Rightarrow> intent act" where
  "find_intent iid = and_then (reading (\<lambda>s. map_of (rt_intents s) iid)) (\<lambda>found. case found of None \<Rightarrow> throw Not_found
   | Some i \<Rightarrow> and_then (require (in_status i = IS_pending_approval) Conflict) (\<lambda>_. ret i))"

definition issueIntentConfirmation :: "exec_env \<Rightarrow> string \<Rightarrow> confirm_token act" where
  "issueIntentConfirmation env iid = and_then (find_intent iid) (\<lambda>i. and_then (clock env) (\<lambda>n1. and_then (fresh_id env) (\<lambda>nonce.
     and_then (clock env) (\<lambda>n2. and_then (clock env) (\<lambda>n3. and_then (reading rt_tokens) (\<lambda>m.
     let (t, m') = issue (n1, n2, n3) nonce m CK_intent iid (intentFingerprint env i) in
     and_then (change (\<lambda>s. s\<lparr>rt_tokens := m'\<rparr>)) (\<lambda>_. ret t)))))))"

definition use_token :: "exec_env \<Rightarrow> string option \<Rightarrow> confirm_kind \<Rightarrow> string \<Rightarrow> string \<Rightarrow> unit act" where
  "use_token env nonce kind target fp = and_then (clock env) (\<lambda>n1. and_then (clock env) (\<lambda>n2. and_then (reading rt_tokens) (\<lambda>m.
     let (r, m') = consume (n1, n2) m nonce kind target fp in
     and_then (change (\<lambda>s. s\<lparr>rt_tokens := m'\<rparr>)) (\<lambda>_. require (r = Inr ()) Confirm_refused))))"

text \<open>Who approves: a person with a token, or the agent where the settings let it.\<close>

definition consent :: "exec_env \<Rightarrow> bool \<Rightarrow> string option \<Rightarrow> intent \<Rightarrow> unit act" where
  "consent env by_agent nonce i = (if by_agent
     then and_then (reading (\<lambda>s. w_chat_requires_approval (rt_workflow s))) (\<lambda>need. require (\<not> need) Confirm_refused)
     else use_token env nonce CK_intent (in_id i) (intentFingerprint env i))"

definition carry_out :: "exec_env \<Rightarrow> intent \<Rightarrow> thread \<Rightarrow> unit act" where
  "carry_out env i t = (case in_kind i of IK_open \<Rightarrow> executeOpen env t i
   | IK_close \<Rightarrow> and_then (update_intent (in_id i) (\<lambda>x. x\<lparr>in_status := IS_approved\<rparr>)) (\<lambda>_.
       and_then (closeThreadNow env t (if in_episode_id i = [] then None else Some (in_episode_id i))
          (case in_error i of Some r \<Rightarrow> r | None \<Rightarrow> CR_user_confirmed)) (\<lambda>_.
       and_then (reading (\<lambda>s. thread_at s (t_id t))) (\<lambda>after.
       update_intent (in_id i) (\<lambda>x. x\<lparr>in_status := (case after of Some u \<Rightarrow> if isOpen u then IS_failed else IS_filled
         | None \<Rightarrow> IS_failed)\<rparr>))))
   | IK_reduce \<Rightarrow> ret ())"

definition approveIntent :: "exec_env \<Rightarrow> string \<Rightarrow> string option \<Rightarrow> bool \<Rightarrow> unit act" where
  "approveIntent env iid nonce by_agent = and_then (find_intent iid) (\<lambda>i. and_then (consent env by_agent nonce i) (\<lambda>_.
     and_then (reading (\<lambda>s. Option.bind (in_thread_id i) (thread_at s))) (\<lambda>found. case found of None \<Rightarrow> throw Not_found
     | Some t \<Rightarrow> and_then (require (isOpen t) Conflict) (\<lambda>_.
         and_then (reading (\<lambda>s. (rt_halted s, w_paused (rt_workflow s)))) (\<lambda>(h, p).
         and_then (require (\<not> h) Conflict) (\<lambda>_. and_then (require (\<not> p) Conflict) (\<lambda>_. carry_out env i t)))))))"

definition rejectIntent :: "exec_env \<Rightarrow> string \<Rightarrow> unit act" where
  "rejectIntent env iid = and_then (find_intent iid) (\<lambda>i.
     and_then (update_intent iid (\<lambda>x. x\<lparr>in_status := IS_rejected, in_error := Some CR_intent_rejected\<rparr>)) (\<lambda>_.
     and_then (reading (\<lambda>s. Option.bind (in_thread_id i) (thread_at s))) (\<lambda>found. case found of None \<Rightarrow> ret ()
     | Some t \<Rightarrow> and_then (clock env) (\<lambda>now. saveThread (stamp_thread now (t\<lparr>t_status := Canceled, t_closed_at := Some now,
         t_close_reason := Some CR_user_rejected\<rparr>))))))"

text \<open>The chat tool that proposes to close a thread.\<close>

definition propose_close :: "exec_env \<Rightarrow> string \<Rightarrow> string option act" where
  "propose_close env tid = and_then (reading (\<lambda>s. thread_at s tid)) (\<lambda>found. case found of None \<Rightarrow> ret None
   | Some t \<Rightarrow> if \<not> isOpen t then ret None
     else and_then (reading (\<lambda>s. (held s (t_symbol t), equity_text s))) (\<lambda>(pos, equity).
       and_then (newIntent env None t By_agent (market_part IK_close t (case pos of None \<Rightarrow> t_qty t | Some p \<Rightarrow> pv_qty p) equity ''0'')) (\<lambda>i.
       and_then (update_intent (in_id i) (\<lambda>x. x\<lparr>in_error := Some CR_chat_close\<rparr>)) (\<lambda>_. ret (Some (in_id i))))))"

end
