(* ===== verification/Orders.thy ===== *)
theory Orders imports Controls begin

text \<open>
  New threads (\<open>runtime.ts\<close>): from a judgment that passed its gates, from the order panel, and over a position that
  belongs to no thread. What an episode records on the way is left out.
\<close>

definition fetch_market :: "exec_env \<Rightarrow> string \<Rightarrow> market_view act" where
  "fetch_market env symbol = request (C_market symbol) (\<lambda>n. xe_market env n symbol)"

definition get_rules :: "exec_env \<Rightarrow> string \<Rightarrow> symbol_rules act" where
  "get_rules env symbol = request (C_rules symbol) (\<lambda>n. xe_rules env n symbol)"

definition limit_given :: "proposal \<Rightarrow> bool" where
  "limit_given p = (p_entry p = Limit \<and> filled_text (p_limit_price p))"

definition proposed_thread :: "string \<Rightarrow> int \<Rightarrow> rt \<Rightarrow> string \<Rightarrow> judgement \<Rightarrow> proposal \<Rightarrow> thread_source \<Rightarrow> string \<Rightarrow> market_view \<Rightarrow> thread" where
  "proposed_thread tid now s symbol j p src qty market = newThread \<lparr>ni_id = tid, ni_backend = Some (rt_backend s), ni_symbol = symbol,
     ni_side = p_direction p, ni_source = src, ni_timeframe = w_timeframe (rt_workflow s), ni_thesis = j_thesis j,
     ni_invalidation_text = j_invalidation j, ni_watch_conditions = j_watch_conditions j,
     ni_entry = \<lparr>en_type = p_entry p, en_price = (if p_entry p = Limit then p_limit_price p else None), en_zone = p_entry_zone p\<rparr>,
     ni_stop_price = Some (p_stop_price p), ni_take_profits = p_take_profits p, ni_qty = qty,
     ni_margin_usdt = Some (to_fixed 2 (js_number qty * js_number (if limit_given p then the (p_limit_price p) else mv_mark market)
        / w_leverage (rt_workflow s))),
     ni_leverage = w_leverage (rt_workflow s), ni_margin_mode = w_margin_mode (rt_workflow s), ni_strategy_id = None, ni_now = now\<rparr>"

definition open_part :: "proposal \<Rightarrow> string \<Rightarrow> sizing \<Rightarrow> intent_part" where
  "open_part p qty sz = \<lparr>ip_kind = IK_open, ip_direction = p_direction p, ip_quantity = qty, ip_entry = p_entry p,
     ip_limit_price = p_limit_price p, ip_stop_price = Some (p_stop_price p),
     ip_take_profit_price = (case p_take_profits p of [] \<Rightarrow> None | x # _ \<Rightarrow> Some x), ip_sizing = sz\<rparr>"

definition openThreadFromProposal :: "exec_env \<Rightarrow> string \<Rightarrow> string \<Rightarrow> judgement \<Rightarrow> market_view \<Rightarrow> thread_source \<Rightarrow> bool \<Rightarrow> unit act" where
  "openThreadFromProposal env ep symbol j stale src forceApproval = (case j_proposal j of None \<Rightarrow> throw Thrown
   | Some p \<Rightarrow> and_then (get_rules env symbol) (\<lambda>rules.
     and_then (get_account env) (\<lambda>acct. and_then (change (\<lambda>s. s\<lparr>rt_account := Some acct\<rparr>)) (\<lambda>_.
     and_then (attempt (fetch_market env symbol)) (\<lambda>m. let market = (case m of None \<Rightarrow> stale | Some x \<Rightarrow> x) in
     and_then (clock env) (\<lambda>now0. and_then (reading (preflightOpen now0 symbol acct None)) (\<lambda>blockers.
     and_then (require (blockers = []) Conflict) (\<lambda>_.
     and_then (reading (\<lambda>s. computeSizing j acct market rules ((xe_gates env)\<lparr>gc_risk_pct := js_number (w_risk_pct (rt_workflow s))\<rparr>) no_options)) (\<lambda>sz.
     case sz of None \<Rightarrow> throw Thrown
     | Some (qty, sizing, ok) \<Rightarrow> and_then (fresh_id env) (\<lambda>tid. and_then (clock env) (\<lambda>now.
       and_then (reading (\<lambda>s. proposed_thread tid now s symbol j p src qty market)) (\<lambda>t0.
       let t = t0\<lparr>t_episode_ids := [ep]\<rparr> in
       and_then (saveThread t) (\<lambda>_. and_then (newIntent env (Some ep) t By_agent (open_part p qty sizing)) (\<lambda>i.
       if \<not> ok then and_then (update_intent (in_id i) (\<lambda>x. x\<lparr>in_status := IS_rejected, in_error := Some CR_bad_quantity\<rparr>)) (\<lambda>_.
         and_then (clock env) (\<lambda>now2. saveThread (t\<lparr>t_status := Canceled, t_closed_at := Some now2, t_close_reason := Some CR_bad_quantity,
           t_version := 2, t_updated_at := now2\<rparr>)))
       else and_then (reading (\<lambda>s. w_auto_approve (rt_workflow s))) (\<lambda>auto.
         if (\<not> auto \<or> forceApproval) \<and> src \<noteq> SrcManual then ret () else executeOpen env t i)))))))))))))))"

section \<open>Adopting a position\<close>

definition exit_order :: "direction \<Rightarrow> string \<Rightarrow> bool \<Rightarrow> open_order_view \<Rightarrow> bool" where
  "exit_order side symbol tp x = (ov_symbol x = symbol \<and> filled_text (ov_stop_price x) \<and>
     (if tp then has ''take_profit'' (lower (ov_type x)) else has ''stop'' (lower (ov_type x)) \<and> \<not> has ''take_profit'' (lower (ov_type x))) \<and>
     has (if side = Long then ''sell'' else ''buy'') (lower (ov_side x)))"

definition given_text :: "string option \<Rightarrow> string option" where
  "given_text v = (case v of None \<Rightarrow> None | Some x \<Rightarrow> if js_trim x = [] then None else Some (js_trim x))"

definition or_else :: "'a option \<Rightarrow> 'a option \<Rightarrow> 'a option" where "or_else a b = (case a of None \<Rightarrow> b | Some _ \<Rightarrow> a)"

definition mark_ref :: "position_view \<Rightarrow> jsnum" where
  "mark_ref p = (if Fin 0 < js_number (pv_mark_price p) then js_number (pv_mark_price p) else js_number (pv_entry_price p))"

definition right_side :: "direction \<Rightarrow> jsnum \<Rightarrow> jsnum \<Rightarrow> bool" where
  "right_side side stop ref = (if side = Long then stop < ref else ref < stop)"

definition order_id :: "open_order_view option \<Rightarrow> string list" where
  "order_id x = (case x of None \<Rightarrow> [] | Some v \<Rightarrow> if ov_client_order_id v = [] then [] else [ov_client_order_id v])"

definition adopted_thread :: "string \<Rightarrow> int \<Rightarrow> rt \<Rightarrow> position_view \<Rightarrow> string \<Rightarrow> string option \<Rightarrow> string list \<Rightarrow> thread" where
  "adopted_thread tid now s pos stop tp ids = (
     let leverage = (if Fin 0 < pv_leverage pos then pv_leverage pos else w_leverage (rt_workflow s)) in
     (newThread \<lparr>ni_id = tid, ni_backend = Some (rt_backend s), ni_symbol = pv_symbol pos, ni_side = pv_side pos, ni_source = SrcManual,
       ni_timeframe = w_timeframe (rt_workflow s), ni_thesis = [], ni_invalidation_text = None, ni_watch_conditions = [],
       ni_entry = \<lparr>en_type = Market, en_price = Some (pv_entry_price pos), en_zone = None\<rparr>, ni_stop_price = Some stop,
       ni_take_profits = (case tp of None \<Rightarrow> [] | Some x \<Rightarrow> [x]), ni_qty = pv_qty pos,
       ni_margin_usdt = Some (to_fixed 2 (\<bar>js_number (pv_qty pos)\<bar> * mark_ref pos / leverage)), ni_leverage = leverage,
       ni_margin_mode = w_margin_mode (rt_workflow s), ni_strategy_id = None, ni_now = now\<rparr>)
     \<lparr>t_status := In_position, t_opened_at := Some now, t_filled_avg_price := Some (pv_entry_price pos),
      t_protection_client_order_ids := ids\<rparr>)"

definition clear_algo_orders :: "exec_env \<Rightarrow> string \<Rightarrow> unit act" where
  "clear_algo_orders env symbol = (case xe_list_algo env of None \<Rightarrow> ret ()
   | Some q \<Rightarrow> and_then (request (C_list_algo symbol) (\<lambda>n. q n symbol)) (\<lambda>stale.
       each (\<lambda>cid. and_then (ack env (C_cancel_algo symbol cid)) (\<lambda>_. ret ())) (case stale of None \<Rightarrow> [] | Some xs \<Rightarrow> xs)))"

definition adoptPosition :: "exec_env \<Rightarrow> string \<Rightarrow> string option \<Rightarrow> string option \<Rightarrow> unit act" where
  "adoptPosition env symbolIn stop_in tp_in = (let symbol = upper symbolIn in
     and_then (reading rt_halted) (\<lambda>h. and_then (require (\<not> h) Conflict) (\<lambda>_.
     and_then (reading openThreads) (\<lambda>ts. and_then (require (\<not> list_ex (\<lambda>t. t_symbol t = symbol) ts) Conflict) (\<lambda>_.
     and_then (get_account env) (\<lambda>acct. and_then (change (\<lambda>s. s\<lparr>rt_account := Some acct\<rparr>)) (\<lambda>_.
     case List.find (\<lambda>p. pv_symbol p = symbol \<and> \<not> js_eq (js_number (pv_qty p)) (Fin 0)) (av_positions acct) of None \<Rightarrow> throw Conflict
     | Some pos \<Rightarrow> let xstop = List.find (exit_order (pv_side pos) symbol False) (av_open_orders acct);
           xtp = List.find (exit_order (pv_side pos) symbol True) (av_open_orders acct) in
       (case or_else (given_text stop_in) (Option.bind xstop ov_stop_price) of None \<Rightarrow> throw Bad_request
        | Some stop \<Rightarrow>
          and_then (require (Fin 0 < js_number stop \<and> right_side (pv_side pos) (js_number stop) (mark_ref pos)) Bad_request) (\<lambda>_.
          let tp = or_else (given_text tp_in) (Option.bind xtp ov_stop_price);
            own_stop = (\<not> filled_text stop_in \<and> xstop \<noteq> None); own_tp = (tp \<noteq> None \<and> \<not> filled_text tp_in \<and> xtp \<noteq> None) in
          and_then (clock env) (\<lambda>now. and_then (fresh_id env) (\<lambda>tid.
          and_then (reading (\<lambda>s. adopted_thread tid now s pos stop tp
             ((if own_stop then order_id xstop else []) @ (if own_tp then order_id xtp else [])))) (\<lambda>t.
          and_then (saveThread t) (\<lambda>_.
          and_then (only_if (\<not> own_stop \<or> tp \<noteq> None \<and> \<not> own_tp)
            (and_then (only_if (\<not> own_stop) (clear_algo_orders env symbol)) (\<lambda>_. placeProtection env t None))) (\<lambda>_.
          pollAccount env))))))))))))))"

section \<open>The order panel\<close>

record manual_order =
  mo_symbol :: string
  mo_side :: direction
  mo_type :: entry_kind
  mo_price :: "string option"
  mo_margin_usdt :: "string option"
  mo_leverage :: "jsnum option"
  mo_qty :: "string option"
  mo_tp :: "string option"
  mo_sl :: "string option"
  mo_margin_mode :: "margin_mode option"

definition market_of :: "exec_env \<Rightarrow> string \<Rightarrow> market_view act" where
  "market_of env symbol = and_then (reading (\<lambda>s. map_of (rt_markets s) symbol)) (\<lambda>m.
     and_then (case m of Some x \<Rightarrow> ret x | None \<Rightarrow> fetch_market env symbol) (\<lambda>x.
     and_then (change (\<lambda>s. s\<lparr>rt_markets := map_set (rt_markets s) symbol x\<rparr>)) (\<lambda>_. ret x)))"

text \<open>The close button: of a thread, or of a position that belongs to none.\<close>

definition manual_close :: "exec_env \<Rightarrow> string \<Rightarrow> direction \<Rightarrow> unit act" where
  "manual_close env symbolIn side = (let symbol = upper symbolIn in
     and_then (reading rt_halted) (\<lambda>h. and_then (require (\<not> h) Conflict) (\<lambda>_. and_then (market_of env symbol) (\<lambda>_.
     and_then (reading openThreads) (\<lambda>ts. case List.find (\<lambda>t. t_symbol t = symbol) ts of
       Some t \<Rightarrow> and_then (require (t_side t = side) Conflict) (\<lambda>_. closeThreadNow env t None CR_manual_close)
     | None \<Rightarrow> and_then (reading (\<lambda>s. held s symbol)) (\<lambda>found. case found of None \<Rightarrow> throw Conflict
         | Some pos \<Rightarrow> and_then (require (pv_side pos = side) Conflict) (\<lambda>_.
             and_then (ack env (C_cancel_all symbol)) (\<lambda>_. and_then (clock env) (\<lambda>now.
             and_then (close_position env symbol (''tgd-manual-'' @ clock_tag now)) (\<lambda>(_, err, _).
             and_then (require (\<not> filled_text err) Bad_gateway) (\<lambda>_. pollAccount env)))))))))))"

definition manual_ref :: "manual_order \<Rightarrow> market_view \<Rightarrow> jsnum" where
  "manual_ref req market = js_number (if mo_type req = Limit \<and> filled_text (mo_price req) then the (mo_price req) else mv_mark market)"

definition manual_qty :: "manual_order \<Rightarrow> jsnum \<Rightarrow> jsnum \<Rightarrow> jsnum \<Rightarrow> jsnum" where
  "manual_qty req leverage ref step = (
     let q = (if filled_text (mo_qty req) then js_number (the (mo_qty req))
        else if filled_text (mo_margin_usdt req) then js_number (the (mo_margin_usdt req)) * leverage / ref else Fin 0)
     in js_floor (q / step + lit (1/10^9)) * step)"

definition limit_price_of :: "manual_order \<Rightarrow> string option" where
  "limit_price_of req = (if mo_type req = Limit then mo_price req else None)"

definition manual_thread :: "string \<Rightarrow> int \<Rightarrow> rt \<Rightarrow> manual_order \<Rightarrow> string \<Rightarrow> string \<Rightarrow> jsnum \<Rightarrow> jsnum \<Rightarrow> jsnum \<Rightarrow> thread" where
  "manual_thread tid now s req symbol qty q ref leverage = newThread \<lparr>ni_id = tid, ni_backend = Some (rt_backend s), ni_symbol = symbol,
     ni_side = mo_side req, ni_source = SrcManual, ni_timeframe = w_timeframe (rt_workflow s), ni_thesis = [],
     ni_invalidation_text = None, ni_watch_conditions = [],
     ni_entry = \<lparr>en_type = mo_type req, en_price = limit_price_of req, en_zone = None\<rparr>, ni_stop_price = mo_sl req,
     ni_take_profits = (if filled_text (mo_tp req) then [the (mo_tp req)] else []), ni_qty = qty,
     ni_margin_usdt = Some (case mo_margin_usdt req of Some m \<Rightarrow> m | None \<Rightarrow> to_fixed 2 (q * ref / leverage)),
     ni_leverage = leverage, ni_margin_mode = (case mo_margin_mode req of Some m \<Rightarrow> m | None \<Rightarrow> w_margin_mode (rt_workflow s)),
     ni_strategy_id = None, ni_now = now\<rparr>"

definition manual_open :: "exec_env \<Rightarrow> manual_order \<Rightarrow> unit act" where
  "manual_open env req = (let symbol = upper (mo_symbol req) in
     and_then (reading rt_halted) (\<lambda>h. and_then (require (\<not> h) Conflict) (\<lambda>_. and_then (market_of env symbol) (\<lambda>market.
     and_then (reading (\<lambda>s. js_max (Fin 1) (js_round (case mo_leverage req of Some l \<Rightarrow> l | None \<Rightarrow> w_leverage (rt_workflow s))))) (\<lambda>leverage.
     and_then (require (\<not> snd (b_leverage WORKFLOW_BOUNDS) < leverage) Bad_request) (\<lambda>_.
     and_then (require (filled_text (mo_sl req)) Bad_request) (\<lambda>_. let ref = manual_ref req market; sl = the (mo_sl req) in
     and_then (get_rules env symbol) (\<lambda>rules. let q = manual_qty req leverage ref (or_step (sr_step_size rules));
         qty = to_fixed (step_decimals (sr_step_size rules)) q in
     and_then (require (Fin 0 < q) Bad_request) (\<lambda>_.
     and_then (require (\<not> q * ref < js_number (sr_min_notional rules)) Bad_request) (\<lambda>_.
     and_then (require (right_side (mo_side req) (js_number sl) ref) Bad_request) (\<lambda>_.
     and_then (require (filled_text (mo_tp req) \<longrightarrow> (if mo_side req = Long then ref < js_number (the (mo_tp req))
        else js_number (the (mo_tp req)) < ref)) Bad_request) (\<lambda>_.
     and_then (reading rt_account) (\<lambda>known. and_then (case known of Some a \<Rightarrow> ret a | None \<Rightarrow> get_account env) (\<lambda>acct.
     and_then (require (\<not> js_number (av_equity acct) * gc_max_notional_multiple (xe_gates env) < q * ref) Bad_request) (\<lambda>_.
     and_then (clock env) (\<lambda>now0. and_then (reading (preflightOpen now0 symbol acct None)) (\<lambda>blockers.
     and_then (require (blockers = []) Conflict) (\<lambda>_.
     and_then (fresh_id env) (\<lambda>tid. and_then (clock env) (\<lambda>now.
     and_then (reading (\<lambda>s. manual_thread tid now s req symbol qty q ref leverage)) (\<lambda>t.
     and_then (saveThread t) (\<lambda>_. and_then (reading equity_text) (\<lambda>equity.
     and_then (newIntent env None t By_user \<lparr>ip_kind = IK_open, ip_direction = mo_side req, ip_quantity = qty, ip_entry = mo_type req,
        ip_limit_price = limit_price_of req, ip_stop_price = mo_sl req, ip_take_profit_price = mo_tp req,
        ip_sizing = \<lparr>sz_equity = equity, sz_risk_pct = ''0'', sz_risk_usdt = ''0'', sz_stop_distance = ''0'', sz_raw_qty = qty,
          sz_step_size = sr_step_size rules, sz_note = []\<rparr>\<rparr>) (\<lambda>i.
     executeOpen env t i))))))))))))))))))))))))"

section \<open>What a judgment leads to\<close>

definition patched :: "review_decision \<Rightarrow> thread \<Rightarrow> thread" where
  "patched d t = (case rd_patch d of None \<Rightarrow> t
     | Some p \<Rightarrow> t\<lparr>t_thesis := rp_thesis p, t_invalidation_text := rp_invalidation_text p, t_watch_conditions := rp_watch_conditions p,
         t_close_reason := (case rp_close_reason p of Some r \<Rightarrow> Some r | None \<Rightarrow> t_close_reason t)\<rparr>)"

definition decided_reason :: "review_decision \<Rightarrow> close_reason \<Rightarrow> close_reason" where
  "decided_reason d fallback = (case Option.bind (rd_patch d) rp_close_reason of Some r \<Rightarrow> r | None \<Rightarrow> fallback)"

definition apply_review :: "exec_env \<Rightarrow> string \<Rightarrow> string \<Rightarrow> judgement \<Rightarrow> unit act" where
  "apply_review env tid ep j = and_then (reading (\<lambda>s. thread_at s tid)) (\<lambda>found. case found of None \<Rightarrow> ret ()
   | Some t \<Rightarrow> if \<not> isOpen t then ret ()
     else let d = reduceReview t j in and_then (clock env) (\<lambda>now.
       let next = (patched d t)\<lparr>t_episode_ids := t_episode_ids t @ [ep], t_version := t_version t + 1, t_updated_at := now\<rparr> in
       and_then (saveThread next) (\<lambda>_. if \<not> rd_accepted d then ret ()
         else case rd_effect d of Eff_cancel_entry \<Rightarrow> cancelEntry env next (decided_reason d CR_cancel_default)
         | Eff_close \<Rightarrow> closeThreadNow env next (Some ep) (decided_reason d CR_exit_default)
         | Eff_reduce_half \<Rightarrow> reduceHalf env next ep
         | _ \<Rightarrow> ret ())))"

definition positions_of :: "string \<Rightarrow> account_view \<Rightarrow> account_view" where
  "positions_of symbol a = a\<lparr>av_positions := filter (\<lambda>p. pv_symbol p = symbol) (av_positions a)\<rparr>"

definition scan_passes :: "gate_config \<Rightarrow> int \<Rightarrow> int \<Rightarrow> rt \<Rightarrow> string \<Rightarrow> judgement \<Rightarrow> account_view \<Rightarrow> market_view \<Rightarrow> string set \<Rightarrow> bool" where
  "scan_passes cfg since now s symbol j acct market stale = (let w = rt_workflow s; opens = threadOpensSince (utcDayStart since) None s in
     passes (evaluateGates j \<lparr>gx_halted = rt_halted s, gx_paused = w_paused w, gx_account = positions_of symbol acct, gx_market = market,
        gx_opens_today = opens, gx_stale_refs = stale, gx_now = Some now\<rparr>
        (cfg\<lparr>gc_risk_pct := js_number (w_risk_pct w), gc_max_opens_per_day := w_max_opens_per_day w\<rparr>)) \<and>
     openingBlockers (openThreads s) w symbol opens (dailyLossHit s) = [] \<and>
     \<not> list_ex (\<lambda>i. in_status i = IS_unknown) (store_intents 50 s))"

definition apply_scan :: "exec_env \<Rightarrow> string \<Rightarrow> int \<Rightarrow> string \<Rightarrow> judgement \<Rightarrow> account_view \<Rightarrow> market_view \<Rightarrow> string set \<Rightarrow> unit act" where
  "apply_scan env ep started symbol j acct market stale = (if j_action j \<noteq> PROPOSE \<or> j_proposal j = None then ret ()
     else and_then (clock env) (\<lambda>now. and_then (reading (\<lambda>s. scan_passes (xe_gates env) started now s symbol j acct market stale)) (\<lambda>ok.
       if ok then openThreadFromProposal env ep symbol j market SrcAgent False else ret ())))"

text \<open>The chat tool that proposes a thread: its proposal always waits for a person.\<close>

definition chat_judgement :: "proposal \<Rightarrow> judgement" where
  "chat_judgement p = \<lparr>j_action = PROPOSE, j_direction = Some (p_direction p), j_confidence = lit (6/10), j_headline = [],
     j_thesis = p_rationale p, j_reasons = [], j_evidence_refs = [], j_invalidation = None, j_invalidation_price = Some (p_stop_price p),
     j_target_price = p_take_profit_price p, j_watch_conditions = [], j_proposal = Some p, j_strategy_id = None\<rparr>"

definition chat_proposal :: "direction \<Rightarrow> entry_kind \<Rightarrow> string option \<Rightarrow> string \<Rightarrow> string list \<Rightarrow> string \<Rightarrow> proposal" where
  "chat_proposal side entry limit stop tps thesis = \<lparr>p_direction = side, p_entry = entry, p_limit_price = limit, p_entry_zone = None,
     p_stop_price = stop, p_take_profit_price = (case tps of [] \<Rightarrow> None | x # _ \<Rightarrow> Some x), p_take_profits = tps, p_rationale = thesis\<rparr>"

definition propose_thread :: "exec_env \<Rightarrow> string \<Rightarrow> string \<Rightarrow> proposal \<Rightarrow> bool act" where
  "propose_thread env ep symbolIn p = (let symbol = upper symbolIn; j = chat_judgement p in
     and_then (reading (\<lambda>s. map_of (rt_markets s) symbol)) (\<lambda>known.
     and_then (case known of Some m \<Rightarrow> ret m | None \<Rightarrow> fetch_market env symbol) (\<lambda>market.
     and_then (reading rt_account) (\<lambda>ka. and_then (case ka of Some a \<Rightarrow> ret a | None \<Rightarrow> get_account env) (\<lambda>acct.
     and_then (clock env) (\<lambda>now. and_then (reading (\<lambda>s.
       openingBlockers (openThreads s) (rt_workflow s) symbol (threadOpensSince (utcDayStart now) None s) (dailyLossHit s) = [] \<and>
       passes (evaluateGates j \<lparr>gx_halted = rt_halted s, gx_paused = w_paused (rt_workflow s), gx_account = positions_of symbol acct,
         gx_market = market, gx_opens_today = 0, gx_stale_refs = {}, gx_now = None\<rparr>
         ((xe_gates env)\<lparr>gc_risk_pct := js_number (w_risk_pct (rt_workflow s))\<rparr>)))) (\<lambda>ok.
     if \<not> ok then ret False
     else and_then (openThreadFromProposal env ep symbol j market SrcChat True) (\<lambda>_. ret True))))))))"

end
