(* ===== verification/Keeping.thy ===== *)
theory Keeping imports Orders begin

text \<open>
  A calculus for the handlers of the runtime: \<open>keeps J c m Q\<close> says that m keeps the state property J on every exit,
  adds only requests c allows to the trace, and gives results with Q. The rules are read backward over the code of a
  handler, as a weakest precondition. \<open>good\<close> is the state property in use: the halt flag, a property of every stored
  thread, which threads exist and which identifiers are still to come, and what is known of the account.
\<close>

section \<open>Rules\<close>

named_theorems keeps_rules

definition keeps :: "(rt \<Rightarrow> bool) \<Rightarrow> (call \<Rightarrow> bool) \<Rightarrow> 'a act \<Rightarrow> ('a \<Rightarrow> bool) \<Rightarrow> bool" where
  "keeps J c m Q = (\<forall>s. J s \<longrightarrow> J (snd (m s)) \<and> (\<exists>new. rt_calls (snd (m s)) = rt_calls s @ new \<and> list_all c new) \<and>
     (\<forall>x. fst (m s) = Inr x \<longrightarrow> Q x))"

lemma keepsI:
  assumes "\<And>s. J s \<Longrightarrow> J (snd (m s))" "\<And>s. J s \<Longrightarrow> \<exists>new. rt_calls (snd (m s)) = rt_calls s @ new \<and> list_all c new"
    "\<And>s x. J s \<Longrightarrow> fst (m s) = Inr x \<Longrightarrow> Q x"
  shows "keeps J c m Q"
  using assms unfolding keeps_def by blast

lemma keepsD:
  assumes "keeps J c m Q" "J s"
  shows "J (snd (m s))" "\<exists>new. rt_calls (snd (m s)) = rt_calls s @ new \<and> list_all c new" "fst (m s) = Inr x \<Longrightarrow> Q x"
  using assms unfolding keeps_def by blast+

lemma keeps_post:
  assumes "keeps J c m P" "\<And>x. P x \<Longrightarrow> Q x"
  shows "keeps J c m Q"
  using assms unfolding keeps_def by blast

lemma keeps_ret [keeps_rules]: "Q x \<Longrightarrow> keeps J c (ret x) Q"
  by (simp add: keeps_def ret_def)

lemma keeps_throw [keeps_rules]: "keeps J c (throw e) Q"
  by (simp add: keeps_def throw_def)

lemma keeps_and_then [keeps_rules]:
  assumes "keeps J c m (\<lambda>x. keeps J c (f x) Q)"
  shows "keeps J c (and_then m f) Q"
proof (rule keepsI)
  fix s assume s: "J s"
  obtain r s' where m: "m s = (r, s')" by fastforce
  note first = keepsD [OF assms s, unfolded m, simplified]
  obtain new where new: "rt_calls s' = rt_calls s @ new" "list_all c new" using first(2) by blast
  show "J (snd (and_then m f s))"
    using first keepsD(1) by (cases r) (fastforce simp: and_then_def m)+
  show "\<exists>n. rt_calls (snd (and_then m f s)) = rt_calls s @ n \<and> list_all c n"
  proof (cases r)
    case (Inr x)
    obtain more where "rt_calls (snd (f x s')) = rt_calls s' @ more" "list_all c more"
      using keepsD(2) [of J c "f x"] first Inr by blast
    then show ?thesis using new Inr by (simp add: and_then_def m)
  qed (use new in \<open>simp add: and_then_def m\<close>)
  show "Q y" if "fst (and_then m f s) = Inr y" for y
    using that first keepsD(3) [of J c] by (cases r) (fastforce simp: and_then_def m)+
qed

lemma keeps_attempt [keeps_rules]:
  assumes "keeps J c m (\<lambda>x. Q (Some x))" "Q None"
  shows "keeps J c (attempt m) Q"
proof (rule keepsI)
  fix s assume s: "J s"
  obtain r s' where m: "m s = (r, s')" by fastforce
  note first = keepsD [OF assms(1) s, unfolded m, simplified]
  show "J (snd (attempt m s))" using first by (cases r) (auto simp: attempt_def m)
  show "\<exists>n. rt_calls (snd (attempt m s)) = rt_calls s @ n \<and> list_all c n" using first by (cases r) (auto simp: attempt_def m)
  show "Q y" if "fst (attempt m s) = Inr y" for y using that first assms(2) by (cases r) (auto simp: attempt_def m)
qed

lemma keeps_reading [keeps_rules]: "(\<And>s. J s \<Longrightarrow> Q (f s)) \<Longrightarrow> keeps J c (reading f) Q"
  by (simp add: keeps_def reading_def)

lemma keeps_change [keeps_rules]:
  "(\<And>s. J s \<Longrightarrow> J (f s)) \<Longrightarrow> (\<And>s. rt_calls (f s) = rt_calls s) \<Longrightarrow> Q () \<Longrightarrow> keeps J c (change f) Q"
  by (simp add: keeps_def change_def)

lemma keeps_require [keeps_rules]: "(b \<Longrightarrow> Q ()) \<Longrightarrow> keeps J c (require b e) Q"
  by (simp add: require_def keeps_ret keeps_throw)

lemma keeps_only_if [keeps_rules]: "(b \<Longrightarrow> keeps J c m Q) \<Longrightarrow> (\<not> b \<Longrightarrow> Q ()) \<Longrightarrow> keeps J c (only_if b m) Q"
  by (simp add: only_if_def keeps_ret)

lemma keeps_option:
  "(m = None \<Longrightarrow> keeps J c a Q) \<Longrightarrow> (\<And>x. m = Some x \<Longrightarrow> keeps J c (b x) Q) \<Longrightarrow>
   keeps J c (case m of None \<Rightarrow> a | Some x \<Rightarrow> b x) Q"
  by (cases m) auto

lemma keeps_prod: "(\<And>a b. p = (a, b) \<Longrightarrow> keeps J c (f a b) Q) \<Longrightarrow> keeps J c (case p of (a, b) \<Rightarrow> f a b) Q"
  by (cases p) auto

lemma keeps_if: "(b \<Longrightarrow> keeps J c m Q) \<Longrightarrow> (\<not> b \<Longrightarrow> keeps J c n Q) \<Longrightarrow> keeps J c (if b then m else n) Q"
  by auto

lemma keeps_each:
  assumes "\<And>x. x \<in> set xs \<Longrightarrow> keeps J c (f x) (\<lambda>_. True)" "Q ()"
  shows "keeps J c (each f xs) Q"
  using assms
proof (induction xs)
  case (Cons x xs)
  have "keeps J c (each f xs) Q" by (rule Cons.IH) (use Cons.prems in auto)
  then show ?case using Cons.prems(1) [of x] by (auto intro!: keeps_and_then intro: keeps_post)
qed (auto intro: keeps_ret)

section \<open>The state property\<close>

text \<open>X holds every thread identifier in use, D those that must stay stored; A is what is known of the last account.\<close>

definition good :: "exec_env \<Rightarrow> bool \<Rightarrow> string set \<Rightarrow> string set \<Rightarrow> (account_view option \<Rightarrow> bool) \<Rightarrow> (thread \<Rightarrow> bool) \<Rightarrow> rt \<Rightarrow> bool" where
  "good env h D X A K s = (rt_halted s = h \<and> distinct (List.map fst (rt_threads s)) \<and> D \<subseteq> fst ` set (rt_threads s) \<and> A (rt_account s) \<and>
     list_all (\<lambda>(k, t). t_id t = k \<and> k \<in> X \<and> K t) (rt_threads s) \<and> (\<forall>n \<ge> rt_tick s. xe_fresh_id env n \<notin> X))"

lemma good_thread:
  assumes "good env h D X A K s" "thread_at s tid = Some t"
  shows "K t" "t_id t = tid" "tid \<in> X"
  using assms map_of_SomeD [of "rt_threads s" tid t] unfolding good_def thread_at_def list_all_iff by fastforce+

lemma good_stored:
  assumes "good env h D X A K s" "t \<in> set (List.map snd (rt_threads s))"
  shows "K t" "t_id t \<in> X"
  using assms unfolding good_def list_all_iff by fastforce+

lemma list_all_map_set: "list_all P m \<Longrightarrow> P (k, v) \<Longrightarrow> list_all P (map_set m k v)"
  by (induction m k v rule: map_set.induct) auto

lemma good_save:
  assumes "good env h D X A K s" "K t" "t_id t \<in> X"
  shows "good env h D X A K (s\<lparr>rt_threads := map_set (rt_threads s) (t_id t) t\<rparr>)"
  using assms by (auto simp: good_def intro: list_all_map_set distinct_map_set)

lemma good_upd [simp]:
  "good env h D X A K (s\<lparr>rt_intents := a\<rparr>) = good env h D X A K s" "good env h D X A K (s\<lparr>rt_kv := b\<rparr>) = good env h D X A K s"
  "good env h D X A K (s\<lparr>rt_markets := c\<rparr>) = good env h D X A K s" "good env h D X A K (s\<lparr>rt_retry_at := d\<rparr>) = good env h D X A K s"
  "good env h D X A K (s\<lparr>rt_events := e\<rparr>) = good env h D X A K s" "good env h D X A K (s\<lparr>rt_tokens := f\<rparr>) = good env h D X A K s"
  "good env h D X A K (s\<lparr>rt_calls := g\<rparr>) = good env h D X A K s"
  by (simp_all add: good_def)

lemma good_tick: "good env h D X A K s \<Longrightarrow> good env h D X A K (s\<lparr>rt_tick := rt_tick s + 1\<rparr>)"
  by (simp add: good_def)

lemma good_account: "good env h D X A K s \<Longrightarrow> A (Some a) \<Longrightarrow> good env h D X A K (s\<lparr>rt_account := Some a\<rparr>)"
  by (simp add: good_def)

lemma keeps_request [keeps_rules]:
  assumes "c call" "\<And>n x. answer n = Some x \<Longrightarrow> Q x"
  shows "keeps (good env h D X A K) c (request call answer) Q"
  using assms by (auto intro!: keepsI simp: request_def Let_def good_def split: option.splits)

lemma keeps_clock [keeps_rules]: "(\<And>n. Q (xe_now env n)) \<Longrightarrow> keeps (good env' h D X A K) c (clock env) Q"
  by (auto intro!: keepsI simp: clock_def good_def)

lemma keeps_fresh_id [keeps_rules]: "(\<And>n. xe_fresh_id env n \<notin> X \<Longrightarrow> Q (xe_fresh_id env n)) \<Longrightarrow> keeps (good env h D X A K) c (fresh_id env) Q"
  by (auto intro!: keepsI simp: fresh_id_def good_def)

lemma keeps_saveThread [keeps_rules]:
  "K t \<Longrightarrow> t_id t \<in> X \<Longrightarrow> Q () \<Longrightarrow> keeps (good env h D X A K) c (saveThread t) Q"
  unfolding saveThread_def by (intro keeps_change) (auto intro: good_save)

text \<open>A thread that is read again has the property when it was stored, or when the copy in hand has it.\<close>

lemma keeps_reread:
  assumes "K t \<or> t_id t \<in> D" "t_id t \<in> X" "\<And>u. K u \<Longrightarrow> t_id u = t_id t \<Longrightarrow> Q u"
  shows "keeps (good env h D X A K) c (reread t) Q"
  unfolding reread_def
proof (rule keeps_reading)
  fix s assume s: "good env h D X A K s"
  show "Q (case thread_at s (t_id t) of None \<Rightarrow> t | Some u \<Rightarrow> u)"
  proof (cases "thread_at s (t_id t)")
    case None
    then have "t_id t \<notin> fst ` set (rt_threads s)" by (simp add: thread_at_def map_of_eq_None_iff)
    then show ?thesis using s assms None by (auto simp: good_def)
  qed (use s good_thread assms(3) in fastforce)
qed

lemma keeps_update_intent [keeps_rules]: "Q () \<Longrightarrow> keeps (good env h D X A K) c (update_intent iid f) Q"
  unfolding update_intent_def by (intro keeps_change) (auto split: option.split)

lemma keeps_kv_set [keeps_rules]: "Q () \<Longrightarrow> keeps (good env h D X A K) c (kv_set k v) Q"
  unfolding kv_set_def by (intro keeps_change) auto

end
