(* ===== verification/Upkeep.thy ===== *)
theory Upkeep imports Keeping begin

text \<open>
  The handlers keep what a property of threads must survive: the locale \<open>upkeep\<close> states it as laws (bookkeeping does
  not matter, a thread may end where the exchange gives a reason, an entry may fill) and shows once for all handlers that
  they keep such a property. Its interpretations give the safety properties of the runtime.
\<close>

section \<open>What happens to a thread\<close>

definition same_core :: "thread \<Rightarrow> thread \<Rightarrow> bool" where
  "same_core t u = (t_id u = t_id t \<and> t_symbol u = t_symbol t \<and> t_side u = t_side t \<and> t_status u = t_status t \<and>
     t_entry_client_order_id u = t_entry_client_order_id t)"

definition becomes :: "thread_status set \<Rightarrow> thread \<Rightarrow> thread \<Rightarrow> bool" where
  "becomes S t u = (t_id u = t_id t \<and> t_symbol u = t_symbol t \<and> t_side u = t_side t \<and> t_status u \<in> S)"

text \<open>The account lists a position of the thread's symbol, on its side.\<close>

definition reported :: "thread \<Rightarrow> account_view \<Rightarrow> bool" where
  "reported t a = (\<exists>p. List.find (\<lambda>p. pv_symbol p = t_symbol t) (av_positions a) = Some p \<and> pv_side p = t_side t)"

definition may_end :: "exec_env \<Rightarrow> thread \<Rightarrow> bool" where
  "may_end env t = (t_status t = Pending_entry \<or>
     (\<exists>n cid e r. xe_close env n (t_symbol t) cid = Some (True, e, r) \<and> \<not> filled_text e) \<or>
     (\<exists>n a. xe_account env n = Some a \<and> \<not> reported t a))"

fun protective :: "call \<Rightarrow> bool" where
  "protective (C_place_stop _ _ _ _ _) = True"
| "protective (C_take_profit _ _ _ _ _) = True"
| "protective _ = False"

fun entering :: "call \<Rightarrow> bool" where
  "entering (C_place_entry _ _) = True"
| "entering (C_open_protected _ _) = True"
| "entering _ = False"

text \<open>Not halted; kept folded, so that a proof does not turn the flag into a constant.\<close>

definition running :: "bool \<Rightarrow> bool" where "running h = (\<not> h)"

lemma mint_leg_split [simp]:
  "(case mint_leg env l t of (cid, u) \<Rightarrow> f cid u) = f (fst (mint_leg env l t)) (t\<lparr>t_leg_seq := t_leg_seq t + 1\<rparr>)"
  "snd (mint_leg env l t) = t\<lparr>t_leg_seq := t_leg_seq t + 1\<rparr>"
  by (simp_all add: mint_leg_def nextLegCid_def Let_def)

lemma not_has_symbol: "\<not> has_symbol (t_symbol t) a \<Longrightarrow> \<not> reported t a"
  by (auto simp: has_symbol_def reported_def list_ex_iff find_Some_iff)

lemma stamp_simps [simp]:
  "t_id (stamp_thread now t) = t_id t" "t_status (stamp_thread now t) = t_status t" "t_symbol (stamp_thread now t) = t_symbol t"
  "t_side (stamp_thread now t) = t_side t" "t_entry_client_order_id (stamp_thread now t) = t_entry_client_order_id t"
  by (simp_all add: stamp_thread_def)

lemma may_end_upd [simp]:
  "may_end env (t\<lparr>t_leg_seq := a\<rparr>) = may_end env t" "may_end env (t\<lparr>t_attention := b\<rparr>) = may_end env t"
  by (simp_all add: may_end_def reported_def)

text \<open>What the pass over the exchange facts makes of a thread.\<close>

lemma reconcile_moves:
  "let u = r_next (reconcileThread t f) in same_core t u \<or> (t_status t = Pending_entry \<and> becomes {In_position, Canceled} t u) \<or>
     (t_status t = In_position \<and> \<not> posMatches t f \<and> becomes {Closed} t u)"
  using case_reconcile [of t f]
  by (auto simp: reconcile_case_def may_move_def same_identity_def same_core_def becomes_def Let_def)

lemma paper_close_core: "same_core t (with_paper_close ev t)"
  by (simp add: with_paper_close_def same_core_def split: option.split)

section \<open>The laws\<close>

locale upkeep =
  fixes env :: exec_env and h :: bool and D :: "string set" and E :: "string set" and A :: "account_view option \<Rightarrow> bool"
    and K :: "thread \<Rightarrow> bool" and c :: "call \<Rightarrow> bool"
  assumes D_E: "D \<subseteq> E"
    and fresh: "t_id t \<notin> E \<Longrightarrow> K t"
    and same: "K t \<Longrightarrow> same_core t u \<Longrightarrow> K u"
    and ending: "K t \<or> t_id t \<in> D \<Longrightarrow> may_end env t \<Longrightarrow> K v \<Longrightarrow> t_id v = t_id t \<Longrightarrow> becomes {Closed, Canceled} v u \<Longrightarrow> K u"
    and filling: "K t \<or> t_id t \<in> D \<Longrightarrow> t_status t = Pending_entry \<Longrightarrow> K v \<Longrightarrow> t_id v = t_id t \<Longrightarrow> becomes {In_position} v u \<Longrightarrow> K u"
    and account: "xe_account env n = Some a \<Longrightarrow> A (Some a)"
    and calls: "\<not> entering cl \<Longrightarrow> (protective cl \<Longrightarrow> running h) \<Longrightarrow> c cl"
begin

abbreviation J :: "string set \<Rightarrow> rt \<Rightarrow> bool" where "J X \<equiv> good env h E X A K"

lemma K_upd [simp]:
  "K (t\<lparr>t_leg_seq := a\<rparr>) = K t" "K (t\<lparr>t_attention := b\<rparr>) = K t" "K (t\<lparr>t_version := d\<rparr>) = K t" "K (t\<lparr>t_updated_at := e\<rparr>) = K t"
  "K (t\<lparr>t_intent_ids := f\<rparr>) = K t" "K (t\<lparr>t_protection_client_order_ids := g\<rparr>) = K t" "K (t\<lparr>t_qty := q\<rparr>) = K t"
  "K (t\<lparr>t_entry_submitting_since := i\<rparr>) = K t" "K (t\<lparr>t_entry_submitted_at := j\<rparr>) = K t" "K (t\<lparr>t_close_reason := k\<rparr>) = K t"
  "K (t\<lparr>t_realized_pnl := l\<rparr>) = K t" "K (t\<lparr>t_exit_price := m\<rparr>) = K t" "K (t\<lparr>t_closed_at := p\<rparr>) = K t" "K (t\<lparr>t_opened_at := r\<rparr>) = K t"
  "K (t\<lparr>t_filled_avg_price := v\<rparr>) = K t" "K (t\<lparr>t_entry_lookup_misses := w\<rparr>) = K t" "K (t\<lparr>t_episode_ids := x\<rparr>) = K t"
  by (rule iffI; erule same; simp add: same_core_def)+

lemma K_stamp [simp]: "K (stamp_thread now t) = K t"
  by (simp add: stamp_thread_def)

lemma K_ended: "K t \<Longrightarrow> may_end env t \<Longrightarrow> st \<in> {Closed, Canceled} \<Longrightarrow> K (t\<lparr>t_status := st\<rparr>)"
  by (rule ending [of t t]) (auto simp: becomes_def)

text \<open>The reason may be known of an older copy of the thread.\<close>

lemma K_ended_copy:
  "K v \<Longrightarrow> t_id v = t_id t \<Longrightarrow> K t \<or> t_id t \<in> D \<Longrightarrow> may_end env t \<Longrightarrow> st \<in> {Closed, Canceled} \<Longrightarrow> K (v\<lparr>t_status := st\<rparr>)"
  by (rule ending [of t v]) (auto simp: becomes_def)

lemma K_filled:
  "K v \<Longrightarrow> t_id v = t_id t \<Longrightarrow> K t \<or> t_id t \<in> D \<Longrightarrow> t_status t = Pending_entry \<Longrightarrow> K (v\<lparr>t_status := In_position\<rparr>)"
  by (rule filling [of t v]) (auto simp: becomes_def)

lemma may_end_close: "xe_close env n (t_symbol t) cid = Some (True, e, r) \<Longrightarrow> \<not> filled_text e \<Longrightarrow> may_end env t"
  unfolding may_end_def by blast

lemma may_end_account: "xe_account env n = Some a \<Longrightarrow> \<not> has_symbol (t_symbol t) a \<Longrightarrow> may_end env t"
  unfolding may_end_def using not_has_symbol by blast

lemma J_thread: "thread_at s tid = Some t \<Longrightarrow> J X s \<Longrightarrow> K t \<and> t_id t = tid \<and> tid \<in> X"
  using good_thread [of env h E X A K s tid t] by simp

lemma keeps_reread_D [keeps_rules]:
  "K t \<or> t_id t \<in> D \<Longrightarrow> t_id t \<in> X \<Longrightarrow> (\<And>u. K u \<Longrightarrow> t_id u = t_id t \<Longrightarrow> Q u) \<Longrightarrow> keeps (J X) c (reread t) Q"
  using D_E by (intro keeps_reread) auto

lemma calls_ack: "\<not> entering cl \<Longrightarrow> \<not> protective cl \<Longrightarrow> c cl"
  by (rule calls) auto

lemma keeps_ack [keeps_rules]: "\<not> entering cl \<Longrightarrow> \<not> protective cl \<Longrightarrow> (\<And>x. Q x) \<Longrightarrow> keeps (J X) c (ack env cl) Q"
  unfolding ack_def by (intro keeps_request) (auto intro: calls_ack)

lemma keeps_get_account [keeps_rules]:
  "(\<And>n a. xe_account env n = Some a \<Longrightarrow> Q a) \<Longrightarrow> keeps (J X) c (get_account env) Q"
  unfolding get_account_def by (intro keeps_request) (auto intro: calls_ack)

lemma keeps_get_order [keeps_rules]: "(\<And>x. Q x) \<Longrightarrow> keeps (J X) c (get_order env symbol cid) Q"
  unfolding get_order_def by (intro keeps_request) (auto intro: calls_ack)

lemma keeps_close_position [keeps_rules]:
  "(\<And>n x. xe_close env n symbol cid = Some x \<Longrightarrow> Q x) \<Longrightarrow> keeps (J X) c (close_position env symbol cid) Q"
  unfolding close_position_def by (intro keeps_request) (auto intro: calls_ack)

section \<open>Bookkeeping\<close>

lemma keeps_resolveUnknown [keeps_rules]: "Q () \<Longrightarrow> keeps (J X) c (resolveUnknownIntents t ord) Q"
  unfolding resolveUnknownIntents_def by (intro keeps_rules keeps_each) auto

lemma keeps_resolveOpen [keeps_rules]: "Q () \<Longrightarrow> keeps (J X) c (resolveOpenIntents t fb) Q"
  unfolding resolveOpenIntents_def by (intro keeps_rules keeps_each) auto

lemma keeps_add_intent [keeps_rules]:
  "Q () \<Longrightarrow> keeps (J X) c (change (\<lambda>s. case thread_at s tid of None \<Rightarrow> s
     | Some u \<Rightarrow> s\<lparr>rt_threads := map_set (rt_threads s) (t_id u) (u\<lparr>t_intent_ids := t_intent_ids u @ [iid]\<rparr>)\<rparr>)) Q"
  by (intro keeps_change)
    (auto split: option.split dest: good_thread intro!: good_save [of _ _ _ _ _ _ _ "u\<lparr>t_intent_ids := _\<rparr>" for u, simplified])

lemma keeps_newIntent [keeps_rules]: "(\<And>i. Q i) \<Longrightarrow> keeps (J X) c (newIntent env ep t who part) Q"
  unfolding newIntent_def Let_def by (intro keeps_rules) auto

section \<open>Protection\<close>

lemma keeps_stop_seen [keeps_rules]: "(\<And>x. Q x) \<Longrightarrow> keeps (J X) c (stop_seen env t cid) Q"
  unfolding stop_seen_def by (auto intro!: keeps_rules calls_ack split: option.split)

lemma keeps_place_stop [keeps_rules]: "running h \<Longrightarrow> (\<And>x. Q x) \<Longrightarrow> keeps (J X) c (place_stop env t price cid) Q"
  unfolding place_stop_def by (intro keeps_rules calls) auto

lemma keeps_settle_stop [keeps_rules]: "running h \<Longrightarrow> (\<And>x. Q x) \<Longrightarrow> keeps (J X) c (settle_stop env t price cid r) Q"
  unfolding settle_stop_def by (auto intro!: keeps_rules split: option.split bool.split)

lemma keeps_invalidate [keeps_rules]: "Q () \<Longrightarrow> keeps (J X) c (invalidateProtection env) Q"
  unfolding invalidateProtection_def by (auto intro!: keeps_rules)

lemma keeps_compensate [keeps_rules]:
  assumes "K t" "t_id t \<in> X" "Q ()"
  shows "keeps (J X) c (compensate env t r) Q"
  unfolding compensate_def using assms by (auto intro!: keeps_rules K_ended simp: Let_def) (rule may_end_close, assumption+)+

lemma keeps_protect_stop:
  assumes "K t" "t_id t \<in> X" "running h"
    "\<And>u ids. K u \<Longrightarrow> t_id u \<in> X \<Longrightarrow> Q (Some (u, ids))" "Q None"
  shows "keeps (J X) c (protect_stop env placed t) Q"
  unfolding protect_stop_def Let_def using assms
  by (auto intro!: keeps_rules split: option.split)

lemma keeps_protect_tp:
  assumes "K t" "t_id t \<in> X" "running h"
    "\<And>u ids. K u \<Longrightarrow> t_id u \<in> X \<Longrightarrow> Q (u, ids)"
  shows "keeps (J X) c (protect_tp env placed t ids) Q"
  unfolding protect_tp_def Let_def using assms
  by (auto intro!: keeps_rules calls split: option.split list.split)

lemma keeps_placeProtection [keeps_rules]:
  assumes "K t" "t_id t \<in> X" "Q ()"
  shows "keeps (J X) c (placeProtection env t placed) Q"
proof (cases h)
  case True
  then show ?thesis unfolding placeProtection_def using assms(3) by (auto intro!: keeps_rules simp: good_def)
next
  case False
  then have "running h" by (simp add: running_def)
  then show ?thesis unfolding placeProtection_def Let_def using assms
    by (auto intro!: keeps_rules keeps_protect_stop keeps_protect_tp split: option.split)
qed

section \<open>Following the exchange\<close>

lemma keeps_review [keeps_rules]: "Q () \<Longrightarrow> keeps (J X) c (review tid k) Q"
  unfolding review_def by (intro keepsI) (auto simp: change_def intro: calls_ack)

lemma keeps_retryHalt [keeps_rules]:
  assumes "K t" "t_id t \<in> X" "Q ()"
  shows "keeps (J X) c (retryHalt env t hasPosition) Q"
  unfolding retryHalt_def Let_def using assms
  by (auto intro!: keeps_rules account K_ended_copy [of _ t] simp: ended_status_def) (rule may_end_account, assumption+)+

lemma keeps_chase [keeps_rules]:
  assumes "Q ()"
  shows "keeps (J X) c (chase_remainder env t cid) Q"
  unfolding chase_remainder_def Let_def using assms
  by (auto intro!: keeps_rules dest!: J_thread [where X = X] split: option.split)

lemma keeps_look_up [keeps_rules]: "(\<And>x. Q x) \<Longrightarrow> keeps (J X) c (look_up_entry env t) Q"
  unfolding look_up_entry_def by (auto intro!: keeps_rules split: option.split)

lemma keeps_follow_up [keeps_rules]:
  assumes "K t" "t_id t \<in> X" "Q ()"
  shows "keeps (J X) c (follow_up env look t evs) Q"
  unfolding follow_up_def using assms
  by (auto intro!: keeps_rules split: option.split)

lemma K_reconciled:
  assumes "K t" "xe_account env n = Some acct" "f_position f = List.find (\<lambda>p. pv_symbol p = t_symbol t) (av_positions acct)"
  shows "K (r_next (reconcileThread t f))"
proof -
  let ?u = "r_next (reconcileThread t f)"
  consider "same_core t ?u" | "t_status t = Pending_entry" "becomes {In_position} t ?u" | "t_status t = Pending_entry" "becomes {Canceled} t ?u"
    | "\<not> posMatches t f" "becomes {Closed} t ?u"
    using reconcile_moves [of t f] by (auto simp: Let_def becomes_def)
  then show ?thesis
  proof cases
    case 4
    then have "\<not> reported t acct" using assms(3) by (auto simp: posMatches_def reported_def split: option.splits)
    then have "may_end env t" unfolding may_end_def using assms(2) by blast
    then show ?thesis using ending [OF disjI1 [OF assms(1)] _ assms(1)] 4(2) by (simp add: becomes_def)
  next
    case 3
    then show ?thesis using ending [OF disjI1 [OF assms(1)] _ assms(1)] by (simp add: becomes_def may_end_def)
  qed (use same [OF assms(1)] filling [OF disjI1 [OF assms(1)] _ assms(1)] in simp_all)
qed

lemma K_paper_close: "K t \<Longrightarrow> K (with_paper_close ev t)"
  by (rule same [OF _ paper_close_core])

lemma id_reconciled: "t_id (with_paper_close ev (r_next (reconcileThread t f))) = t_id t"
  using paper_close_core [of "r_next (reconcileThread t f)" ev] reconcile_identity [of t f]
  by (simp add: same_core_def same_identity_def)

lemma keeps_reconcile_one:
  assumes "K t" "t_id t \<in> X" "xe_account env n = Some acct" "Q ()"
  shows "keeps (J X) c (reconcile_one env acct evs t) Q"
  unfolding reconcile_one_def Let_def using assms
  by (auto intro!: keeps_rules K_paper_close simp: id_reconciled K_reconciled [OF assms(1,3)] split: option.split)

lemma openThreads_stored: "t \<in> set (openThreads s) \<Longrightarrow> t \<in> set (List.map snd (rt_threads s))"
  unfolding openThreads_def store_threads_def newest_first_def by (auto dest!: in_set_takeD)

lemma keeps_open_threads:
  assumes "\<And>ts. (\<And>t. t \<in> set ts \<Longrightarrow> K t \<and> t_id t \<in> X) \<Longrightarrow> Q ts"
  shows "keeps (J X) c (reading openThreads) Q"
  using assms good_stored openThreads_stored by (blast intro: keeps_reading)

lemma keeps_reconcileThreads:
  assumes "xe_account env n = Some acct" "Q ()"
  shows "keeps (J X) c (reconcileThreads env acct) Q"
  unfolding reconcileThreads_def
  by (intro keeps_and_then keeps_reading keeps_change keeps_open_threads keeps_each keeps_reconcile_one [where n = n]) (use assms in auto)

lemma keeps_trackDaily [keeps_rules]: "Q () \<Longrightarrow> keeps (J X) c (trackDailyEquity env acct) Q"
  unfolding trackDailyEquity_def by (intro keeps_rules) (auto simp: Let_def)

lemma keeps_pollAccount [keeps_rules]: "Q () \<Longrightarrow> keeps (J X) c (pollAccount env) Q"
  unfolding pollAccount_def
  by (auto intro!: keeps_rules account good_account intro: keeps_reconcileThreads)

section \<open>Ending a thread\<close>

lemma keeps_cancelEntry [keeps_rules]:
  assumes "K t" "t_id t \<in> X" "t_status t = Pending_entry" "Q ()"
  shows "keeps (J X) c (cancelEntry env t why) Q"
  unfolding cancelEntry_def using assms by (auto intro!: keeps_rules K_ended simp: may_end_def)

lemma keeps_close_proven [keeps_rules]:
  assumes "\<And>b. (b \<Longrightarrow> (fst r \<and> \<not> filled_text (fst (snd r))) \<or> (\<exists>n a. xe_account env n = Some a \<and> \<not> has_symbol symbol a)) \<Longrightarrow> Q b"
  shows "keeps (J X) c (close_proven env symbol r) Q"
  unfolding close_proven_def using assms by (auto intro!: keeps_rules account good_account split: prod.split)

lemma keeps_closeThreadNow [keeps_rules]:
  assumes "K t" "t_id t \<in> X" "Q ()"
  shows "keeps (J X) c (closeThreadNow env t ep why) Q"
proof (cases "t_status t = Pending_entry")
  case False
  then show ?thesis unfolding closeThreadNow_def Let_def using assms
    by (auto intro!: keeps_rules K_ended split: prod.split)
      ((rule may_end_close, assumption+) | (rule may_end_account, assumption+))+
qed (use assms in \<open>simp add: closeThreadNow_def keeps_cancelEntry\<close>)

lemma keeps_reduceHalf [keeps_rules]:
  assumes "K t" "t_id t \<in> X" "Q ()"
  shows "keeps (J X) c (reduceHalf env t ep) Q"
  unfolding reduceHalf_def Let_def using assms
  by (auto intro!: keeps_rules calls_ack split: prod.split option.split)

lemma keeps_thread_at:
  "(\<And>u. K u \<Longrightarrow> t_id u = tid \<Longrightarrow> tid \<in> X \<Longrightarrow> Q (Some u)) \<Longrightarrow> Q None \<Longrightarrow> keeps (J X) c (reading (\<lambda>s. thread_at s tid)) Q"
  using J_thread by (intro keeps_reading) (metis option.exhaust)

lemma keeps_bound_thread:
  "(\<And>u. K u \<Longrightarrow> t_id u \<in> X \<Longrightarrow> Q (Some u)) \<Longrightarrow> Q None \<Longrightarrow> keeps (J X) c (reading (\<lambda>s. Option.bind x (thread_at s))) Q"
  by (cases x) (simp_all add: keeps_reading, rule keeps_thread_at, auto)

lemma keeps_closeThread: "Q () \<Longrightarrow> keeps (J X) c (closeThread env tid) Q"
  unfolding closeThread_def
  by (intro keeps_and_then keeps_thread_at) (auto intro!: keeps_rules)

section \<open>Approvals\<close>

lemma keeps_find_intent [keeps_rules]: "(\<And>i. Q i) \<Longrightarrow> keeps (J X) c (find_intent iid) Q"
  unfolding find_intent_def by (auto intro!: keeps_rules split: option.split)

lemma keeps_issue: "(\<And>x. Q x) \<Longrightarrow> keeps (J X) c (issueIntentConfirmation env iid) Q"
  unfolding issueIntentConfirmation_def by (auto intro!: keeps_rules split: prod.split)

lemma keeps_consent [keeps_rules]: "Q () \<Longrightarrow> keeps (J X) c (consent env by_agent nonce i) Q"
  unfolding consent_def use_token_def by (auto intro!: keeps_rules split: prod.split)

lemma keeps_propose_close: "(\<And>x. Q x) \<Longrightarrow> keeps (J X) c (propose_close env tid) Q"
  unfolding propose_close_def by (auto intro!: keeps_rules split: option.split prod.split)

section \<open>Entries\<close>

lemma K_aborted:
  "K v \<Longrightarrow> t_id v = t_id t \<Longrightarrow> K t \<or> t_id t \<in> D \<Longrightarrow> t_status t = Pending_entry \<Longrightarrow> K (v\<lparr>t_status := Canceled, t_entry_client_order_id := None\<rparr>)"
  by (rule ending [of t v]) (auto simp: becomes_def may_end_def)

lemma keeps_abort_open:
  assumes "K t \<or> t_id t \<in> D" "t_id t \<in> X" "t_status t = Pending_entry" "Q ()"
  shows "keeps (J X) c (abort_open env t iid why) Q"
  unfolding abort_open_def using assms by (auto intro!: keeps_rules K_aborted [of _ t])

lemma keeps_recheck [keeps_rules]: "(\<And>x. Q x) \<Longrightarrow> keeps (J X) c (recheck_size env i t fresh) Q"
  unfolding recheck_size_def by (auto intro!: keeps_rules calls_ack split: option.split)

lemma halted_blocks: "preflightOpen now symbol acct ex s = [] \<Longrightarrow> J X s \<Longrightarrow> running h"
  by (auto simp: preflightOpen_def good_def running_def split: if_splits)

lemma keeps_before_send:
  assumes "\<And>r. (r = None \<Longrightarrow> running h) \<Longrightarrow> Q r"
  shows "keeps (J X) c (before_send env i t) Q"
  unfolding before_send_def
  by (auto intro!: keeps_rules account good_account assms split: option.split prod.split)
    (erule halted_blocks, assumption)+

lemma keeps_settle_entry [keeps_rules]: "(\<And>x. Q x) \<Longrightarrow> keeps (J X) c (settle_entry env t cid r) Q"
  unfolding settle_entry_def by (auto intro!: keeps_rules)

lemma keeps_after_entry:
  assumes "K cur" "t_id cur = t_id t" "K t \<or> t_id t \<in> D" "t_id t \<in> X" "t_status t = Pending_entry" "Q ()"
  shows "keeps (J X) c (after_entry env t iid r placed cur outcome) Q"
proof -
  have ended: "K (cur\<lparr>t_status := Canceled\<rparr>)" "K (cur\<lparr>t_status := In_position\<rparr>)"
    using K_ended_copy [of cur t] K_filled [of cur t] assms by (auto simp: may_end_def)
  show ?thesis unfolding after_entry_def Let_def using assms ended
    by (cases outcome) (auto intro!: keeps_rules)
qed

section \<open>Halting and the order panel\<close>

lemma keeps_halt_symbol: "(\<And>b. Q b) \<Longrightarrow> keeps (J X) c (halt_symbol env symbol) Q"
  unfolding halt_symbol_def by (auto intro!: keeps_rules split: prod.split)

lemma keeps_collect:
  assumes "\<And>x. keeps (J X) c (f x) (\<lambda>_. True)" "\<And>ys. Q ys"
  shows "keeps (J X) c (collect f xs) Q"
  using assms(2)
proof (induction xs arbitrary: Q)
  case (Cons x xs)
  have "keeps (J X) c (and_then (collect f xs) (\<lambda>ys. ret (if b then x # ys else ys))) Q" for b
    by (intro keeps_and_then Cons.IH keeps_ret Cons.prems)
  then show ?case by (auto intro!: keeps_and_then intro: keeps_post [OF assms(1)])
qed (auto intro: keeps_ret)

text \<open>A halt as far as the account poll, when a halt may end any thread.\<close>

lemma keeps_halt_thread:
  assumes "\<And>st now. st \<in> {Closed, Canceled} \<Longrightarrow> K (t\<lparr>t_status := st\<rparr>)" "K t" "t_id t \<in> X" "Q ()"
  shows "keeps (J X) c (halt_thread env missed t) Q"
  unfolding halt_thread_def using assms by (auto intro!: keeps_rules simp: ended_status_def)

section \<open>New threads\<close>

abbreviation H :: "rt \<Rightarrow> bool" where "H s \<equiv> \<exists>X. J X s"

lemma keeps_any: "(\<And>X. keeps (J X) c m Q) \<Longrightarrow> keeps H c m Q"
  unfolding keeps_def by blast

lemma keeps_new:
  assumes "inj (xe_fresh_id env)" "\<And>X x. x \<notin> E \<Longrightarrow> x \<in> X \<Longrightarrow> keeps (J X) c (f x) Q"
  shows "keeps H c (and_then (fresh_id env) f) Q"
proof (rule keepsI)
  fix s assume "H s"
  then obtain X where X: "J X s" by blast
  let ?x = "xe_fresh_id env (rt_tick s)" let ?s = "s\<lparr>rt_tick := rt_tick s + 1\<rparr>"
  have x: "?x \<notin> X" using X by (simp add: good_def)
  have "fst ` set (rt_threads s) \<subseteq> X" using X by (auto simp: good_def list_all_iff)
  then have "E \<subseteq> X" using X by (auto simp: good_def)
  then have k: "keeps (J (insert ?x X)) c (f ?x) Q" using assms(2) x by blast
  have "J (insert ?x X) ?s" using X injD [OF assms(1)] by (fastforce simp: good_def list_all_iff)
  note k' = keepsD [OF k this]
  have m: "and_then (fresh_id env) f s = f ?x ?s" by (simp add: and_then_def fresh_id_def)
  show "H (snd (and_then (fresh_id env) f s))"
    "\<exists>new. rt_calls (snd (and_then (fresh_id env) f s)) = rt_calls s @ new \<and> list_all c new"
    using k' unfolding m by auto
  show "Q y" if "fst (and_then (fresh_id env) f s) = Inr y" for y
    using k' that unfolding m by auto
qed

lemma keeps_fetch_market [keeps_rules]: "(\<And>m. Q m) \<Longrightarrow> keeps (J X) c (fetch_market env symbol) Q"
  unfolding fetch_market_def by (auto intro!: keeps_rules calls_ack)

lemma keeps_get_rules [keeps_rules]: "(\<And>m. Q m) \<Longrightarrow> keeps (J X) c (get_rules env symbol) Q"
  unfolding get_rules_def by (auto intro!: keeps_rules calls_ack)

lemma keeps_market_of [keeps_rules]: "(\<And>m. Q m) \<Longrightarrow> keeps (J X) c (market_of env symbol) Q"
  unfolding market_of_def by (auto intro!: keeps_rules split: option.split)

lemma keeps_clear_algo [keeps_rules]: "Q () \<Longrightarrow> keeps (J X) c (clear_algo_orders env symbol) Q"
  unfolding clear_algo_orders_def by (auto intro!: keeps_rules keeps_each calls_ack split: option.split prod.split)

lemma keeps_manual_close: "Q () \<Longrightarrow> keeps (J X) c (manual_close env symbol side) Q"
  unfolding manual_close_def Let_def
  by (rule keeps_and_then keeps_open_threads keeps_reading keeps_require keeps_market_of keeps_option)+
    (auto intro!: keeps_rules split: option.split simp: find_Some_iff)

lemma keeps_clock_H: "(\<And>n. Q (xe_now env n)) \<Longrightarrow> keeps H c (clock env) Q"
  by (rule keeps_any) (auto intro!: keeps_rules)

lemmas keeps_H = keeps_clock_H keeps_fetch_market [THEN keeps_any] keeps_get_rules [THEN keeps_any] keeps_market_of [THEN keeps_any]
  keeps_get_account [THEN keeps_any]

lemma keeps_account_H: "\<exists>n. xe_account env n = Some a \<Longrightarrow> Q () \<Longrightarrow> keeps H c (change (\<lambda>s. s\<lparr>rt_account := Some a\<rparr>)) Q"
  by (rule keeps_any) (auto intro!: keeps_rules good_account account)

lemma new_ids [simp]:
  "t_id (adopted_thread tid now s pos stop tp ids) = tid" "t_id (manual_thread tid now s req symbol qty q ref lev) = tid"
  "t_id (proposed_thread tid now s symbol j p src qty m) = tid"
  by (simp_all add: adopted_thread_def manual_thread_def proposed_thread_def newThread_def Let_def)

lemma keeps_adopt:
  assumes "inj (xe_fresh_id env)" "Q ()"
  shows "keeps H c (adoptPosition env symbol stop tp) Q"
  unfolding adoptPosition_def Let_def
  by (intro keeps_new [OF assms(1)] keeps_and_then keeps_reading keeps_require keeps_option keeps_throw keeps_H keeps_account_H)
    (auto intro!: keeps_rules assms simp: fresh)

end

text \<open>The sending of an entry, for a property that holds for the thread with its order id and for a trace that may have
  entries while the runtime is not halted.\<close>

definition with_entry :: "thread \<Rightarrow> thread \<Rightarrow> bool" where
  "with_entry t u = (t_id u = t_id t \<and> t_symbol u = t_symbol t \<and> t_side u = t_side t \<and> t_status u = Pending_entry \<and>
     filled_text (t_entry_client_order_id u))"

lemma mint_legD: "mint_leg env l t = (cid, u) \<Longrightarrow> u = t\<lparr>t_leg_seq := t_leg_seq t + 1\<rparr>"
  using mint_leg_split(2) [of env l t] by simp

lemma mint_leg_filled [simp]: "filled_text (Some (fst (mint_leg env l t)))"
  by (simp add: mint_leg_def nextLegCid_def threadClientPrefix_def filled_text_def Let_def)

locale entry_upkeep = upkeep +
  assumes entering: "K t \<Longrightarrow> t_status t = Pending_entry \<Longrightarrow> with_entry t u \<Longrightarrow> K u"
    and entries: "entering cl \<Longrightarrow> running h \<Longrightarrow> c cl"
begin

lemma K_entering:
  "K t \<Longrightarrow> t_status t = Pending_entry \<Longrightarrow> filled_text cid \<Longrightarrow>
   K ((stamp_thread now (t\<lparr>t_leg_seq := n\<rparr>))\<lparr>t_entry_client_order_id := cid\<rparr>)"
  by (erule (1) entering) (simp add: with_entry_def)

lemma keeps_send_entry:
  assumes "K minted" "t_id minted \<in> X" "running h" "\<And>x. Q x"
  shows "keeps (J X) c (send_entry env t minted cid) Q"
  unfolding send_entry_def Let_def using assms(1,2)
  by (auto intro!: keeps_rules entries assms(3,4) dest!: mint_legD split: option.split list.split entry_kind.split prod.split)

lemma keeps_executeOpen:
  assumes "K t" "t_id t \<in> X" "Q ()"
  shows "keeps (J X) c (executeOpen env t i) Q"
  unfolding executeOpen_def submit_entry_def Let_def mint_leg_split using assms
  by (auto intro!: keeps_rules K_entering keeps_before_send keeps_abort_open keeps_send_entry keeps_after_entry
      split: option.split prod.split)

lemma keeps_carry_out:
  assumes "K t" "t_id t \<in> X" "Q ()"
  shows "keeps (J X) c (carry_out env i t) Q"
  unfolding carry_out_def using assms
  by (cases "in_kind i") (auto intro!: keeps_rules keeps_executeOpen)

lemma keeps_approve: "Q () \<Longrightarrow> keeps (J X) c (approveIntent env iid nonce by_agent) Q"
  unfolding approveIntent_def
  by (rule keeps_and_then keeps_find_intent keeps_consent keeps_bound_thread keeps_reading keeps_require keeps_option keeps_throw)+
    (auto intro!: keeps_rules keeps_carry_out)

lemma keeps_manual_open:
  assumes "inj (xe_fresh_id env)" "Q ()"
  shows "keeps H c (manual_open env req) Q"
  unfolding manual_open_def Let_def
  by (intro keeps_new [OF assms(1)] keeps_and_then keeps_reading keeps_require keeps_option keeps_prod keeps_throw keeps_ret keeps_H keeps_account_H)
    (auto intro!: keeps_rules keeps_executeOpen assms simp: fresh)

lemma keeps_openProposal:
  assumes "inj (xe_fresh_id env)" "Q ()"
  shows "keeps H c (openThreadFromProposal env ep symbol j stale src forced) Q"
  unfolding openThreadFromProposal_def Let_def
  by (intro keeps_new [OF assms(1)] keeps_and_then keeps_attempt keeps_reading keeps_require keeps_option keeps_prod keeps_throw keeps_ret keeps_H keeps_account_H)
    (auto intro!: keeps_rules keeps_executeOpen assms simp: fresh split: prod.split)

end

end
