(* ===== verification/Handlers.thy ===== *)
theory Handlers imports Upkeep begin

text \<open>
  The runtime as a system: its events, one per entry point (polls, the controls of the interface and of the chat, the
  outcome of a judgment and of a review, and the updates that come from the public data), and their runs. A handler that
  throws leaves the state it had reached.
\<close>

datatype event = E_poll | E_close string | E_approve string "string option" bool | E_reject string | E_issue string
  | E_propose_close string | E_halt | E_resume | E_manual_open manual_order | E_manual_close string direction
  | E_adopt string "string option" "string option" | E_scan string int string judgement account_view market_view "string set"
  | E_chat_propose string string proposal | E_review string string judgement | E_market string market_view
  | E_paper paper_event | E_workflow workflow | E_symbols "symbol_info list"

definition resume :: "unit act" where
  "resume = and_then (reading rt_halted) (\<lambda>h. and_then (only_if h (and_then (change (\<lambda>s. s\<lparr>rt_halted := False\<rparr>)) (\<lambda>_.
       kv_set ''demo.halted'' ''0''))) (\<lambda>_. change (\<lambda>s. s\<lparr>rt_workflow := (rt_workflow s)\<lparr>w_paused := False\<rparr>\<rparr>)))"

fun handle :: "exec_env \<Rightarrow> event \<Rightarrow> unit act" where
  "handle env E_poll = pollAccount env"
| "handle env (E_close tid) = closeThread env tid"
| "handle env (E_approve iid nonce by_agent) = approveIntent env iid nonce by_agent"
| "handle env (E_reject iid) = rejectIntent env iid"
| "handle env (E_issue iid) = and_then (issueIntentConfirmation env iid) (\<lambda>_. ret ())"
| "handle env (E_propose_close tid) = and_then (propose_close env tid) (\<lambda>_. ret ())"
| "handle env E_halt = halt env"
| "handle env E_resume = resume"
| "handle env (E_manual_open req) = manual_open env req"
| "handle env (E_manual_close symbol side) = manual_close env symbol side"
| "handle env (E_adopt symbol stop tp) = adoptPosition env symbol stop tp"
| "handle env (E_scan ep started symbol j acct market stale) = apply_scan env ep started symbol j acct market stale"
| "handle env (E_chat_propose ep symbol p) = and_then (propose_thread env ep symbol p) (\<lambda>_. ret ())"
| "handle env (E_review tid ep j) = apply_review env tid ep j"
| "handle env (E_market symbol m) = change (\<lambda>s. s\<lparr>rt_markets := map_set (rt_markets s) symbol m\<rparr>)"
| "handle env (E_paper e) = change (\<lambda>s. s\<lparr>rt_events := rt_events s @ [e]\<rparr>)"
| "handle env (E_workflow w) = change (\<lambda>s. s\<lparr>rt_workflow := w\<rparr>)"
| "handle env (E_symbols xs) = change (\<lambda>s. s\<lparr>rt_symbols := Some xs\<rparr>)"

definition run :: "exec_env \<Rightarrow> event list \<Rightarrow> rt \<Rightarrow> rt" where "run env es s = foldl (\<lambda>s e. snd (handle env e s)) s es"

lemma run_simps [simp]: "run env [] s = s" "run env (e # es) s = run env es (snd (handle env e s))"
  by (simp_all add: run_def)

lemma good_upd2 [simp]:
  "good env h D X A K (s\<lparr>rt_workflow := w\<rparr>) = good env h D X A K s" "good env h D X A K (s\<lparr>rt_symbols := y\<rparr>) = good env h D X A K s"
  by (simp_all add: good_def)

lemma cancel_is_pending:
  assumes "rd_effect (reduceReview t j) = Eff_cancel_entry"
  shows "t_status t = Pending_entry"
  using assms unfolding reduceReview_def
  by (cases "t_status t"; cases "j_action j")
    (simp_all add: nodeFor_def graph_simps decide_def Let_def)

lemma patched_core: "same_core t ((patched d t)\<lparr>t_episode_ids := x, t_version := v, t_updated_at := n\<rparr>)"
  by (simp add: patched_def same_core_def split: option.split)

text \<open>Every event but the halt and its end, and the rejection of an intent, takes care of a property with the laws alone.\<close>

definition plain_event :: "event \<Rightarrow> bool" where
  "plain_event e = (case e of E_halt \<Rightarrow> False | E_resume \<Rightarrow> False | E_reject _ \<Rightarrow> False | _ \<Rightarrow> True)"

context upkeep begin

lemma keeps_apply_review: "Q () \<Longrightarrow> keeps (J X) c (apply_review env tid ep j) Q"
proof -
  assume Q: "Q ()"
  have "keeps (J X) c (saveThread u) (\<lambda>_. keeps (J X) c (if \<not> rd_accepted d then ret ()
         else case rd_effect d of Eff_cancel_entry \<Rightarrow> cancelEntry env u (decided_reason d CR_cancel_default)
         | Eff_close \<Rightarrow> closeThreadNow env u (Some ep) (decided_reason d CR_exit_default)
         | Eff_reduce_half \<Rightarrow> reduceHalf env u ep
         | _ \<Rightarrow> ret ()) Q)" if "K t" "t_id t \<in> X" "same_core t u" "d = reduceReview t j" for t u d
  proof -
    have u: "K u" "t_id u \<in> X" "t_status u = t_status t" using that same [OF that(1,3)] by (simp_all add: same_core_def)
    show ?thesis using u Q that(4) cancel_is_pending [of t j]
      by (cases "rd_effect d") (auto intro!: keeps_saveThread keeps_if keeps_ret keeps_cancelEntry keeps_closeThreadNow keeps_reduceHalf)
  qed
  note body = this
  show ?thesis unfolding apply_review_def Let_def
    by (intro keeps_and_then keeps_thread_at keeps_option keeps_ret keeps_if keeps_clock Q
      body [OF _ _ patched_core refl, unfolded Let_def]) auto
qed

end

context entry_upkeep begin

lemma keeps_apply_scan:
  assumes "inj (xe_fresh_id env)" "Q ()"
  shows "keeps H c (apply_scan env ep started symbol j acct market stale) Q"
  unfolding apply_scan_def
  by (intro keeps_and_then keeps_if keeps_ret keeps_clock_H keeps_reading keeps_openProposal assms)

lemma keeps_propose_thread:
  assumes "inj (xe_fresh_id env)" "\<And>b. Q b"
  shows "keeps H c (propose_thread env ep symbol p) Q"
  unfolding propose_thread_def Let_def
  by (intro keeps_and_then keeps_if keeps_option keeps_ret keeps_H keeps_reading keeps_openProposal assms)

lemma keeps_handle:
  assumes "inj (xe_fresh_id env)" "plain_event e"
  shows "keeps H c (handle env e) (\<lambda>_. True)"
  using assms(2)
  by (cases e) (auto simp: plain_event_def intro!: keeps_any [OF keeps_pollAccount] keeps_any [OF keeps_closeThread] keeps_any [OF keeps_approve]
      keeps_any [OF keeps_manual_close] keeps_any [OF keeps_apply_review] keeps_any [OF keeps_and_then [OF keeps_issue]]
      keeps_any [OF keeps_and_then [OF keeps_propose_close]] keeps_manual_open keeps_adopt keeps_apply_scan
      keeps_and_then [OF keeps_propose_thread] keeps_any [OF keeps_change] keeps_ret assms(1))

end

end
