(* ===== verification/EntryOnce.thy ===== *)
theory EntryOnce imports Safety begin

text \<open>
  The entry of a thread is sent at most once over any run. The state property \<open>once_in\<close> names the threads whose entry was
  sent; a handler that sends none keeps it by the laws of \<open>upkeep\<close>, and the one that sends adds its thread to the set
  after the order id is saved and before the request leaves.
\<close>

section \<open>One entry per thread\<close>

definition entered_ids :: "call list \<Rightarrow> string list" where
  "entered_ids calls = concat (List.map (\<lambda>cl. case cl of C_place_entry tid _ \<Rightarrow> [tid] | C_open_protected tid _ \<Rightarrow> [tid] | _ \<Rightarrow> []) calls)"

lemma entered_ids_append [simp]: "entered_ids (xs @ ys) = entered_ids xs @ entered_ids ys"
  by (simp add: entered_ids_def)

lemma entered_ids_none: "list_all (\<lambda>cl. \<not> entering cl) calls \<Longrightarrow> entered_ids calls = []"
  by (induction calls) (auto simp: entered_ids_def split: call.split)

text \<open>A thread whose entry was sent carries the order id or has left the pending state.\<close>

definition spent_in :: "string set \<Rightarrow> thread \<Rightarrow> bool" where
  "spent_in S t = (t_id t \<in> S \<longrightarrow> t_status t \<noteq> Pending_entry \<or> filled_text (t_entry_client_order_id t))"

definition no_entry :: "call \<Rightarrow> bool" where "no_entry cl = (\<not> entering cl)"

interpretation once: upkeep env h S "S \<union> P" "\<lambda>_. True" "spent_in S" no_entry for env h S P
proof
  show "S \<subseteq> S \<union> P" by simp
  show "spent_in S t" if "t_id t \<notin> S \<union> P" for t using that by (simp add: spent_in_def)
  show "spent_in S u" if "spent_in S t" "same_core t u" for t u using that by (simp add: spent_in_def same_core_def)
  show "spent_in S u" if "becomes {Closed, Canceled} v u" for v u using that by (auto simp: spent_in_def becomes_def)
  show "spent_in S u" if "becomes {In_position} v u" for v u using that by (simp add: spent_in_def becomes_def)
  show "no_entry cl" if "\<not> entering cl" for cl using that by (simp add: no_entry_def)
qed simp

text \<open>The state property: S holds the threads whose entry was sent, P copies of stored threads in hand, R identifiers set
  aside.\<close>

definition once_state :: "exec_env \<Rightarrow> bool \<Rightarrow> string set \<Rightarrow> string set \<Rightarrow> thread set \<Rightarrow> string set \<Rightarrow> rt \<Rightarrow> bool" where
  "once_state env h S X P R s = (good env h (S \<union> t_id ` P) X (\<lambda>_. True) (spent_in S) s \<and> distinct (entered_ids (rt_calls s)) \<and>
     set (entered_ids (rt_calls s)) \<subseteq> S \<and> R \<subseteq> X \<and> R \<inter> (S \<union> fst ` set (rt_threads s)) = {} \<and>
     (\<forall>t \<in> P. spent_in S t \<and> t_id t \<in> X))"

definition once_in :: "exec_env \<Rightarrow> thread set \<Rightarrow> string set \<Rightarrow> rt \<Rightarrow> bool" where
  "once_in env P R s = (\<exists>h S X. once_state env h S X P R s)"

lemma once_state_weaken: "once_state env h S X P R s \<Longrightarrow> P' \<subseteq> P \<Longrightarrow> once_state env h S X P' {} s"
  using image_mono [of P' P t_id] by (simp add: once_state_def good_def) (meson subset_iff)

lemma once_state_tick: "once_state env h S X P R s \<Longrightarrow> once_state env h S X P R (s\<lparr>rt_tick := Suc (rt_tick s)\<rparr>)"
  by (simp add: once_state_def good_def)

lemma once_weaken: "once_in env P R s \<Longrightarrow> P' \<subseteq> P \<Longrightarrow> once_in env P' {} s"
  unfolding once_in_def using once_state_weaken by blast

lemma once_state_ids:
  assumes "once_state env h S X P R s"
  shows "fst ` set (rt_threads s) \<subseteq> X" "S \<subseteq> fst ` set (rt_threads s)"
  using assms by (auto simp: once_state_def good_def list_all_iff)

text \<open>A handler keeps the property on every exit, and gives the stronger one when it returns.\<close>

definition once_ok :: "exec_env \<Rightarrow> thread set \<Rightarrow> string set \<Rightarrow> 'a act \<Rightarrow> ('a \<Rightarrow> thread set \<times> string set) \<Rightarrow> bool" where
  "once_ok env P R m Q = (\<forall>s. once_in env P R s \<longrightarrow> once_in env {} {} (snd (m s)) \<and>
     (\<forall>x. fst (m s) = Inr x \<longrightarrow> once_in env (fst (Q x)) (snd (Q x)) (snd (m s))))"

lemma once_okI:
  assumes "\<And>h S X s x. once_state env h S X P R s \<Longrightarrow> fst (m s) = Inr x \<Longrightarrow> once_in env (fst (Q x)) (snd (Q x)) (snd (m s))"
    "\<And>h S X s e. once_state env h S X P R s \<Longrightarrow> fst (m s) = Inl e \<Longrightarrow> once_in env {} {} (snd (m s))"
  shows "once_ok env P R m Q"
  unfolding once_ok_def
proof (intro allI impI)
  fix s assume "once_in env P R s"
  then obtain h S X where s: "once_state env h S X P R s" unfolding once_in_def by blast
  show "once_in env {} {} (snd (m s)) \<and> (\<forall>x. fst (m s) = Inr x \<longrightarrow> once_in env (fst (Q x)) (snd (Q x)) (snd (m s)))"
    using assms [OF s] once_weaken by (cases "fst (m s)") blast+
qed

lemma once_and_then:
  assumes "once_ok env P R m M" "\<And>x. once_ok env (fst (M x)) (snd (M x)) (f x) Q"
  shows "once_ok env P R (and_then m f) Q"
  unfolding once_ok_def
proof (intro allI impI)
  fix s assume s: "once_in env P R s"
  obtain r s' where m: "m s = (r, s')" by fastforce
  show "once_in env {} {} (snd (and_then m f s)) \<and>
     (\<forall>x. fst (and_then m f s) = Inr x \<longrightarrow> once_in env (fst (Q x)) (snd (Q x)) (snd (and_then m f s)))"
    using s assms m unfolding once_ok_def by (cases r) (fastforce simp: and_then_def)+
qed

text \<open>What sends no entry.\<close>

lemma once_state_keeps:
  assumes "once_state env h S X P R s" "keeps (good env h (S \<union> t_id ` P) X (\<lambda>_. True) (spent_in S)) no_entry m (\<lambda>_. True)"
  shows "once_state env h S X P {} (snd (m s))"
proof -
  have o: "good env h (S \<union> t_id ` P) X (\<lambda>_. True) (spent_in S) s" using assms(1) by (simp add: once_state_def)
  note k = keepsD [OF assms(2) o]
  have "entered_ids (rt_calls (snd (m s))) = entered_ids (rt_calls s)"
    using k(2) entered_ids_none by (auto simp: no_entry_def list_all_iff)
  then show ?thesis using k(1) assms(1) by (simp add: once_state_def)
qed

lemma once_step:
  assumes "\<And>h S X. (\<And>t. t \<in> P \<Longrightarrow> spent_in S t \<and> t_id t \<in> X) \<Longrightarrow>
      keeps (good env h (S \<union> t_id ` P) X (\<lambda>_. True) (spent_in S)) no_entry m (\<lambda>_. True)"
    "\<And>x. once_ok env P {} (f x) Q"
  shows "once_ok env P R (and_then m f) Q"
proof (rule once_and_then)
  have "once_in env P {} (snd (m s))" if "once_state env h S X P R s" for h S X s
    using once_state_keeps [OF that assms(1)] that unfolding once_in_def by (auto simp: once_state_def)
  then show "once_ok env P R m (\<lambda>_. (P, {}))" using once_weaken [of env P "{}" _ "{}"] by (intro once_okI) auto
qed (simp add: assms(2))

lemma once_ret: "once_ok env P R (ret x) (\<lambda>_. ({}, {}))"
  by (rule once_okI) (auto simp: ret_def once_in_def intro: once_state_weaken)

lemma once_throw: "once_ok env P R (throw e) Q"
  by (rule once_okI) (auto simp: throw_def once_in_def intro: once_state_weaken)

lemma once_last:
  assumes "\<And>x. once_ok env P R (and_then m ret) Q"
  shows "once_ok env P R m Q"
proof -
  have "and_then m ret = m" by (rule ext) (auto simp: and_then_def ret_def split: prod.split sum.split)
  then show ?thesis using assms by simp
qed

lemma once_done:
  assumes "\<And>h S X. (\<And>t. t \<in> P \<Longrightarrow> spent_in S t \<and> t_id t \<in> X) \<Longrightarrow>
      keeps (good env h (S \<union> t_id ` P) X (\<lambda>_. True) (spent_in S)) no_entry m (\<lambda>_. True)"
  shows "once_ok env P R m (\<lambda>_. ({}, {}))"
  by (rule once_last, rule once_step [OF assms once_ret]) simp_all

text \<open>Steps that save no thread leave the identifiers set aside alone.\<close>

lemma once_reading: "(\<And>s. once_ok env P R (g (f s)) Q) \<Longrightarrow> once_ok env P R (and_then (reading f) g) Q"
  unfolding once_ok_def and_then_def reading_def by simp

lemma once_clock:
  assumes "\<And>n. once_ok env P R (g n) Q"
  shows "once_ok env P R (and_then (clock env) g) Q"
proof (rule once_and_then)
  show "once_ok env P R (clock env) (\<lambda>_. (P, R))"
    unfolding once_ok_def once_in_def clock_def by (auto dest: once_state_tick) (blast dest: once_state_tick once_state_weaken)+
qed (simp add: assms)

lemma once_fresh_step:
  assumes "inj (xe_fresh_id env)" "\<And>x. once_ok env P {x} (f x) Q"
  shows "once_ok env P R (and_then (fresh_id env) f) Q"
proof (rule once_and_then)
  show "once_ok env P R (fresh_id env) (\<lambda>x. (P, {x}))"
  proof (rule once_okI)
    fix h S X s x assume s: "once_state env h S X P R s" "fst (fresh_id env s) = Inr x"
    then have x: "x = xe_fresh_id env (rt_tick s)" "x \<notin> X" by (auto simp: fresh_id_def once_state_def good_def)
    let ?s = "s\<lparr>rt_tick := rt_tick s + 1\<rparr>"
    have "good env h (S \<union> t_id ` P) X (\<lambda>_. True) (spent_in S) s" using s(1) by (simp add: once_state_def)
    then have "good env h (S \<union> t_id ` P) (insert x X) (\<lambda>_. True) (spent_in S) ?s"
      using x injD [OF assms(1)] by (fastforce simp: good_def list_all_iff)
    moreover have "{x} \<inter> (S \<union> fst ` set (rt_threads ?s)) = {}" using x(2) once_state_ids [OF s(1)] by (simp, blast)
    ultimately have "once_state env h S (insert x X) P {x} ?s" using s(1) by (simp add: once_state_def)
    then show "once_in env (fst (P, {x})) (snd (P, {x})) (snd (fresh_id env s))"
      by (auto simp: once_in_def fresh_id_def)
  qed (simp add: fresh_id_def)
qed (simp add: assms(2))

lemma once_save_step:
  assumes "t_id t = x" "once_ok env (insert t P) {} (f ()) Q"
  shows "once_ok env P {x} (and_then (saveThread t) f) Q"
proof (rule once_and_then)
  show "once_ok env P {x} (saveThread t) (\<lambda>_. (insert t P, {}))"
  proof (rule once_okI)
    fix h S X s y assume s: "once_state env h S X P {x} s"
    let ?s = "s\<lparr>rt_threads := map_set (rt_threads s) (t_id t) t\<rparr>"
    have t: "spent_in S t" "t_id t \<in> X" using s assms(1) by (auto simp: once_state_def spent_in_def)
    have "good env h (S \<union> t_id ` P) X (\<lambda>_. True) (spent_in S) ?s"
      by (rule good_save) (use s t in \<open>auto simp: once_state_def\<close>)
    then have "once_state env h S X (insert t P) {} ?s" using s t by (simp add: once_state_def good_def)
    then show "once_in env (fst (insert t P, {})) (snd (insert t P, {})) (snd (saveThread t s))"
      by (auto simp: once_in_def saveThread_def change_def)
  qed (simp add: saveThread_def change_def)
qed (simp add: assms(2))

lemma once_if: "once_ok env P R m Q \<Longrightarrow> once_ok env P R n Q \<Longrightarrow> once_ok env P R (if b then m else n) Q"
  by (cases b) simp_all

lemma once_option:
  "once_ok env P R a Q \<Longrightarrow> (\<And>x. m = Some x \<Longrightarrow> once_ok env P R (b x) Q) \<Longrightarrow>
   once_ok env P R (case m of None \<Rightarrow> a | Some x \<Rightarrow> b x) Q"
  by (cases m) simp_all

lemma once_prod: "(\<And>a b. once_ok env P R (f a b) Q) \<Longrightarrow> once_ok env P R (case p of (a, b) \<Rightarrow> f a b) Q"
  by (cases p) simp

lemma once_bound:
  assumes "once_ok env P R (f None) Q" "\<And>t. once_ok env (insert t P) {} (f (Some t)) Q"
  shows "once_ok env P R (and_then (reading (\<lambda>s. Option.bind x (thread_at s))) f) Q"
proof -
  have "once_in env (insert t P) {} s" if s: "once_in env P R s" and x: "Option.bind x (thread_at s) = Some t" for s t
  proof -
    obtain tid where t: "thread_at s tid = Some t" using x by (cases x) auto
    obtain h S X where o: "once_state env h S X P R s" using s unfolding once_in_def by blast
    have "good env h (S \<union> t_id ` P) X (\<lambda>_. True) (spent_in S) s" using o by (simp add: once_state_def)
    note g = good_thread [OF this t]
    have "tid \<in> fst ` set (rt_threads s)" using t by (auto simp: thread_at_def dest: map_of_SomeD intro: rev_image_eqI)
    then have "once_state env h S X (insert t P) {} s" using o g by (simp add: once_state_def good_def)
    then show ?thesis unfolding once_in_def by blast
  qed
  then show ?thesis using assms unfolding once_ok_def and_then_def reading_def
    by (auto split: option.split) (metis option.exhaust)+
qed

text \<open>The one handler that sends an entry: at most n requests for entries are added to the trace, all for the thread.\<close>

definition sends :: "(rt \<Rightarrow> bool) \<Rightarrow> string \<Rightarrow> nat \<Rightarrow> 'a act \<Rightarrow> ('a \<Rightarrow> bool) \<Rightarrow> bool" where
  "sends J tid n m Q = (\<forall>s. J s \<longrightarrow> J (snd (m s)) \<and>
     (\<exists>new k. rt_calls (snd (m s)) = rt_calls s @ new \<and> k \<le> n \<and> entered_ids new = replicate k tid) \<and>
     (\<forall>x. fst (m s) = Inr x \<longrightarrow> Q x))"

lemma sendsD:
  assumes "sends J tid n m Q" "J s"
  shows "J (snd (m s))" "\<exists>new k. rt_calls (snd (m s)) = rt_calls s @ new \<and> k \<le> n \<and> entered_ids new = replicate k tid"
    "fst (m s) = Inr x \<Longrightarrow> Q x"
  using assms unfolding sends_def by blast+

lemma sends_keeps:
  assumes "keeps J no_entry m Q"
  shows "sends J tid 0 m Q"
proof -
  have e: "entered_ids new = []" if "list_all no_entry new" for new
    using that entered_ids_none by (auto simp: no_entry_def list_all_iff)
  show ?thesis unfolding sends_def
  proof (intro allI impI)
    fix s assume "J s"
    note k = keepsD [OF assms this]
    show "J (snd (m s)) \<and> (\<exists>new k. rt_calls (snd (m s)) = rt_calls s @ new \<and> k \<le> 0 \<and> entered_ids new = replicate k tid) \<and>
        (\<forall>x. fst (m s) = Inr x \<longrightarrow> Q x)"
      using k e by fastforce
  qed
qed

lemma sends_more: "sends J tid n m Q \<Longrightarrow> n \<le> k \<Longrightarrow> sends J tid k m Q"
  unfolding sends_def by (meson le_trans)

lemma sends_bind:
  assumes "sends J tid a m (\<lambda>x. sends J tid b (f x) Q)" "n = a + b"
  shows "sends J tid n (and_then m f) Q"
  unfolding sends_def
proof (intro allI impI)
  fix s assume s: "J s"
  obtain r s' where m: "m s = (r, s')" by fastforce
  note 1 = sendsD [OF assms(1) s, unfolded m, simplified]
  obtain n1 k1 where n1: "rt_calls s' = rt_calls s @ n1" "k1 \<le> a" "entered_ids n1 = replicate k1 tid" using 1(2) by blast
  show "J (snd (and_then m f s)) \<and>
     (\<exists>new k. rt_calls (snd (and_then m f s)) = rt_calls s @ new \<and> k \<le> n \<and> entered_ids new = replicate k tid) \<and>
     (\<forall>x. fst (and_then m f s) = Inr x \<longrightarrow> Q x)"
  proof (cases r)
    case (Inl e)
    then show ?thesis using 1(1) n1 assms(2) by (auto simp: and_then_def m intro!: exI [of _ k1])
  next
    case (Inr x)
    note 2 = sendsD [OF 1(3) [OF Inr] 1(1)]
    obtain n2 k2 where n2: "rt_calls (snd (f x s')) = rt_calls s' @ n2" "k2 \<le> b" "entered_ids n2 = replicate k2 tid" using 2(2) by blast
    have e: "and_then m f s = f x s'" by (simp add: and_then_def m Inr)
    have "rt_calls (snd (f x s')) = rt_calls s @ (n1 @ n2) \<and> k1 + k2 \<le> n \<and> entered_ids (n1 @ n2) = replicate (k1 + k2) tid"
      using n1 n2 assms(2) by (simp add: replicate_add)
    then show ?thesis using 2 unfolding e by blast
  qed
qed

lemma sends_request:
  assumes "entered_ids [call] = [tid]" "\<And>n x. answer n = Some x \<Longrightarrow> Q x"
  shows "sends (good env h D X A K) tid 1 (request call answer) Q"
  unfolding sends_def using assms
  by (auto simp: request_def Let_def good_def split: option.splits intro!: exI [of _ "Suc 0"])

lemma sends_post: "sends J tid n m P \<Longrightarrow> (\<And>x. P x \<Longrightarrow> Q x) \<Longrightarrow> sends J tid n m Q"
  unfolding sends_def by blast

lemma sends_then: "sends J tid n m (\<lambda>x. keeps J no_entry (f x) Q) \<Longrightarrow> sends J tid n (and_then m f) Q"
  by (rule sends_bind [where b = 0], erule sends_post) (auto intro: sends_keeps)

lemma sends_after: "keeps J no_entry m (\<lambda>x. sends J tid n (f x) Q) \<Longrightarrow> sends J tid n (and_then m f) Q"
  by (rule sends_bind [where a = 0]) (auto intro: sends_keeps)

lemma sends_none: "keeps J no_entry m Q \<Longrightarrow> sends J tid n m Q"
  by (rule sends_more [OF sends_keeps]) simp_all

interpretation sent: upkeep env h S S "\<lambda>_. True" "spent_in S" no_entry for env h S
  using once.upkeep_axioms [where P = "{}"] by simp

lemma sends_send_entry:
  assumes "t_id minted \<in> S" "t_id minted \<in> X" "\<And>x. Q x"
  shows "sends (sent.J env h S X) (t_id t) 1 (send_entry env t minted cid) Q"
proof -
  have alone: "sends (sent.J env h S X) (t_id t) 1 (and_then (request (C_place_entry (t_id t) req) answer) (\<lambda>r. ret (r, None))) Q" for req answer
    by (intro sends_then sends_request keeps_ret) (simp_all add: entered_ids_def assms(3))
  have both: "sends (sent.J env h S X) (t_id t) 1 (and_then (request (C_open_protected (t_id t) req) answer) (\<lambda>r. ret (g r))) Q" for req answer g
    by (intro sends_then sends_request keeps_ret) (simp_all add: entered_ids_def assms(3))
  show ?thesis
  proof (cases "\<exists>m p ps. xe_open_protected env = Some m \<and> en_type (t_entry t) = Market \<and> t_stop_price t = Some (p # ps)")
    case False
    then have "send_entry env t minted cid = and_then (request (C_place_entry (t_id t) (entry_of t cid))
        (\<lambda>n. xe_place_entry env n (entry_of t cid))) (\<lambda>r. ret (r, None))"
      by (auto simp: send_entry_def split: option.split entry_kind.split list.split)
    then show ?thesis using alone by simp
  next
    case True
    then obtain m p ps where m: "xe_open_protected env = Some m" "en_type (t_entry t) = Market" "t_stop_price t = Some (p # ps)" by blast
    show ?thesis unfolding send_entry_def Let_def m prod.case option.case list.case entry_kind.case mint_leg_split
      by (rule sends_after, rule sent.keeps_reread_D) (use assms in \<open>auto intro!: sends_after [OF keeps_saveThread] both
        dest!: mint_legD split: list.split prod.split simp del: One_nat_def\<close>)
  qed
qed

lemma sends_submit:
  assumes "t_id t \<in> S" "t_id t \<in> X" "t_id minted = t_id t" "t_status t = Pending_entry"
  shows "sends (sent.J env h S X) (t_id t) 1 (submit_entry env t minted cid i) (\<lambda>_. True)"
  unfolding submit_entry_def
proof (rule sends_after, rule keeps_update_intent, rule sends_after, rule sent.keeps_before_send)
  fix bad
  show "sends (sent.J env h S X) (t_id t) 1 (case bad of
       Some why \<Rightarrow> abort_open env t (in_id i) why
     | None \<Rightarrow> and_then (send_entry env t minted cid) (\<lambda>(r, placed).
       and_then (reread t) (\<lambda>c. and_then (clock env) (\<lambda>now2.
       and_then (saveThread (stamp_thread now2 (c\<lparr>t_entry_submitting_since := None, t_entry_submitted_at := Some now2\<rparr>))) (\<lambda>_.
       and_then (reread t) (\<lambda>cur. and_then (settle_entry env t cid r) (\<lambda>outcome.
       after_entry env t (in_id i) r placed cur outcome))))))) (\<lambda>_. True)"
  proof (cases bad)
    case None
    show ?thesis unfolding None option.case
      by (rule sends_then, rule sends_send_entry) (use assms in \<open>auto intro!: keeps_and_then sent.keeps_reread_D keeps_clock
        keeps_saveThread sent.keeps_settle_entry sent.keeps_after_entry split: prod.split\<close>)
  next
    case (Some why)
    show ?thesis unfolding Some option.case by (rule sends_none, rule sent.keeps_abort_open) (use assms in auto)
  qed
qed

lemma list_all_map_set_at:
  "distinct (List.map fst m) \<Longrightarrow> list_all (\<lambda>(k', v'). k' \<noteq> k \<longrightarrow> Q (k', v')) m \<Longrightarrow> Q (k, v) \<Longrightarrow> list_all Q (map_set m k v)"
proof (induction m k v rule: map_set.induct)
  case (2 k' v' m k v)
  show ?case
  proof (cases "k' = k")
    case True
    then have "\<And>a b. (a, b) \<in> set m \<Longrightarrow> a \<noteq> k" using 2(2) by force
    then show ?thesis using 2 True by (fastforce simp: list_all_iff)
  qed (use 2 in auto)
qed simp

lemma good_enter:
  assumes "good env h (S \<union> t_id ` P) X (\<lambda>_. True) (spent_in S) s" "t_id u \<in> X" "filled_text (t_entry_client_order_id u)"
  shows "sent.J env h (insert (t_id u) S) X (s\<lparr>rt_tick := rt_tick s + 1, rt_threads := map_set (rt_threads s) (t_id u) u\<rparr>)"
proof -
  have "list_all (\<lambda>(k, t). t_id t = k \<and> k \<in> X \<and> spent_in (insert (t_id u) S) t) (map_set (rt_threads s) (t_id u) u)"
    by (rule list_all_map_set_at) (use assms in \<open>auto simp: good_def list_all_iff spent_in_def\<close>)
  then show ?thesis using assms(1) by (auto simp: good_def intro: distinct_map_set)
qed

lemma once_execute:
  assumes "t \<in> P"
  shows "once_ok env P R (executeOpen env t i) (\<lambda>_. ({}, {}))"
proof -
  have "once_in env {} {} (snd (executeOpen env t i s))" if s: "once_state env h S X P R s" for h S X s
  proof -
    have o: "good env h (S \<union> t_id ` P) X (\<lambda>_. True) (spent_in S) s" using s by (simp add: once_state_def)
    have "t_id t \<in> fst ` set (rt_threads s)" using o assms by (auto simp: good_def)
    then obtain u where u: "thread_at s (t_id t) = Some u" unfolding thread_at_def by (metis map_of_eq_None_iff not_None_eq)
    note g = good_thread [OF o u]
    show ?thesis
    proof (cases "t_status u = Pending_entry \<and> \<not> filled_text (t_entry_client_order_id u)")
      case False
      then have "snd (executeOpen env t i s) = s"
        by (auto simp: executeOpen_def and_then_def reread_def reading_def require_def throw_def u)
      then show ?thesis using once_state_weaken [OF s] by (auto simp: once_in_def)
    next
      case True
      let ?cid = "fst (mint_leg env LegEntry u)" and ?m = "u\<lparr>t_leg_seq := t_leg_seq u + 1\<rparr>" and ?now = "xe_now env (rt_tick s)"
      let ?sent = "(stamp_thread ?now ?m)\<lparr>t_entry_client_order_id := Some ?cid, t_entry_submitting_since := Some ?now, t_entry_submitted_at := None\<rparr>"
      let ?s = "s\<lparr>rt_tick := rt_tick s + 1, rt_threads := map_set (rt_threads s) (t_id u) ?sent\<rparr>" and ?S = "insert (t_id u) S"
      have go: "executeOpen env t i s = submit_entry env u ?m ?cid i ?s"
        using True by (simp add: executeOpen_def and_then_def reread_def reading_def require_def ret_def clock_def saveThread_def change_def u Let_def)
      have new: "t_id u \<notin> S" using g True by (simp add: spent_in_def)
      have J: "sent.J env h ?S X ?s" using good_enter [OF o, of ?sent] g by simp
      have "sends (sent.J env h ?S X) (t_id u) 1 (submit_entry env u ?m ?cid i) (\<lambda>_. True)"
        by (rule sends_submit) (use g True in simp_all)
      note f = sendsD [OF this J]
      obtain n k where n: "rt_calls (snd (submit_entry env u ?m ?cid i ?s)) = rt_calls s @ n" "k \<le> 1" "entered_ids n = replicate k (t_id u)"
        using f(2) by auto
      have "k = 0 \<or> k = 1" using n(2) by auto
      then have "distinct (entered_ids (rt_calls s @ n)) \<and> set (entered_ids (rt_calls s @ n)) \<subseteq> ?S"
        using s n(3) new by (auto simp: once_state_def)
      then have "once_state env h ?S X {} {} (snd (submit_entry env u ?m ?cid i ?s))" using f(1) n(1) by (simp add: once_state_def)
      then show ?thesis unfolding go once_in_def by blast
    qed
  qed
  then show ?thesis by (intro once_okI) auto
qed

section \<open>The handlers that open\<close>

lemma once_approve: "once_ok env {} {} (approveIntent env iid nonce by_agent) (\<lambda>_. ({}, {}))"
proof -
  have go: "once_ok env {t} R (carry_out env i t) (\<lambda>_. ({}, {}))" for t i R
  proof (cases "in_kind i")
    case IK_close
    show ?thesis unfolding carry_out_def IK_close intent_kind.case
      by (rule once_done, intro keeps_and_then keeps_update_intent keeps_reading once.keeps_closeThreadNow) auto
  qed (simp_all add: carry_out_def once_execute once_ret)
  show ?thesis unfolding approveIntent_def
    by (intro once_bound once_reading once_option once_throw once_prod go once_step once.keeps_find_intent once.keeps_consent
        keeps_require TrueI) (auto intro: go)
qed

lemma keeps_account_once:
  "keeps (good env h (S \<union> t_id ` P) X (\<lambda>_. True) (spent_in S)) no_entry (change (\<lambda>s. s\<lparr>rt_account := Some a\<rparr>)) (\<lambda>_. True)"
  by (intro keeps_change good_account) auto

lemmas once_steps = once_reading once_clock once_option once_throw once_prod once_if once_ret once_save_step once_step
  once.keeps_get_rules once.keeps_get_account once.keeps_fetch_market once.keeps_market_of once.keeps_newIntent keeps_account_once
  keeps_require keeps_attempt keeps_update_intent keeps_ret keeps_option TrueI

lemma once_manual_open:
  assumes "inj (xe_fresh_id env)"
  shows "once_ok env {} {} (manual_open env req) (\<lambda>_. ({}, {}))"
  unfolding manual_open_def Let_def
  by (intro once_fresh_step [OF assms] once_steps once_execute) simp_all

lemma once_openProposal:
  assumes "inj (xe_fresh_id env)"
  shows "once_ok env {} {} (openThreadFromProposal env ep symbol j stale src forced) (\<lambda>_. ({}, {}))"
  unfolding openThreadFromProposal_def Let_def
  by (intro once_fresh_step [OF assms] once_steps once_execute) (auto intro!: once_done keeps_saveThread simp: spent_in_def)

lemma once_adopt:
  assumes "inj (xe_fresh_id env)"
  shows "once_ok env {} {} (adoptPosition env symbol stop tp) (\<lambda>_. ({}, {}))"
  unfolding adoptPosition_def Let_def
  by (intro once_fresh_step [OF assms] once_steps once_done once.keeps_pollAccount keeps_only_if keeps_and_then once.keeps_placeProtection
      once.keeps_clear_algo) simp_all

lemma once_scan:
  assumes "inj (xe_fresh_id env)"
  shows "once_ok env {} {} (apply_scan env ep started symbol j acct market stale) (\<lambda>_. ({}, {}))"
  unfolding apply_scan_def by (intro once_openProposal [OF assms] once_steps)

lemma once_chat:
  assumes "inj (xe_fresh_id env)"
  shows "once_ok env {} {} (and_then (propose_thread env ep symbol p) (\<lambda>_. ret ())) (\<lambda>_. ({}, {}))"
proof (rule once_and_then)
  show "once_ok env {} {} (propose_thread env ep symbol p) (\<lambda>_. ({}, {}))"
    unfolding propose_thread_def Let_def
    by (intro once_and_then [OF once_openProposal [OF assms]] once_steps)
qed (simp add: once_ret)

interpretation once: ending_upkeep env h S "S \<union> P" "\<lambda>_. True" "spent_in S" no_entry for env h S P
  by unfold_locales (auto simp: spent_in_def becomes_def)

lemma once_halt: "once_ok env {} {} (halt env) (\<lambda>_. ({}, {}))"
proof -
  have "once_in env {} {} (snd (halt env s))" if s: "once_state env h S X {} {} s" for h S X s
  proof -
    let ?s = "s\<lparr>rt_halted := True\<rparr>"
    have e: "halt env s = halt env ?s" by (simp add: halt_def and_then_def change_def)
    have "once_state env True S X {} {} ?s" using s by (simp add: once_state_def good_def)
    from once_state_keeps [OF this once.keeps_halt] show ?thesis unfolding e once_in_def by auto
  qed
  then show ?thesis by (intro once_okI) auto
qed

lemma once_resume: "once_ok env {} {} resume (\<lambda>_. ({}, {}))"
proof -
  have "once_in env {} {} (snd (resume s))" if s: "once_state env h S X {} {} s" for h S X s
  proof -
    have "once_state env False S X {} {} (snd (resume s))"
      using s by (auto simp: resume_def and_then_def reading_def only_if_def ret_def kv_set_def change_def once_state_def good_def)
    then show ?thesis unfolding once_in_def by blast
  qed
  then show ?thesis by (intro once_okI) auto
qed

lemma once_handle:
  assumes "inj (xe_fresh_id env)"
  shows "once_ok env {} {} (handle env e) (\<lambda>_. ({}, {}))"
proof -
  have k: "once_ok env {} {} m (\<lambda>_. ({}, {}))"
    if "\<And>h S X. keeps (good env h (S \<union> t_id ` ({} :: thread set)) X (\<lambda>_. True) (spent_in S)) no_entry m (\<lambda>_. True)" for m
    by (rule once_done) (rule that)
  have c: "once_ok env {} {} (change f) (\<lambda>_. ({}, {}))"
    if "\<And>h S X s. good env h S X (\<lambda>_. True) (spent_in S) (f s) = good env h S X (\<lambda>_. True) (spent_in S) s"
      "\<And>s. rt_calls (f s) = rt_calls s" for f
    by (rule k, rule keeps_change) (simp_all add: that)
  have unit: "keeps J no_entry (ret ()) (\<lambda>_. True)" for J by (rule keeps_ret) simp
  note closing = k [OF once.keeps_pollAccount [OF TrueI]] k [OF once.keeps_closeThread [OF TrueI]] k [OF once.keeps_reject [OF TrueI]]
    k [OF once.keeps_manual_close [OF TrueI]] k [OF once.keeps_apply_review [OF TrueI]]
    k [OF keeps_and_then [OF once.keeps_issue [OF unit]]] k [OF keeps_and_then [OF once.keeps_propose_close [OF unit]]]
  show ?thesis
    by (cases e) (simp_all only: handle.simps closing once_approve once_halt once_resume once_manual_open [OF assms] once_adopt [OF assms]
      once_scan [OF assms] once_chat [OF assms], (rule c; simp)+)
qed

text \<open>C2 The entry of a thread is sent at most once: over any run of events from a well-formed state, on any exchange, no two of
  the entries sent are for the same thread, whatever the first request was answered.\<close>

theorem entry_sent_at_most_once:
  assumes "inj (xe_fresh_id env)" "sound env s" "rt_calls s = []"
  shows "distinct (entered_ids (rt_calls (run env es s)))"
proof -
  have "once_in env {} {} (run env es u)" if "once_in env {} {} u" for u
    using that
  proof (induction es arbitrary: u)
    case (Cons e es)
    then show ?case using once_handle [OF assms(1), of e] unfolding once_ok_def by simp
  qed simp
  moreover have "good env (rt_halted s) {} (fst ` set (rt_threads s)) (\<lambda>_. True) (spent_in {}) s"
    by (rule sound_good [OF assms(2)]) (simp_all add: spent_in_def list_all_iff)
  then have "once_state env (rt_halted s) {} (fst ` set (rt_threads s)) {} {} s"
    using assms(3) by (simp add: once_state_def entered_ids_def)
  then have "once_in env {} {} s" unfolding once_in_def by blast
  ultimately have "once_in env {} {} (run env es s)" by blast
  then obtain h S X where "once_state env h S X {} {} (run env es s)" unfolding once_in_def by blast
  then show ?thesis by (simp add: once_state_def)
qed

end
