(* ===== verification/PositionKept.thy ===== *)
theory PositionKept imports Safety begin

text \<open>
  A position the exchange keeps reporting is not dropped: whatever is asked and answered, the thread of such a position stays
  in position, except by the rejection of an intent, which cancels the thread of a proposed close too.
\<close>

definition shown :: "string \<Rightarrow> direction \<Rightarrow> account_view \<Rightarrow> bool" where
  "shown symbol side a = (\<exists>p. List.find (\<lambda>p. pv_symbol p = symbol) (av_positions a) = Some p \<and> pv_side p = side)"

definition kept_as :: "string \<Rightarrow> string \<Rightarrow> direction \<Rightarrow> thread \<Rightarrow> bool" where
  "kept_as tid symbol side t = (t_id t = tid \<longrightarrow> t_symbol t = symbol \<and> t_side t = side \<and> t_status t = In_position)"

definition account_shows :: "string \<Rightarrow> direction \<Rightarrow> account_view option \<Rightarrow> bool" where
  "account_shows symbol side x = (case x of None \<Rightarrow> False | Some a \<Rightarrow> shown symbol side a)"

definition any_call :: "call \<Rightarrow> bool" where "any_call cl = True"

text \<open>The exchange keeps reporting the position and acknowledges no close of it without an error.\<close>

definition always_reports :: "exec_env \<Rightarrow> string \<Rightarrow> direction \<Rightarrow> bool" where
  "always_reports env symbol side = ((\<forall>n a. xe_account env n = Some a \<longrightarrow> shown symbol side a) \<and>
     (\<forall>n cid e r. xe_close env n symbol cid = Some (True, e, r) \<longrightarrow> filled_text e))"

lemma never_ends:
  assumes "always_reports env symbol side" "t_symbol t = symbol" "t_side t = side" "t_status t = In_position"
  shows "\<not> may_end env t"
proof
  assume "may_end env t"
  then consider n cid e r where "xe_close env n symbol cid = Some (True, e, r)" "\<not> filled_text e"
    | n a where "xe_account env n = Some a" "\<not> reported t a"
    unfolding may_end_def assms(2,4) by blast
  then show False
  proof cases
    case 1
    then show ?thesis using assms(1) unfolding always_reports_def by blast
  next
    case 2
    then show ?thesis using assms unfolding always_reports_def shown_def reported_def by blast
  qed
qed

lemma no_close: "always_reports env symbol side \<Longrightarrow> xe_close env n symbol cid = Some (b, e, r) \<Longrightarrow> b \<Longrightarrow> filled_text e"
  unfolding always_reports_def by (metis (full_types))

lemma kept_upkeep:
  assumes "always_reports env symbol side"
  shows "entry_upkeep env h {} {tid} (account_shows symbol side) (kept_as tid symbol side) any_call"
proof
  fix t v u assume "kept_as tid symbol side t \<or> t_id t \<in> {}" "may_end env t" "kept_as tid symbol side v" "t_id v = t_id t"
    "becomes {Closed, Canceled} v u"
  then show "kept_as tid symbol side u" using never_ends [OF assms, of t] by (auto simp: kept_as_def becomes_def)
qed (use assms in \<open>auto simp: kept_as_def same_core_def becomes_def with_entry_def always_reports_def account_shows_def any_call_def\<close>)

lemmas kept_base = entry_upkeep.axioms(1) [OF kept_upkeep]

abbreviation kept_J :: "exec_env \<Rightarrow> bool \<Rightarrow> string \<Rightarrow> string \<Rightarrow> direction \<Rightarrow> string set \<Rightarrow> rt \<Rightarrow> bool" where
  "kept_J env h tid symbol side X \<equiv> good env h {tid} X (account_shows symbol side) (kept_as tid symbol side)"

lemma kept_held: "kept_J env h tid symbol side X s \<Longrightarrow> held s symbol \<noteq> None"
  by (auto simp: good_def account_shows_def shown_def held_def split: option.splits)

lemma kept_halt_symbol:
  assumes "always_reports env symbol side"
  shows "keeps (kept_J env h tid symbol side X) any_call (halt_symbol env x) (\<lambda>b. x = symbol \<longrightarrow> b)"
  unfolding halt_symbol_def
  by (intro keeps_and_then upkeep.keeps_ack [OF kept_base [OF assms]] keeps_prod keeps_clock upkeep.keeps_close_position [OF kept_base [OF assms]]
      keeps_reading keeps_ret) (use no_close [OF assms] in \<open>auto dest!: kept_held\<close>)

lemma kept_collect:
  assumes "\<And>x. keeps J c (f x) (\<lambda>b. x = symbol \<longrightarrow> b)"
  shows "keeps J c (collect f xs) (\<lambda>ys. symbol \<in> set xs \<longrightarrow> symbol \<in> set ys)"
proof (induction xs)
  case (Cons x xs)
  have "keeps J c (and_then (collect f xs) (\<lambda>ys. ret (if b then x # ys else ys))) (\<lambda>ys. symbol \<in> set (x # xs) \<longrightarrow> symbol \<in> set ys)"
    if "x = symbol \<longrightarrow> b" for b
    by (rule keeps_and_then, rule keeps_post [OF Cons], rule keeps_ret) (use that in auto)
  then show ?case unfolding collect.simps
    by (rule keeps_and_then [OF keeps_post [OF assms]])
qed (simp add: keeps_ret)

lemma kept_halt:
  assumes "always_reports env symbol side"
  shows "keeps (kept_J env True tid symbol side X) any_call (halt env) (\<lambda>_. True)"
proof -
  have t: "keeps (kept_J env True tid symbol side X) any_call (halt_thread env missed t) (\<lambda>_. True)"
    if "symbol \<in> set missed" "kept_as tid symbol side t" "t_id t \<in> X" for missed t
    unfolding halt_thread_def
    by (intro keeps_and_then keeps_clock keeps_saveThread) (use that in \<open>auto simp: kept_as_def stamp_thread_def\<close>)
  have rest: "keeps (kept_J env True tid symbol side X) any_call
      (and_then (reading openThreads) (\<lambda>ts. and_then (each (halt_thread env missed) ts) (\<lambda>_. pollAccount env))) (\<lambda>_. True)"
    if "symbol \<in> set missed" for missed
    by (intro keeps_and_then upkeep.keeps_open_threads [OF kept_base [OF assms]] keeps_each t
        upkeep.keeps_pollAccount [OF kept_base [OF assms]]) (use that in auto)
  let ?rest = "\<lambda>missed. keeps (kept_J env True tid symbol side X) any_call
      (and_then (reading openThreads) (\<lambda>ts. and_then (each (halt_thread env missed) ts) (\<lambda>_. pollAccount env))) (\<lambda>_. True)"
  show ?thesis unfolding halt_def
  proof (intro keeps_and_then keeps_change keeps_kv_set keeps_reading)
    fix s assume s: "kept_J env True tid symbol side X s"
    let ?xs = "uniq (List.map t_symbol (openThreads s) @ (case rt_account s of None \<Rightarrow> [] | Some a \<Rightarrow> List.map pv_symbol (av_positions a)))"
    have "symbol \<in> set ?xs"
      using s by (cases "rt_account s") (auto simp: good_def account_shows_def shown_def uniq_def find_Some_iff)
    then show "keeps (kept_J env True tid symbol side X) any_call (collect (halt_symbol env) ?xs) ?rest"
      by (intro keeps_post [OF kept_collect [OF kept_halt_symbol [OF assms]]]) (use rest in simp)
  qed (auto simp: good_def)
qed

lemma kept_handle:
  assumes "inj (xe_fresh_id env)" "always_reports env symbol side" "\<forall>iid. e \<noteq> E_reject iid"
    "\<exists>h X. kept_J env h tid symbol side X s"
  shows "\<exists>h X. kept_J env h tid symbol side X (snd (handle env e s))"
proof -
  obtain h X where s: "kept_J env h tid symbol side X s" using assms(4) by blast
  consider "plain_event e" | "e = E_halt" | "e = E_resume" using assms(3) by (cases e) (auto simp: plain_event_def)
  then show ?thesis
  proof cases
    case 1
    then show ?thesis using keepsD(1) [OF entry_upkeep.keeps_handle [OF kept_upkeep [OF assms(2)] assms(1)]] s by blast
  next
    case 2
    let ?s = "s\<lparr>rt_halted := True\<rparr>"
    have e: "halt env s = halt env ?s" by (simp add: halt_def and_then_def change_def)
    have "kept_J env True tid symbol side X ?s" using s by (simp add: good_def)
    then show ?thesis using keepsD(1) [OF kept_halt [OF assms(2)]] unfolding 2 handle.simps e by blast
  next
    case 3
    have "kept_J env False tid symbol side X (snd (resume s))"
      using s by (auto simp: resume_def and_then_def reading_def only_if_def ret_def kv_set_def change_def good_def)
    then show ?thesis unfolding 3 handle.simps by blast
  qed
qed

text \<open>C3 A position the exchange keeps reporting is never dropped: while every account answer lists it on the thread's side and
  no close of its symbol is acknowledged without an error, its thread stays stored, on its symbol and in position, over any
  run of polls, closes, reviews, approvals, halts and other events, but for the rejection of an intent.\<close>

theorem reported_position_is_kept:
  assumes "inj (xe_fresh_id env)" "sound env s" "always_reports env (t_symbol t) (t_side t)"
    "thread_at s tid = Some t" "t_status t = In_position" "account_shows (t_symbol t) (t_side t) (rt_account s)"
    "list_all (\<lambda>e. \<forall>iid. e \<noteq> E_reject iid) es"
  shows "\<exists>u. thread_at (run env es s) tid = Some u \<and> t_status u = In_position \<and> t_symbol u = t_symbol t"
proof -
  let ?J = "\<lambda>s. \<exists>h X. kept_J env h tid (t_symbol t) (t_side t) X s"
  have in_s: "(tid, t) \<in> set (rt_threads s)" using assms(4) by (simp add: thread_at_def map_of_SomeD)
  have "list_all (kept_as tid (t_symbol t) (t_side t) \<circ> snd) (rt_threads s)"
    unfolding list_all_iff
  proof
    fix x assume x: "x \<in> set (rt_threads s)"
    have "distinct (List.map fst (rt_threads s))" "t_id (snd x) = fst x" using assms(2) x by (auto simp: sound_def list_all_iff)
    then show "(kept_as tid (t_symbol t) (t_side t) \<circ> snd) x"
      using x in_s assms(5) eq_key_imp_eq_value [of "rt_threads s" tid t "snd x"] by (cases x) (auto simp: kept_as_def)
  qed
  then have "?J s" using sound_good [OF assms(2), of "account_shows (t_symbol t) (t_side t)" "{tid}"] in_s assms(6) by force
  then have "?J (run env es s)" using assms(7)
    by (induction es arbitrary: s) (use kept_handle [OF assms(1,3)] in auto)
  then obtain h X where g: "kept_J env h tid (t_symbol t) (t_side t) X (run env es s)" by blast
  then have "tid \<in> fst ` set (rt_threads (run env es s))" by (simp add: good_def)
  then obtain u where u: "thread_at (run env es s) tid = Some u" unfolding thread_at_def by (metis map_of_eq_None_iff not_None_eq)
  show ?thesis using u good_thread [OF g u] by (auto simp: kept_as_def)
qed

end
