(* ===== verification/Protected.thy ===== *)
theory Protected imports Upkeep begin

text \<open>
  What protecting a position comes to (\<open>placeProtection\<close>), when it returns: the thread has its stop, or it is closed
  because the exchange acknowledged a close, or it is flagged for a person and the next pass.
\<close>

section \<open>What a handler reaches when it returns\<close>

definition reaches :: "(rt \<Rightarrow> bool) \<Rightarrow> 'a act \<Rightarrow> ('a \<Rightarrow> rt \<Rightarrow> bool) \<Rightarrow> bool" where
  "reaches P m Q = (\<forall>s x s'. P s \<longrightarrow> m s = (Inr x, s') \<longrightarrow> Q x s')"

lemma reaches_ret: "(\<And>s. P s \<Longrightarrow> Q x s) \<Longrightarrow> reaches P (ret x) Q"
  by (simp add: reaches_def ret_def)

lemma reaches_and_then: "reaches P m R \<Longrightarrow> (\<And>x. reaches (R x) (f x) Q) \<Longrightarrow> reaches P (and_then m f) Q"
  unfolding reaches_def and_then_def by (fastforce split: prod.splits sum.splits)

lemma reaches_mono: "reaches P m Q \<Longrightarrow> (\<And>s. P' s \<Longrightarrow> P s) \<Longrightarrow> (\<And>x s. Q x s \<Longrightarrow> Q' x s) \<Longrightarrow> reaches P' m Q'"
  unfolding reaches_def by blast

lemma reaches_keeps: "keeps P c m R \<Longrightarrow> (\<And>x s. P s \<Longrightarrow> R x \<Longrightarrow> Q x s) \<Longrightarrow> reaches P m Q"
  unfolding reaches_def using keepsD by (metis fst_conv snd_conv)

lemma reaches_if: "(b \<Longrightarrow> reaches P m Q) \<Longrightarrow> (\<not> b \<Longrightarrow> reaches P n Q) \<Longrightarrow> reaches P (if b then m else n) Q"
  by simp

lemma reaches_option: "(v = None \<Longrightarrow> reaches P m Q) \<Longrightarrow> (\<And>x. v = Some x \<Longrightarrow> reaches P (f x) Q)
    \<Longrightarrow> reaches P (case v of None \<Rightarrow> m | Some x \<Rightarrow> f x) Q"
  by (cases v) auto

lemma reaches_prod: "(\<And>a b. v = (a, b) \<Longrightarrow> reaches P (f a b) Q) \<Longrightarrow> reaches P (case v of (a, b) \<Rightarrow> f a b) Q"
  by (cases v) auto

lemma reaches_under: "(\<And>s. P s \<Longrightarrow> b) \<Longrightarrow> (b \<Longrightarrow> reaches P m Q) \<Longrightarrow> reaches P m Q"
  unfolding reaches_def by blast

section \<open>The thread in the store\<close>

definition stores :: "thread \<Rightarrow> call set \<Rightarrow> rt \<Rightarrow> bool" where
  "stores t C s = (thread_at s (t_id t) = Some t \<and> C \<subseteq> set (rt_calls s))"

lemma stores_request [keeps_rules]: "(\<And>n x. answer n = Some x \<Longrightarrow> Q x) \<Longrightarrow> keeps (stores t C) (\<lambda>_. True) (request call answer) Q"
  by (auto intro!: keepsI simp: request_def Let_def stores_def thread_at_def split: option.splits)

lemma stores_clock [keeps_rules]: "(\<And>n. Q (xe_now env n)) \<Longrightarrow> keeps (stores t C) (\<lambda>_. True) (clock env) Q"
  by (auto intro!: keepsI simp: clock_def stores_def thread_at_def)

lemma stores_change: "(\<And>s. rt_threads (f s) = rt_threads s \<and> rt_calls (f s) = rt_calls s) \<Longrightarrow> Q () \<Longrightarrow> keeps (stores t C) (\<lambda>_. True) (change f) Q"
  by (rule keeps_change) (auto simp: stores_def thread_at_def)

lemma sent_request:
  "reaches (stores t C) (request call answer) (\<lambda>x s. stores t (insert call C) s \<and> (\<exists>n. answer n = Some x))"
  by (auto simp: reaches_def request_def Let_def stores_def thread_at_def split: option.splits)

lemma saved: "t_id u = t_id t \<Longrightarrow> reaches (stores t C) (saveThread u) (\<lambda>_. stores u C)"
  by (auto simp: reaches_def saveThread_def change_def stores_def thread_at_def)

lemma reread_is: "t_id u = t_id t \<Longrightarrow> reaches (stores t C) (reread u) (\<lambda>x s. x = t \<and> stores t C s)"
  by (auto simp: reaches_def reread_def reading_def stores_def)

lemma stores_update [keeps_rules]: "Q () \<Longrightarrow> keeps (stores t C) (\<lambda>_. True) (update_intent i f) Q"
  unfolding update_intent_def by (rule stores_change) (auto split: option.split)

lemma stores_kv [keeps_rules]: "Q () \<Longrightarrow> keeps (stores t C) (\<lambda>_. True) (kv_set k v) Q"
  unfolding kv_set_def by (rule stores_change) auto

lemma stores_resolve: "keeps (stores t C) (\<lambda>_. True) (resolveOpenIntents u st) (\<lambda>_. True)"
  unfolding resolveOpenIntents_def by (intro keeps_rules keeps_each) auto

lemma stores_invalidate: "keeps (stores t C) (\<lambda>_. True) (invalidateProtection env) (\<lambda>_. True)"
  unfolding invalidateProtection_def by (intro keeps_if keeps_rules) auto

section \<open>The outcome\<close>

text \<open>The stop is on record and was sent, the close was acknowledged, or the thread is flagged.\<close>

definition settled :: "exec_env \<Rightarrow> thread \<Rightarrow> rt \<Rightarrow> bool" where
  "settled env t s = (case thread_at s (t_id t) of None \<Rightarrow> False
     | Some u \<Rightarrow> t_attention u \<in> {Some ''PROTECTION_MISSING'', Some ''CLOSE_FAILED''}
       \<or> t_status u = Closed \<and> (\<exists>n cid e r. C_close (t_symbol t) cid \<in> set (rt_calls s) \<and> xe_close env n (t_symbol t) cid = Some (True, e, r) \<and> \<not> filled_text e)
       \<or> t_status u = In_position \<and> (\<exists>cid \<in> set (t_protection_client_order_ids u).
            C_place_stop (t_id t) (t_symbol t) (t_side t) (the (t_stop_price t)) cid \<in> set (rt_calls s)))"

lemma settled_flagged: "stores v C s \<Longrightarrow> t_id v = t_id t \<Longrightarrow> t_attention v \<in> {Some ''PROTECTION_MISSING'', Some ''CLOSE_FAILED''} \<Longrightarrow> settled env t s"
  by (simp add: settled_def stores_def)

lemma settled_closed: "stores v C s \<Longrightarrow> t_id v = t_id t \<Longrightarrow> t_status v = Closed \<Longrightarrow> C_close (t_symbol t) cid \<in> C
    \<Longrightarrow> xe_close env n (t_symbol t) cid = Some (True, e, r) \<Longrightarrow> \<not> filled_text e \<Longrightarrow> settled env t s"
  unfolding settled_def stores_def by (cases r) (simp, blast)

lemma pass_clock: "reaches (stores t C) (clock env) (\<lambda>_. stores t C)"
  by (rule reaches_keeps [OF stores_clock]) auto

lemma pass_invalidate: "reaches (stores t C) (only_if b (invalidateProtection env)) (\<lambda>_. stores t C)"
  by (rule reaches_keeps [OF keeps_only_if [OF stores_invalidate]]) auto

lemma pass_resolve: "(\<And>s. stores t C s \<Longrightarrow> Q () s) \<Longrightarrow> reaches (stores t C) (resolveOpenIntents u st) Q"
  by (rule reaches_keeps [OF stores_resolve]) auto

lemma reaches_fact: "(b \<Longrightarrow> reaches P m Q) \<Longrightarrow> reaches (\<lambda>s. P s \<and> b) m Q"
  unfolding reaches_def by blast

lemma save_post: "t_id u = t_id t \<Longrightarrow> (\<And>s. stores u C s \<Longrightarrow> Q () s) \<Longrightarrow> reaches (stores t C) (saveThread u) Q"
  using saved [of u t C] unfolding reaches_def by auto

lemma compensate_settles:
  assumes "t_id u = t_id t" "t_symbol u = t_symbol t"
  shows "reaches (stores u C) (compensate env u r) (\<lambda>_. settled env t)"
  unfolding compensate_def Let_def mint_leg_split close_position_def
  apply (rule reaches_and_then, rule pass_invalidate)
  apply (rule reaches_and_then, rule saved, simp)
  apply (rule reaches_and_then, rule sent_request)
  apply (rule reaches_fact, elim exE, rule reaches_prod, rule reaches_prod)
  apply (rule reaches_and_then, rule pass_clock)
  apply (rule reaches_if)
   apply (rule reaches_and_then, rule saved, simp add: stamp_thread_def)
   apply (rule pass_resolve, rule settled_closed, assumption)
        apply (use assms in \<open>auto simp: stamp_thread_def\<close>)[5]
  apply (rule save_post, simp add: stamp_thread_def)
  apply (rule settled_flagged, assumption)
   apply (use assms in \<open>auto simp: stamp_thread_def\<close>)[2]
  done

text \<open>The stop that was sent for the thread.\<close>

abbreviation stop_of :: "thread \<Rightarrow> string \<Rightarrow> call" where
  "stop_of t cid \<equiv> C_place_stop (t_id t) (t_symbol t) (t_side t) (the (t_stop_price t)) cid"

definition same_order :: "thread \<Rightarrow> thread \<Rightarrow> bool" where
  "same_order t u = (t_id u = t_id t \<and> t_symbol u = t_symbol t \<and> t_side u = t_side t \<and> t_stop_price u = t_stop_price t
     \<and> t_status u = t_status t)"

lemma settle_stop_passes: "reaches (stores t C) (settle_stop env u price cid r) (\<lambda>_. stores t C)"
  unfolding settle_stop_def stop_seen_def get_order_def place_stop_def
  by (rule reaches_keeps [where R = "\<lambda>_. True" and c = "\<lambda>_. True"])
    (auto intro!: keeps_rules keeps_if keeps_option stores_request split: option.split bool.split)

lemma protect_stop_reaches:
  assumes "filled_text (t_stop_price t)"
  shows "reaches (stores t C) (protect_stop env None t) (\<lambda>r s. case r of None \<Rightarrow> settled env t s
     | Some (u, ids) \<Rightarrow> same_order t u \<and> (\<exists>cid. ids = [cid] \<and> stores u {stop_of t cid} s))"
  unfolding protect_stop_def Let_def mint_leg_split option.case place_stop_def if_not_P [OF assms [THEN iffD2 [OF not_not]]]
  apply (rule reaches_and_then, rule saved, simp)
  apply (rule reaches_and_then, rule sent_request)
  apply (rule reaches_fact)
  apply (rule reaches_and_then, rule settle_stop_passes)
  apply (rule reaches_option)
   apply (rule reaches_and_then, rule pass_clock)
   apply (rule reaches_and_then, rule saved, simp add: stamp_thread_def)
   apply (rule reaches_ret, simp, rule settled_flagged, assumption)
    apply (simp_all add: stamp_thread_def)[2]
  apply (rule reaches_if)
   apply (rule reaches_and_then, rule compensate_settles)
     apply (simp_all)[2]
   apply (rule reaches_ret, simp)
  apply (rule reaches_ret)
  apply (auto simp: same_order_def stores_def)
  done

lemma protect_tp_reaches:
  "reaches (stores u C) (protect_tp env None u ids) (\<lambda>(v, ids') s. same_order u v \<and> stores v C s \<and> set ids \<subseteq> set ids')"
  unfolding protect_tp_def Let_def
  apply (cases "t_take_profits u")
   apply (simp, rule reaches_ret, simp add: same_order_def)
  apply (simp only: list.case Option.bind.simps option.case mint_leg_split)
  apply (rule reaches_if)
   apply (rule reaches_ret, simp add: same_order_def)
  apply (rule reaches_and_then, rule saved, simp)
  apply (rule reaches_and_then, rule reaches_keeps [where Q = "\<lambda>_. stores (u\<lparr>t_leg_seq := t_leg_seq u + 1\<rparr>) C" and c = "\<lambda>_. True" and R = "\<lambda>_. True"])
    apply (rule stores_request, simp)
   apply simp
  apply (rule reaches_ret, simp add: same_order_def, blast)
  done

lemma run_first:
  "and_then (reading g) f s = f (g s) s" "and_then (clock env) f1 s = f1 (xe_now env (rt_tick s)) (s\<lparr>rt_tick := rt_tick s + 1\<rparr>)"
  "and_then (change h) f' s = f' () (h s)" "and_then (reread t) f'' s = f'' (case thread_at s (t_id t) of None \<Rightarrow> t | Some u \<Rightarrow> u) s"
  by (simp_all add: and_then_def reading_def clock_def change_def reread_def)

lemma record_reaches:
  assumes "same_order t v" "t_status t = In_position" "cid \<in> set ids"
  shows "reaches (stores v {stop_of t cid}) (and_then (reread v) (\<lambda>cur. and_then (clock env) (\<lambda>now.
     saveThread (stamp_thread now (cur\<lparr>t_protection_client_order_ids := ids,
       t_attention := (if t_attention cur = Some ''ENTRY_REMAINDER'' then Some ''ENTRY_REMAINDER'' else None)\<rparr>))))) (\<lambda>_. settled env t)"
proof (rule reaches_and_then, rule reread_is, rule refl)
  fix cur :: thread
  show "reaches (\<lambda>s. cur = v \<and> stores v {stop_of t cid} s) (and_then (clock env) (\<lambda>now. saveThread (stamp_thread now
      (cur\<lparr>t_protection_client_order_ids := ids,
       t_attention := (if t_attention cur = Some ''ENTRY_REMAINDER'' then Some ''ENTRY_REMAINDER'' else None)\<rparr>)))) (\<lambda>_. settled env t)"
  proof (rule reaches_under [where b = "cur = v"], blast, rule reaches_mono)
    assume "cur = v"
    then show "reaches (stores v {stop_of t cid}) (and_then (clock env) (\<lambda>now. saveThread (stamp_thread now
      (cur\<lparr>t_protection_client_order_ids := ids,
       t_attention := (if t_attention cur = Some ''ENTRY_REMAINDER'' then Some ''ENTRY_REMAINDER'' else None)\<rparr>)))) (\<lambda>_. settled env t)"
      using assms
      by (intro reaches_and_then [OF pass_clock] save_post) (auto simp: stamp_thread_def settled_def stores_def same_order_def)
  qed auto
qed

lemma with_stop:
  assumes "same_order t u" "t_status t = In_position"
  shows "reaches (stores u {stop_of t cid}) (and_then (protect_tp env None u (old @ [cid])) (\<lambda>(t2, ids2).
           and_then (reread t2) (\<lambda>cur. and_then (clock env) (\<lambda>now2.
           saveThread (stamp_thread now2 (cur\<lparr>t_protection_client_order_ids := ids2,
             t_attention := (if t_attention cur = Some ''ENTRY_REMAINDER'' then Some ''ENTRY_REMAINDER'' else None)\<rparr>)))))) (\<lambda>_. settled env t)"
proof (rule reaches_and_then, rule protect_tp_reaches)
  fix x :: "thread \<times> string list"
  obtain v ids where x: "x = (v, ids)" by fastforce
  have "same_order u v \<and> cid \<in> set ids \<Longrightarrow> same_order t v" using assms(1) by (simp add: same_order_def)
  then show "reaches (case x of (v, ids') \<Rightarrow> \<lambda>s. same_order u v \<and> stores v {stop_of t cid} s \<and> set (old @ [cid]) \<subseteq> set ids')
     (case x of (t2, ids2) \<Rightarrow> and_then (reread t2) (\<lambda>cur. and_then (clock env) (\<lambda>now2.
           saveThread (stamp_thread now2 (cur\<lparr>t_protection_client_order_ids := ids2,
             t_attention := (if t_attention cur = Some ''ENTRY_REMAINDER'' then Some ''ENTRY_REMAINDER'' else None)\<rparr>))))) (\<lambda>_. settled env t)"
    unfolding x using record_reaches [of t v cid ids env] assms(2) unfolding reaches_def by (simp, blast)
qed


end
