(* ===== verification/Rejected.thy ===== *)
theory Rejected imports Handlers begin

text \<open>What the rejection of an intent does to its thread, whatever the intent asked for.\<close>

lemma stored_sorted: "set (newest_first f n xs) \<subseteq> set xs"
  unfolding newest_first_def by (metis set_sort set_take_subset)

lemma open_threads_open: "t \<in> set (openThreads s) \<Longrightarrow> t_status t \<in> {Pending_entry, In_position} \<and> t \<in> set (List.map snd (rt_threads s))"
  unfolding openThreads_def store_threads_def using stored_sorted by fastforce

text \<open>C5 Rejecting a close that the chat proposed does not leave the position alone: the thread is recorded as canceled and is no
  longer among the threads the runtime watches, while nothing was sent to the exchange, so the position stays open there
  without a thread.\<close>

theorem rejected_close_drops_position:
  assumes "thread_at s tid = Some t" "t_id t = tid" "t_status t = In_position" "distinct (List.map fst (rt_threads s))"
    "list_all (\<lambda>(k, u). t_id u = k) (rt_threads s)"
  shows "let s' = run env [E_propose_close tid, E_reject (xe_fresh_id env (rt_tick s))] s in
    rt_calls s' = rt_calls s \<and> rt_account s' = rt_account s \<and> (\<exists>u. thread_at s' tid = Some u \<and> t_status u = Canceled)
    \<and> tid \<notin> set (List.map t_id (openThreads s'))"
proof -
  let ?iid = "xe_fresh_id env (rt_tick s)"
  define s1 where "s1 = snd (handle env (E_propose_close tid) s)"
  define s2 where "s2 = snd (handle env (E_reject ?iid) s1)"
  let ?u1 = "t\<lparr>t_intent_ids := t_intent_ids t @ [?iid]\<rparr>"
  have "\<exists>i. map_of (rt_intents s1) ?iid = Some i \<and> in_status i = IS_pending_approval \<and> in_thread_id i = Some tid"
    "thread_at s1 tid = Some ?u1" "rt_calls s1 = rt_calls s" "rt_account s1 = rt_account s" "rt_threads s1 = map_set (rt_threads s) tid ?u1"
    using assms(1-3)
    by (simp_all add: s1_def propose_close_def newIntent_def and_then_def reading_def change_def fresh_id_def clock_def ret_def
        isOpen_def OPEN_STATUSES_def thread_at_def market_part_def update_intent_def Let_def)
  then obtain i where s1: "thread_at s1 tid = Some ?u1" "t_id ?u1 = tid" "map_of (rt_intents s1) ?iid = Some i"
    "in_status i = IS_pending_approval" "in_thread_id i = Some tid" "rt_calls s1 = rt_calls s" "rt_account s1 = rt_account s"
    "rt_threads s1 = map_set (rt_threads s) tid ?u1"
    using assms(2) by auto
  define now where "now = xe_now env (rt_tick s1)"
  define u where "u = stamp_thread now (?u1\<lparr>t_status := Canceled, t_closed_at := Some now, t_close_reason := Some CR_user_rejected\<rparr>)"
  have "rt_threads s2 = map_set (rt_threads s1) tid u" "rt_calls s2 = rt_calls s1" "rt_account s2 = rt_account s1"
    using s1(1,3-5) assms(2)
    by (simp_all add: s2_def rejectIntent_def find_intent_def and_then_def reading_def change_def clock_def ret_def require_def
        update_intent_def saveThread_def thread_at_def u_def now_def stamp_thread_def)
  then have u: "t_id u = tid" "t_status u = Canceled" "rt_threads s2 = map_set (rt_threads s1) tid u"
    "rt_calls s2 = rt_calls s1" "rt_account s2 = rt_account s1" using assms(2) by (simp_all add: u_def stamp_thread_def)
  have t2: "rt_threads s2 = map_set (map_set (rt_threads s) tid ?u1) tid u" using u(3) s1(8) by simp
  have d: "distinct (List.map fst (rt_threads s2))" unfolding t2 using assms(4) by (intro distinct_map_set)
  have keys: "list_all (\<lambda>(k, u). t_id u = k) (rt_threads s2)"
    unfolding t2 using assms(5) s1(2) u(1) by (intro list_all_map_set) simp_all
  have at: "thread_at s2 tid = Some u" unfolding thread_at_def t2 by simp
  have "tid \<notin> set (List.map t_id (openThreads s2))"
  proof
    assume "tid \<in> set (List.map t_id (openThreads s2))"
    then obtain v where v: "v \<in> set (openThreads s2)" "t_id v = tid" by auto
    then obtain k where "(k, v) \<in> set (rt_threads s2)" using open_threads_open by fastforce
    moreover from this have "k = tid" using keys v(2) by (auto simp: list_all_iff)
    ultimately have "v = u" using at d unfolding thread_at_def by (metis map_of_is_SomeI option.inject)
    then show False using open_threads_open [OF v(1)] u(2) by simp
  qed
  then show ?thesis using at u(2,4,5) s1(6,7) by (simp add: s1_def s2_def Let_def)
qed

end
