(* ===== verification/RuntimeExample.thy ===== *)
theory RuntimeExample imports EntryOnce PositionKept Protected Rejected begin

text \<open>
  A concrete exchange and a concrete state on which the safety theorems apply: a paper account that is empty until the
  entry has filled and holds the long position from then on.
\<close>

definition demo_thread :: thread where
  "demo_thread = newThread \<lparr>ni_id = ''thr-1'', ni_backend = Some PaperB, ni_symbol = ''BTCUSDT'', ni_side = Long,
     ni_source = SrcAgent, ni_timeframe = ''15m'', ni_thesis = ''breakout'', ni_invalidation_text = None,
     ni_watch_conditions = [], ni_entry = \<lparr>en_type = Market, en_price = None, en_zone = None\<rparr>,
     ni_stop_price = Some ''95'', ni_take_profits = [''110''], ni_qty = ''1'', ni_margin_usdt = None, ni_leverage = Fin 3,
     ni_margin_mode = Cross, ni_strategy_id = None, ni_now = 1000\<rparr>"

definition demo_intent :: intent where
  "demo_intent = \<lparr>in_id = ''i-1'', in_episode_id = ''ep-1'', in_thread_id = Some ''thr-1'', in_principal = By_agent, in_at = 1000,
     in_kind = IK_open, in_symbol = ''BTCUSDT'', in_direction = Long, in_quantity = ''1'', in_entry = Market, in_limit_price = None,
     in_stop_price = Some ''95'', in_take_profit_price = Some ''110'', in_sizing = \<lparr>sz_equity = ''1000'', sz_risk_pct = ''0'',
       sz_risk_usdt = ''0'', sz_stop_distance = ''5'', sz_raw_qty = ''1'', sz_step_size = ''0.5'', sz_note = []\<rparr>,
     in_status = IS_pending_approval, in_client_order_id = None, in_backend = PaperB, in_error = None\<rparr>"

definition demo_position :: position_view where
  "demo_position = \<lparr>pv_symbol = ''BTCUSDT'', pv_side = Long, pv_qty = ''1'', pv_entry_price = ''100'', pv_mark_price = ''100'',
     pv_unrealized_pnl = ''0'', pv_leverage = Fin 3\<rparr>"

definition holding :: account_view where "holding = example_account\<lparr>av_positions := [demo_position]\<rparr>"

definition demo_receipt :: "order_outcome \<Rightarrow> order_receipt" where
  "demo_receipt oc = \<lparr>rc_outcome = oc, rc_receipt = JNull, rc_avg_price = Some ''100'', rc_error = None\<rparr>"

text \<open>The first \<open>flat\<close> requests find no position; an entry fills and its legs are accepted; closing is refused.\<close>

definition demo_env :: "nat \<Rightarrow> exec_env" where
  "demo_env flat = \<lparr>xe_now = (\<lambda>n. 1700000000000 + int n), xe_sha1 = (\<lambda>x. x), xe_sha256 = (\<lambda>x. x), xe_fresh_id = (\<lambda>n. CHR ''u'' # replicate n CHR ''x''),
     xe_gates = DEFAULT_GATES, xe_account = (\<lambda>n. Some (if n < flat then example_account else holding)),
     xe_rules = (\<lambda>n sym. Some example_rules), xe_market = (\<lambda>n sym. Some example_market), xe_ticker = (\<lambda>n sym. Some ()),
     xe_place_entry = (\<lambda>n r. Some (demo_receipt OO_filled)), xe_open_protected = None,
     xe_place_stop = (\<lambda>n cid. Some (demo_receipt OO_submitted)), xe_take_profit = (\<lambda>n cid. Some (demo_receipt OO_submitted)),
     xe_algo_exists = None, xe_get_order = (\<lambda>n cid. None), xe_close = (\<lambda>n sym cid. Some (False, Some ''refused'', None, None)),
     xe_reduce = (\<lambda>n sym cid. None), xe_ack = (\<lambda>n c. Some (True, None)), xe_list_algo = None, xe_has_capability = True\<rparr>"

definition demo_workflow :: workflow where
  "demo_workflow = (DEFAULT_WORKFLOW [] (\<lambda>_. None))\<lparr>w_paused := False, w_chat_requires_approval := False\<rparr>"

definition demo_state :: "bool \<Rightarrow> thread \<Rightarrow> account_view option \<Rightarrow> rt" where
  "demo_state halted t acct = \<lparr>rt_threads = [(''thr-1'', t)], rt_intents = [(''i-1'', demo_intent)], rt_kv = [], rt_account = acct,
     rt_markets = [(''BTCUSDT'', example_market)], rt_symbols = None,
     rt_workflow = demo_workflow, rt_halted = halted,
     rt_backend = PaperB, rt_retry_at = [], rt_events = [], rt_tokens = [], rt_proposals = [], rt_calls = [], rt_tick = 0\<rparr>"

lemma demo_fresh: "inj (xe_fresh_id (demo_env k))"
  by (rule injI) (auto simp: demo_env_def dest: arg_cong [of _ _ length])

lemma demo_sound: "t_id t = ''thr-1'' \<Longrightarrow> sound (demo_env k) (demo_state h t a)"
  by (simp add: sound_def demo_state_def demo_env_def)

lemma demo_thread_id: "t_id demo_thread = ''thr-1''" by (simp add: demo_thread_def newThread_def)


theorem entry_sent_at_most_once_witness:
  "distinct (entered_ids (rt_calls (run (demo_env 7) [E_approve ''i-1'' None True, E_approve ''i-1'' None True, E_poll]
     (demo_state False demo_thread (Some example_account)))))"
  by (rule entry_sent_at_most_once [OF demo_fresh demo_sound [OF demo_thread_id]]) (simp add: demo_state_def)

theorem reported_position_is_kept_witness:
  "(case thread_at (run (demo_env 0) [E_close ''thr-1'', E_poll, E_halt] (demo_state False (demo_thread\<lparr>t_status := In_position\<rparr>) (Some holding))) ''thr-1''
    of None \<Rightarrow> False | Some u \<Rightarrow> t_status u = In_position)"
proof -
  let ?t = "demo_thread\<lparr>t_status := In_position\<rparr>"
  have t: "t_symbol ?t = ''BTCUSDT''" "t_side ?t = Long" "t_id ?t = ''thr-1''" by (simp_all add: demo_thread_def newThread_def)
  have "shown ''BTCUSDT'' Long holding" by (simp add: shown_def holding_def demo_position_def)
  then show ?thesis
    using reported_position_is_kept [of "demo_env 0" "demo_state False ?t (Some holding)" ?t "''thr-1''"
        "[E_close ''thr-1'', E_poll, E_halt]", OF demo_fresh demo_sound] t
    by (auto simp: always_reports_def account_shows_def demo_env_def demo_state_def thread_at_def filled_text_def)
qed

theorem rejected_close_drops_position_witness:
  "''thr-1'' \<notin> set (List.map t_id (openThreads (run (demo_env 0) [E_propose_close ''thr-1'', E_reject ''u'']
     (demo_state False (demo_thread\<lparr>t_status := In_position\<rparr>) (Some holding)))))"
  using rejected_close_drops_position [of "demo_state False (demo_thread\<lparr>t_status := In_position\<rparr>) (Some holding)" "''thr-1''"
      "demo_thread\<lparr>t_status := In_position\<rparr>" "demo_env 0"] demo_thread_id
  by (auto simp: demo_state_def thread_at_def Let_def demo_env_def)

lemma run_more:
  "and_then (request c q) f s = (case q (rt_tick s) of None \<Rightarrow> (Inl Thrown, s\<lparr>rt_calls := rt_calls s @ [c], rt_tick := rt_tick s + 1\<rparr>)
     | Some x \<Rightarrow> f x (s\<lparr>rt_calls := rt_calls s @ [c], rt_tick := rt_tick s + 1\<rparr>))"
  "and_then (saveThread t) g s = g () (s\<lparr>rt_threads := map_set (rt_threads s) (t_id t) t\<rparr>)" "and_then (ret x) h s = h x s"
  "and_then (and_then m k) l s = and_then m (\<lambda>x. and_then (k x) l) s"
  by (simp_all add: and_then_def request_def saveThread_def change_def ret_def Let_def split: option.split prod.split sum.split)

text \<open>An approval sends the entry after its checks; the exchange refuses it here, so nothing follows.\<close>

lemma demo_workflow_facts: "w_paused demo_workflow = False" "w_chat_requires_approval demo_workflow = False"
  "\<not> js_number (w_daily_loss_stop_pct demo_workflow) \<le> (js_number ''1000'' - js_number ''1000'') / js_number ''1000'' * Fin 100"
  "Fin 0 < js_number ''1000''" "\<not> Fin 0 < js_number ''0''"
  "\<not> w_max_open_threads demo_workflow \<le> of_count 0" "\<not> w_max_opens_per_day demo_workflow \<le> of_count 0"
  by code_simp+

lemma demo_preflight:
  assumes "rt_halted s = False" "rt_workflow s = demo_workflow" "rt_threads s = [(''thr-1'', t)]" "t_id t = ''thr-1''"
    "rt_account s = Some example_account" "rt_kv s = []" "rt_symbols s = None" "rt_backend s = PaperB"
  shows "preflightOpen now ''BTCUSDT'' example_account (Some ''thr-1'') s = []"
proof -
  have o: "filter (\<lambda>t. Some (t_id t) \<noteq> Some ''thr-1'') (openThreads s) = []"
    using open_threads_open [of _ s] assms(3,4) by (fastforce simp: filter_empty_conv)
  have z: "threadOpensSince d (Some ''thr-1'') s = 0" for d using assms(3,4) by (simp add: threadOpensSince_def)
  have d: "dailyLossHit s = False" using demo_workflow_facts assms
    by (simp add: dailyLossHit_def dailyLossPct_def dayStartKey_def example_account_def Let_def)
  show ?thesis using demo_workflow_facts assms(1,2,7)
    unfolding preflightOpen_def o z d by (simp add: openingBlockers_def example_account_def Let_def)
qed

definition refusing_env :: exec_env where
  "refusing_env = (demo_env 7)\<lparr>xe_place_entry := \<lambda>n r. Some (demo_receipt OO_failed)\<rparr>"

lemma refusing_env_fields: "xe_now refusing_env = (\<lambda>n. 1700000000000 + int n)" "xe_account refusing_env = (\<lambda>n. Some (if n < 7 then example_account else holding))"
  "xe_place_entry refusing_env = (\<lambda>n r. Some (demo_receipt OO_failed))" "xe_open_protected refusing_env = None" "xe_ack refusing_env = (\<lambda>n c. Some (True, None))"
  by (simp_all add: refusing_env_def demo_env_def)

lemma demo_enters:
  "\<exists>x. rt_calls (run refusing_env [E_approve ''i-1'' None True] (demo_state False demo_thread (Some example_account)))
    = [C_account, C_set_leverage ''BTCUSDT'' (Fin 3), C_set_margin ''BTCUSDT'' Cross, C_place_entry ''thr-1'' x]"
  by (simp add: approveIntent_def find_intent_def consent_def carry_out_def executeOpen_def submit_entry_def before_send_def
      recheck_size_def send_entry_def settle_entry_def after_entry_def run_first run_more demo_state_def refusing_env_fields demo_thread_def
      newThread_def demo_intent_def require_def isOpen_def OPEN_STATUSES_def filled_text_def thread_at_def get_account_def ack_def
      update_intent_def Let_def demo_preflight demo_workflow_facts stamp_thread_def demo_receipt_def, simp add: saveThread_def change_def)
lemma save_returns: "fst (saveThread t s) = Inr ()" by (simp add: saveThread_def change_def)

lemma demo_protects:
  "fst (placeProtection (demo_env 0) (demo_thread\<lparr>t_status := In_position\<rparr>) None
     (demo_state False (demo_thread\<lparr>t_status := In_position\<rparr>) (Some holding))) = Inr ()"
  by (simp add: placeProtection_def run_first run_more demo_state_def demo_env_def demo_thread_def newThread_def protect_stop_def
      filled_text_def thread_at_def place_stop_def settle_stop_def in_doubt_def error_examples demo_receipt_def protect_tp_def
      save_returns Let_def)


end
