(* ===== verification/Schema.thy ===== *)
theory Schema imports ErrorText JsonText DemoTypes begin

text \<open>
  The contract of what a model may answer (\<open>schema.ts\<close>): the judgment validator with every error in order, the object
  pulled out of free text, the market state validator, and the guard against prices remembered from old memory notes.
  The error sentences are constructors with what the sentence names.
\<close>

section \<open>Fields\<close>

datatype contract_error = CE_not_object | CE_action | CE_direction | CE_confidence | CE_headline | CE_thesis
  | CE_string string | CE_decimal string | CE_array string | CE_items string | CE_no_reasons | CE_unknown_refs "string list" | CE_no_refs
  | CE_no_citation nat | CE_unregistered nat | CE_proposal | CE_p_direction | CE_p_entry | CE_p_stop | CE_p_limit | CE_zone
  | CE_strategy | CE_strategy_inactive string | CE_strategy_missing | CE_no_proposal | CE_directions_differ
  | CE_regime | CE_bias | CE_summary | CE_few_points | CE_news_ref string | CE_symbol string | CE_side

definition is_obj :: "json \<Rightarrow> bool" where "is_obj v = (case v of JObj _ \<Rightarrow> True | _ \<Rightarrow> False)"

definition text_field :: "json \<Rightarrow> string" where "text_field v = (case v of JStr s \<Rightarrow> js_trim s | _ \<Rightarrow> [])"

definition DECIMAL :: "string \<Rightarrow> bool" where
  "DECIMAL s = (takeWhile is_digit s \<noteq> [] \<and> (case dropWhile is_digit s of [] \<Rightarrow> True
     | c # f \<Rightarrow> c = CHR ''.'' \<and> f \<noteq> [] \<and> list_all is_digit f))"

definition strOrNull :: "json \<Rightarrow> string \<Rightarrow> string option \<times> contract_error list" where
  "strOrNull v field = (case v of JUndef \<Rightarrow> (None, []) | JNull \<Rightarrow> (None, []) | JStr s \<Rightarrow> (Some s, []) | _ \<Rightarrow> (None, [CE_string field]))"

definition decimalOrNull :: "json \<Rightarrow> string \<Rightarrow> string option \<times> contract_error list" where
  "decimalOrNull v field = (if nullish v \<or> v = JStr [] then (None, [])
     else case (case v of JNum n \<Rightarrow> Some (num_str n) | JStr s \<Rightarrow> Some s | _ \<Rightarrow> None) of
       None \<Rightarrow> (None, [CE_decimal field])
     | Some s \<Rightarrow> if DECIMAL s then (Some s, []) else (None, [CE_decimal field]))"

definition strings_of :: "json list \<Rightarrow> string list" where
  "strings_of xs = concat (List.map (\<lambda>x. case x of JStr s \<Rightarrow> [s] | _ \<Rightarrow> []) xs)"

definition strArray :: "json \<Rightarrow> string \<Rightarrow> nat \<Rightarrow> string list \<times> contract_error list" where
  "strArray v field max_len = (if nullish v then ([], [])
     else case v of JArr xs \<Rightarrow> let out = filter (\<lambda>s. s \<noteq> []) (List.map js_trim (strings_of xs)) in
         (take max_len out, if length out \<noteq> length xs then [CE_items field] else [])
       | _ \<Rightarrow> ([], [CE_array field]))"

section \<open>Citations\<close>

text \<open>\<open>E\d+\<close> where it stands: the reference and the text after it.\<close>

definition ref_at :: "string \<Rightarrow> (string \<times> string) option" where
  "ref_at s = (case s of [] \<Rightarrow> None | c # r \<Rightarrow> if c = CHR ''E'' \<and> takeWhile is_digit r \<noteq> []
     then Some (c # takeWhile is_digit r, dropWhile is_digit r) else None)"

lemma ref_at_shorter: "ref_at s = Some (t, r) \<Longrightarrow> length r < length s"
  by (auto simp: ref_at_def length_dropWhile_le le_imp_less_Suc split: list.splits if_splits)

text \<open>\<open>/E\d+/g\<close>.\<close>

function ref_tokens :: "string \<Rightarrow> string list" where
  "ref_tokens s = (case s of [] \<Rightarrow> [] | _ # s1 \<Rightarrow>
     (case ref_at s of Some (t, r) \<Rightarrow> t # ref_tokens r | None \<Rightarrow> ref_tokens s1))"
  by pat_completeness auto
termination by (relation "measure length") (auto dest: ref_at_shorter)

declare ref_tokens.simps [simp del]

text \<open>The rest of \<open>/\[(E\d+)(?:\]\[(E\d+))*\]/\<close> after its first reference: what the second group holds, which is its last
  repetition, and the text after the match.\<close>

function cited_tail :: "string \<Rightarrow> (string option \<times> string) option" where
  "cited_tail s = (case (case (if take 2 s = ''][''  then ref_at (drop 2 s) else None) of None \<Rightarrow> None
       | Some (t, rest) \<Rightarrow> map_option (\<lambda>(l, r). (case l of None \<Rightarrow> Some t | Some x \<Rightarrow> Some x, r)) (cited_tail rest)) of
     Some found \<Rightarrow> Some found
   | None \<Rightarrow> (case s of [] \<Rightarrow> None | c # r \<Rightarrow> if c = CHR '']'' then Some (None, r) else None))"
  by pat_completeness auto
termination by (relation "measure length") (auto dest!: ref_at_shorter split: if_splits)

declare cited_tail.simps [simp del]

lemma cited_tail_cases:
  assumes "cited_tail s = Some (l, r)"
  obtains t u k where "ref_at (drop 2 s) = Some (t, u)" "cited_tail u = Some (k, r)" | "s = CHR '']'' # r"
proof (cases "if take 2 s = '']['' then ref_at (drop 2 s) else None")
  case None
  then show ?thesis using assms that(2) by (auto simp: cited_tail.simps [of s] split: list.splits if_splits)
next
  case (Some a)
  obtain t u where a: "a = (t, u)" by fastforce
  show ?thesis
  proof (cases "cited_tail u")
    case None
    then show ?thesis using assms that(2) Some a by (auto simp: cited_tail.simps [of s] split: list.splits if_splits)
  next
    case (Some b)
    obtain k v where b: "b = (k, v)" by fastforce
    have "r = v" using assms \<open>_ = Some a\<close> a Some b by (simp add: cited_tail.simps [of s])
    then show ?thesis using that(1) [of t u k] \<open>_ = Some a\<close> a Some b by (auto split: if_splits)
  qed
qed

lemma cited_tail_shorter: "cited_tail s = Some (l, r) \<Longrightarrow> length r < length s"
proof (induction "length s" arbitrary: s l rule: less_induct)
  case less
  show ?case using less.prems
  proof (cases rule: cited_tail_cases)
    case (1 t u k)
    then show ?thesis using less.hyps [of u k] ref_at_shorter [of "drop 2 s" t u] by (simp, linarith)
  qed simp
qed

text \<open>The groups of all matches, those that are not set left out.\<close>

function cited :: "string \<Rightarrow> string list" where
  "cited s = (case s of [] \<Rightarrow> [] | c # s1 \<Rightarrow>
     (case (if c = CHR ''['' then ref_at s1 else None) of None \<Rightarrow> cited s1
      | Some (t, rest) \<Rightarrow> (case cited_tail rest of None \<Rightarrow> cited s1
          | Some (l, r) \<Rightarrow> t # (case l of None \<Rightarrow> [] | Some x \<Rightarrow> [x]) @ cited r)))"
  by pat_completeness auto
termination by (relation "measure length") (auto dest!: ref_at_shorter cited_tail_shorter split: if_splits)

declare cited.simps [simp del]

definition reason_error :: "string list \<Rightarrow> nat \<times> string \<Rightarrow> contract_error list" where
  "reason_error refs = (\<lambda>(i, r). if \<not> list_ex (\<lambda>x. x \<in> set refs) (ref_tokens r) then [CE_no_citation i]
     else if list_ex (\<lambda>x. x \<notin> set refs) (cited r) then [CE_unregistered i] else [])"

lemma citation_examples:
  "cited ''a [E1][E2] b [E3]'' = [''E1'', ''E2'', ''E3'']" "cited ''[E1][E9][E2]'' = [''E1'', ''E2'']" "cited ''[E1][E2x]'' = [''E1'']"
  "ref_tokens ''E1, see E23.'' = [''E1'', ''E23'']"
  by code_simp+

section \<open>Judgments\<close>

definition ACTIONS :: "(string \<times> action) list" where
  "ACTIONS = [(''NO_TRADE'', NO_TRADE), (''WATCH'', WATCH), (''PROPOSE'', PROPOSE), (''HOLD'', HOLD), (''ADD'', ADD), (''REDUCE'', REDUCE),
     (''EXIT'', EXIT), (''INVALIDATE'', INVALIDATE)]"

definition action_field :: "json \<Rightarrow> action option" where
  "action_field v = (case v of JStr s \<Rightarrow> map_of ACTIONS s | _ \<Rightarrow> None)"

definition direction_field :: "json \<Rightarrow> direction option" where
  "direction_field v = (if v = JStr ''long'' then Some Long else if v = JStr ''short'' then Some Short else None)"

definition entry_field :: "json \<Rightarrow> entry_kind option" where
  "entry_field v = (if v = JStr ''market'' then Some Market else if v = JStr ''limit'' then Some Limit else None)"

definition confidence_field :: "json \<Rightarrow> jsnum" where
  "confidence_field v = (let n = json_num v in if is_fin n then js_min (Fin 1) (js_max (Fin 0) n) else NaN)"

definition profits :: "json \<Rightarrow> string list \<times> contract_error list" where
  "profits v = (case v of JArr xs \<Rightarrow> let rs = List.map (\<lambda>(i, x). decimalOrNull x (''proposal.take_profits['' @ int_str (int i) @ '']''))
         (List.enumerate 0 xs) in
       (concat (List.map (\<lambda>(d, _). case d of None \<Rightarrow> [] | Some x \<Rightarrow> [x]) rs), concat (List.map snd rs))
     | _ \<Rightarrow> ([], []))"

definition zone_field :: "json \<Rightarrow> (string \<times> string) option \<times> contract_error list" where
  "zone_field z = (case z of JArr [a, b] \<Rightarrow>
       let (lo, e1) = decimalOrNull a ''proposal.entry_zone[0]''; (hi, e2) = decimalOrNull b ''proposal.entry_zone[1]'' in
       (case (lo, hi) of (Some l, Some h) \<Rightarrow> Some (if js_number l \<le> js_number h then (l, h) else (h, l)) | _ \<Rightarrow> None, e1 @ e2)
     | JUndef \<Rightarrow> (None, []) | JNull \<Rightarrow> (None, []) | _ \<Rightarrow> (None, [CE_zone]))"

definition proposal_field :: "json \<Rightarrow> proposal option \<times> contract_error list" where
  "proposal_field p = (if nullish p then (None, []) else if \<not> is_obj p then (None, [CE_proposal])
     else let pd = direction_field (jget p ''direction''); entry = entry_field (jget p ''entry'');
       (stop, e1) = decimalOrNull (jget p ''stop_price'') ''proposal.stop_price'';
       (limit, e2) = decimalOrNull (jget p ''limit_price'') ''proposal.limit_price'';
       (tp, e3) = decimalOrNull (jget p ''take_profit_price'') ''proposal.take_profit_price'';
       (tps0, e4) = profits (jget p ''take_profits'');
       tps = (case tp of Some x \<Rightarrow> if tps0 = [] then [x] else tps0 | None \<Rightarrow> tps0);
       tp1 = (case tp of Some x \<Rightarrow> Some x | None \<Rightarrow> (case tps of [] \<Rightarrow> None | x # _ \<Rightarrow> Some x));
       (zone, e5) = zone_field (jget p ''entry_zone'');
       rationale = (case jget p ''rationale'' of JStr s \<Rightarrow> s | _ \<Rightarrow> []) in
     (case (pd, entry) of (Some d, Some k) \<Rightarrow> Some \<lparr>p_direction = d, p_entry = k, p_limit_price = limit, p_entry_zone = zone,
          p_stop_price = (case stop of None \<Rightarrow> ''0'' | Some x \<Rightarrow> x), p_take_profit_price = tp1, p_take_profits = take 3 tps,
          p_rationale = rationale\<rparr> | _ \<Rightarrow> None,
      e1 @ (if pd = None then [CE_p_direction] else []) @ (if entry = None then [CE_p_entry] else []) @ (if stop = None then [CE_p_stop] else [])
       @ e2 @ (if entry = Some Limit \<and> limit = None then [CE_p_limit] else []) @ e3 @ e4 @ e5))"

definition strategy_field :: "json \<Rightarrow> string option \<times> contract_error list" where
  "strategy_field v = (case v of JStr s \<Rightarrow> if js_trim s \<noteq> [] then (Some (js_trim s), []) else (None, if s = [] then [] else [CE_strategy])
     | JUndef \<Rightarrow> (None, []) | JNull \<Rightarrow> (None, []) | _ \<Rightarrow> (None, [CE_strategy]))"

text \<open>All errors in the order they are found; the fields that are parsed come with theirs.\<close>

definition judgement_errors :: "json \<Rightarrow> string list \<Rightarrow> string list \<Rightarrow> action option \<Rightarrow> direction option \<Rightarrow> jsnum \<Rightarrow> string \<Rightarrow> string \<Rightarrow>
    string list \<times> contract_error list \<Rightarrow> string list \<times> contract_error list \<Rightarrow> contract_error list \<Rightarrow>
    proposal option \<times> contract_error list \<Rightarrow> string option \<times> contract_error list \<Rightarrow> contract_error list" where
  "judgement_errors dv refs strategies act dir conf headline thesis reasons used others prop strategy =
     (let bad = filter (\<lambda>r. r \<notin> set refs) (fst used) in
       (if act = None then [CE_action] else []) @ (if dir = None \<and> \<not> nullish dv then [CE_direction] else [])
     @ (if conf = NaN then [CE_confidence] else []) @ (if headline = [] then [CE_headline] else []) @ (if thesis = [] then [CE_thesis] else [])
     @ snd reasons @ (if fst reasons = [] then [CE_no_reasons] else []) @ snd used @ (if bad \<noteq> [] then [CE_unknown_refs bad] else [])
     @ (if fst used = [] then [CE_no_refs] else []) @ concat (List.map (reason_error refs) (List.enumerate 0 (fst reasons)))
     @ others @ snd prop @ snd strategy
     @ (case fst strategy of Some x \<Rightarrow> if strategies \<noteq> [] \<and> x \<notin> set strategies then [CE_strategy_inactive x] else [] | None \<Rightarrow> [])
     @ (if act = Some PROPOSE \<and> strategies \<noteq> [] \<and> fst strategy = None then [CE_strategy_missing] else [])
     @ (if act = Some PROPOSE \<and> fst prop = None then [CE_no_proposal] else [])
     @ (case (fst prop, dir) of (Some p, Some d) \<Rightarrow> if act = Some PROPOSE \<and> p_direction p \<noteq> d then [CE_directions_differ] else [] | _ \<Rightarrow> []))"

text \<open>The judgment, or None with the errors.\<close>

definition validateJudgment :: "json \<Rightarrow> string list \<Rightarrow> string list \<Rightarrow> judgement option \<times> contract_error list" where
  "validateJudgment raw refs strategies = (if \<not> is_obj raw then (None, [CE_not_object])
     else let act = action_field (jget raw ''action''); dv = jget raw ''direction''; dir = direction_field dv;
       conf = confidence_field (jget raw ''confidence'');
       headline = text_field (jget raw ''headline''); thesis = text_field (jget raw ''thesis'');
       reasons = strArray (jget raw ''reasons'') ''reasons'' 6;
       used = strArray (jget raw ''evidence_refs'') ''evidence_refs'' 20;
       inval = strOrNull (jget raw ''invalidation'') ''invalidation'';
       inval_price = decimalOrNull (jget raw ''invalidation_price'') ''invalidation_price'';
       target = decimalOrNull (jget raw ''target_price'') ''target_price'';
       conds = strArray (jget raw ''watch_conditions'') ''watch_conditions'' 6;
       prop = proposal_field (jget raw ''proposal'');
       strategy = strategy_field (jget raw ''strategy_id'');
       errors = judgement_errors dv refs strategies act dir conf headline thesis reasons used
         (snd inval @ snd inval_price @ snd target @ snd conds) prop strategy;
       dir' = (if act = Some PROPOSE \<and> dir = None then map_option p_direction (fst prop) else dir) in
     case act of None \<Rightarrow> (None, errors)
     | Some a \<Rightarrow> if errors \<noteq> [] then (None, errors)
         else (Some \<lparr>j_action = a, j_direction = dir', j_confidence = conf, j_headline = take 60 headline, j_thesis = take 400 thesis,
           j_reasons = fst reasons, j_evidence_refs = fst used, j_invalidation = fst inval, j_invalidation_price = fst inval_price,
           j_target_price = fst target, j_watch_conditions = fst conds, j_proposal = (if a = PROPOSE then fst prop else None),
           j_strategy_id = fst strategy\<rparr>, []))"

section \<open>The object in free text\<close>

text \<open>The text before and after the first occurrence of a pattern.\<close>

fun cut :: "string \<Rightarrow> string \<Rightarrow> (string \<times> string) option" where
  "cut p [] = (if p = [] then Some ([], []) else None)"
| "cut p (c # s) = (if starts p (c # s) then Some ([], drop (length p) (c # s))
     else map_option (\<lambda>(a, b). (c # a, b)) (cut p s))"

definition fence :: string where "fence = ''```''"

text \<open>\<open>/```(?:json)?\s*([\s\S]*?)```/i\<close>: what the group holds. A later opening cannot match when the first does not.\<close>

definition fenced :: "string \<Rightarrow> string option" where
  "fenced s = (case cut fence s of None \<Rightarrow> None
     | Some (_, r) \<Rightarrow> map_option fst (cut fence (dropWhile is_space (if starts ''json'' (lower r) then drop 4 r else r))))"

text \<open>The text up to the brace that closes the first one, in the loop's state: depth, inside a string, after a backslash.\<close>

fun balanced :: "int \<Rightarrow> bool \<Rightarrow> bool \<Rightarrow> string \<Rightarrow> string option" where
  "balanced depth inStr esc [] = None"
| "balanced depth inStr esc (c # s) =
     (if inStr then map_option ((#) c) (if esc then balanced depth True False s else if c = bs then balanced depth True True s
        else if c = dq then balanced depth False False s else balanced depth True False s)
      else if c = dq then map_option ((#) c) (balanced depth True False s)
      else if c = CHR ''{'' then map_option ((#) c) (balanced (depth + 1) False False s)
      else if c = CHR ''}'' then (if depth - 1 = 0 then Some [c] else map_option ((#) c) (balanced (depth - 1) False False s))
      else map_option ((#) c) (balanced depth False False s))"

text \<open>None is an error thrown.\<close>

definition extractJson :: "string \<Rightarrow> json option" where
  "extractJson text_in = (let candidate = (case fenced text_in of Some x \<Rightarrow> x | None \<Rightarrow> text_in) in
     Option.bind (balanced 0 False False (dropWhile (\<lambda>c. c \<noteq> CHR ''{'') candidate)) json_parse)"

section \<open>Market state\<close>

datatype regime_kind = Trend_up | Trend_down | Range_bound | Volatile | Unclear

datatype bias_kind = Bias_long | Bias_short | Bias_neutral

datatype relevance = High | Medium | Low

definition REGIMES :: "(string \<times> regime_kind) list" where
  "REGIMES = [(''trend_up'', Trend_up), (''trend_down'', Trend_down), (''range'', Range_bound), (''volatile'', Volatile), (''unclear'', Unclear)]"

record market_output =
  ms_regime :: regime_kind
  ms_bias :: bias_kind
  ms_summary :: string
  ms_key_points :: "string list"
  ms_news :: "(string \<times> relevance \<times> string) list"
  ms_candidates :: "(string \<times> direction \<times> string) list"
  ms_risk_events :: "string list"

text \<open>\<open>String(v ?? '')\<close>.\<close>

definition str_or_empty :: "json \<Rightarrow> string" where "str_or_empty v = (if nullish v then [] else json_str v)"

definition news_item :: "string list \<Rightarrow> json \<Rightarrow> (string \<times> relevance \<times> string) list \<times> contract_error list" where
  "news_item refs n = (if \<not> is_obj n then ([], [])
     else let ref = str_or_empty (jget n ''ref''); rel = jget n ''relevance'' in
       if ref \<notin> set refs then ([], [CE_news_ref ref])
       else ([(ref, if rel = JStr ''high'' then High else if rel = JStr ''medium'' then Medium else Low,
          take 200 (str_or_empty (jget n ''digest'')))], []))"

definition candidate_item :: "string list \<Rightarrow> json \<Rightarrow> (string \<times> direction \<times> string) list \<times> contract_error list" where
  "candidate_item watchlist c = (if \<not> is_obj c then ([], [])
     else let symbol = upper (str_or_empty (jget c ''symbol'')) in
       if symbol \<notin> set watchlist then ([], [CE_symbol symbol])
       else case direction_field (jget c ''direction'') of None \<Rightarrow> ([], [CE_side])
         | Some d \<Rightarrow> ([(symbol, d, take 200 (str_or_empty (jget c ''why'')))], []))"

definition items :: "(json \<Rightarrow> 'a list \<times> contract_error list) \<Rightarrow> json \<Rightarrow> 'a list \<times> contract_error list" where
  "items f v = (case v of JArr xs \<Rightarrow> (concat (List.map (\<lambda>x. fst (f x)) xs), concat (List.map (\<lambda>x. snd (f x)) xs)) | _ \<Rightarrow> ([], []))"

definition validateMarketState :: "json \<Rightarrow> string list \<Rightarrow> string list \<Rightarrow> market_output option \<times> contract_error list" where
  "validateMarketState raw refs watchlist = (if \<not> is_obj raw then (None, [CE_not_object])
     else let regime = (case jget raw ''regime'' of JStr s \<Rightarrow> map_of REGIMES s | _ \<Rightarrow> None);
       b = jget raw ''bias'';
       bias = (if b = JStr ''long'' then Some Bias_long else if b = JStr ''short'' then Some Bias_short
         else if b = JStr ''neutral'' then Some Bias_neutral else None);
       summary = text_field (jget raw ''summary'');
       (points, e1) = strArray (jget raw ''key_points'') ''key_points'' 6;
       (news, e2) = items (news_item refs) (jget raw ''news'');
       (cands, e3) = items (candidate_item watchlist) (jget raw ''candidates'');
       (risks, e4) = strArray (jget raw ''risk_events'') ''risk_events'' 6;
       errors = (if regime = None then [CE_regime] else []) @ (if bias = None then [CE_bias] else []) @ (if summary = [] then [CE_summary] else [])
         @ e1 @ (if length points < 2 then [CE_few_points] else []) @ e2 @ e3 @ e4 in
     case (regime, bias) of (Some r, Some k) \<Rightarrow> if errors \<noteq> [] then (None, errors)
         else (Some \<lparr>ms_regime = r, ms_bias = k, ms_summary = take 600 summary, ms_key_points = points, ms_news = take 6 news,
           ms_candidates = take 4 cands, ms_risk_events = risks\<rparr>, [])
     | _ \<Rightarrow> (None, errors))"

section \<open>Numbers remembered\<close>

text \<open>\<open>/(?<![\w.])\d{3,}(?:\.\d+)?(?![\w])/g\<close>, with the character before the text.\<close>

function long_numbers :: "char option \<Rightarrow> string \<Rightarrow> string list" where
  "long_numbers prev s = (case s of [] \<Rightarrow> [] | c # s1 \<Rightarrow>
     let ds = takeWhile is_digit s; r = dropWhile is_digit s;
       free = (case prev of None \<Rightarrow> True | Some p \<Rightarrow> \<not> word_char p \<and> p \<noteq> CHR ''.'');
       frac = (case r of x # f \<Rightarrow> if x = CHR ''.'' then takeWhile is_digit f else [] | [] \<Rightarrow> []);
       after = drop (Suc (length frac)) r in
     if free \<and> 3 \<le> length ds \<and> frac \<noteq> [] \<and> word_ends after then (ds @ CHR ''.'' # frac) # long_numbers (Some (last frac)) after
     else if free \<and> 3 \<le> length ds \<and> word_ends r then ds # long_numbers (Some (last ds)) r
     else long_numbers (Some c) s1)"
  by pat_completeness auto
termination
proof (relation "measure (\<lambda>(_, s). length s)")
  fix s :: string and c s1 and ds r after frac :: string
  assume a: "s = c # s1" "ds = takeWhile is_digit s" "r = dropWhile is_digit s" "after = drop (Suc (length frac)) r"
  have l: "length ds + length r = length s" unfolding a(2,3) by (metis length_append takeWhile_dropWhile_id)
  show "((Some (last frac), after), (prev, s)) \<in> measure (\<lambda>(_, s). length s)" if "x \<and> 3 \<le> length ds \<and> y" for prev x y
    using that l a(4) by (simp, linarith)
  show "((Some (last ds), r), (prev, s)) \<in> measure (\<lambda>(_, s). length s)" if "x \<and> 3 \<le> length ds \<and> y" for prev x y
    using that l by simp
qed auto

declare long_numbers.simps [simp del]

definition joined_values :: "evidence list \<Rightarrow> string" where "joined_values es = join_str '' '' (List.map ev_value es)"

text \<open>The numbers of the sentences it returns, without duplicates.\<close>

definition findMemoryNumberLeaks :: "judgement \<Rightarrow> evidence list \<Rightarrow> string list" where
  "findMemoryNumberLeaks j es = (let mem = filter (\<lambda>e. ev_kind e = ''memory'') es; others = joined_values (filter (\<lambda>e. ev_kind e \<noteq> ''memory'') es);
       nums = long_numbers None (joined_values mem) in
     rev (remdups (rev (filter (\<lambda>n. n \<in> set nums \<and> \<not> has n others)
       (concat (List.map (long_numbers None) (j_reasons j @ [j_thesis j])))))))"

lemma number_examples:
  "long_numbers None ''at 77650.5, or 1234a 12 v500 900.5x'' = [''77650.5'', ''900'']" "long_numbers None ''1.500 500'' = [''500'']"
  by code_simp+

end
