(* ===== verification/SchemaFacts.thy ===== *)
theory SchemaFacts imports Schema begin

text \<open>What the validators of \<open>schema.ts\<close> let through.\<close>

section \<open>Well-formed judgments\<close>

definition decimal_or_none :: "string option \<Rightarrow> bool" where
  "decimal_or_none x = (case x of None \<Rightarrow> True | Some s \<Rightarrow> DECIMAL s)"

definition proposal_ok :: "proposal \<Rightarrow> bool" where
  "proposal_ok p = (DECIMAL (p_stop_price p) \<and> decimal_or_none (p_limit_price p) \<and> (p_entry p = Limit \<longrightarrow> p_limit_price p \<noteq> None) \<and>
     decimal_or_none (p_take_profit_price p) \<and> list_all DECIMAL (p_take_profits p) \<and> length (p_take_profits p) \<le> 3 \<and>
     (p_take_profits p = [] \<longleftrightarrow> p_take_profit_price p = None) \<and>
     (case p_entry_zone p of None \<Rightarrow> True | Some (lo, hi) \<Rightarrow> DECIMAL lo \<and> DECIMAL hi \<and> js_number lo \<le> js_number hi))"

definition judgement_ok :: "string list \<Rightarrow> string list \<Rightarrow> judgement \<Rightarrow> bool" where
  "judgement_ok refs strategies j = (Fin 0 \<le> j_confidence j \<and> j_confidence j \<le> Fin 1 \<and>
     j_headline j \<noteq> [] \<and> length (j_headline j) \<le> 60 \<and> j_thesis j \<noteq> [] \<and> length (j_thesis j) \<le> 400 \<and>
     j_reasons j \<noteq> [] \<and> length (j_reasons j) \<le> 6 \<and>
     list_all (\<lambda>r. list_ex (\<lambda>x. x \<in> set refs) (ref_tokens r) \<and> list_all (\<lambda>x. x \<in> set refs) (cited r)) (j_reasons j) \<and>
     j_evidence_refs j \<noteq> [] \<and> length (j_evidence_refs j) \<le> 20 \<and> list_all (\<lambda>x. x \<in> set refs) (j_evidence_refs j) \<and>
     decimal_or_none (j_invalidation_price j) \<and> decimal_or_none (j_target_price j) \<and> length (j_watch_conditions j) \<le> 6 \<and>
     (case j_strategy_id j of None \<Rightarrow> j_action j = PROPOSE \<longrightarrow> strategies = [] | Some x \<Rightarrow> strategies = [] \<or> x \<in> set strategies) \<and>
     (case j_proposal j of None \<Rightarrow> j_action j \<noteq> PROPOSE
      | Some p \<Rightarrow> j_action j = PROPOSE \<and> j_direction j = Some (p_direction p) \<and> proposal_ok p))"

section \<open>Fields\<close>

text \<open>A decimal string is read as a number that is not negative.\<close>

lemma digits_val_nonneg: "list_all is_digit s \<Longrightarrow> 0 \<le> digits_val s"
proof (induction s rule: rev_induct)
  case (snoc c s)
  then show ?case by (simp add: is_digit_def)
qed simp

lemma DECIMAL_value:
  assumes "DECIMAL s"
  shows "js_number s \<noteq> NaN" "Fin 0 \<le> js_number s"
proof -
  let ?a = "takeWhile is_digit s" and ?b = "dropWhile is_digit s"
  have a: "list_all is_digit ?a" by (auto simp: list_all_iff dest: set_takeWhileD)
  obtain f where f: "list_all is_digit f" "?b = (if f = [] then [] else CHR ''.'' # f)"
  proof (cases ?b)
    case Nil
    then show ?thesis using that [of "[]"] by simp
  next
    case (Cons c r)
    then show ?thesis using that [of r] assms by (simp add: DECIMAL_def)
  qed
  have c: "list_all (\<lambda>c. is_digit c \<or> c = CHR ''.'') s"
  proof -
    have "list_all (\<lambda>c. is_digit c \<or> c = CHR ''.'') (?a @ ?b)"
      unfolding list_all_append f(2) using a f(1) by (auto simp: list_all_iff)
    then show ?thesis by (simp only: takeWhile_dropWhile_id)
  qed
  have tw: "takeWhile is_digit f = f" "dropWhile is_digit f = []"
    using f(1) by (simp_all add: takeWhile_eq_all_conv dropWhile_eq_Nil_conv list_all_iff)
  have q: "decimal s = Some (of_int (digits_val (?a @ f)) * 10 powi (- int (length f)))"
    using assms f(2) unfolding decimal_def DECIMAL_def Let_def 
    by (cases "f = []") (simp_all add: tw exponent_part_def del: dropWhile_eq_Nil_conv)
  have "0 \<le> (of_int (digits_val (?a @ f)) * 10 powi (- int (length f)) :: rat)"
    using digits_val_nonneg [of "?a @ f"] a f(1) by simp
  then have "rnd 0 \<le> js_number s" unfolding number_of_chars(1) [OF c q] by (rule rnd_mono)
  then show "js_number s \<noteq> NaN" "Fin 0 \<le> js_number s"
    using number_of_chars(1) [OF c q] rnd_Fin [of 0] by (simp_all add: dbl.simps)
qed

lemma decimal_field [simp]: "decimal_or_none (fst (decimalOrNull v f))"
  by (simp add: decimalOrNull_def decimal_or_none_def split: json.split option.split)

lemma decimal_is [dest]: "decimalOrNull v f = (Some s, e) \<Longrightarrow> DECIMAL s"
  using decimal_field [of v f] by (simp add: decimal_or_none_def)

lemma strings_length [simp]: "length (fst (strArray v f n)) \<le> n"
  by (auto simp: strArray_def Let_def split: if_splits json.splits)

lemma confidence_range: "confidence_field v \<noteq> NaN \<Longrightarrow> Fin 0 \<le> confidence_field v \<and> confidence_field v \<le> Fin 1"
  by (cases "json_num v") (auto simp: confidence_field_def js_min_def js_max_def Let_def)

lemma decimal_is2 [dest]: "(Some s, e) = decimalOrNull v f \<Longrightarrow> DECIMAL s" by (metis decimal_is)

lemma profits_decimal: "list_all DECIMAL (fst (profits v))"
  by (cases v) (auto simp: profits_def Let_def list_all_iff split: prod.splits option.splits)

lemma not_le_flip: "a \<noteq> NaN \<Longrightarrow> b \<noteq> NaN \<Longrightarrow> \<not> a \<le> b \<Longrightarrow> b \<le> (a :: jsnum)"
  by (cases a; cases b) auto

lemma zone_ordered:
  assumes "zone_field z = (Some (lo, hi), e)"
  shows "DECIMAL lo \<and> DECIMAL hi \<and> js_number lo \<le> js_number hi"
proof -
  obtain a b where z: "z = JArr [a, b]"
    using assms by (cases z) (auto simp: zone_field_def split: list.splits)
  obtain l e1 where l: "decimalOrNull a ''proposal.entry_zone[0]'' = (Some l, e1)"
    using assms by (auto simp: zone_field_def z split: prod.splits option.splits)
  obtain h e2 where h: "decimalOrNull b ''proposal.entry_zone[1]'' = (Some h, e2)"
    using assms by (auto simp: zone_field_def z split: prod.splits option.splits)
  have n: "js_number l \<noteq> NaN" "js_number h \<noteq> NaN" using l h by (auto dest: decimal_is DECIMAL_value)
  show ?thesis using assms l h not_le_flip [OF n]
    by (auto simp: zone_field_def z split: if_splits dest: decimal_is)
qed

lemma proposal_well_formed:
  assumes "proposal_field v = (Some p, [])"
  shows "proposal_ok p"
proof -
  obtain stop e1 where stop: "decimalOrNull (jget v ''stop_price'') ''proposal.stop_price'' = (stop, e1)" by fastforce
  obtain limit e2 where limit: "decimalOrNull (jget v ''limit_price'') ''proposal.limit_price'' = (limit, e2)" by fastforce
  obtain tp e3 where tp: "decimalOrNull (jget v ''take_profit_price'') ''proposal.take_profit_price'' = (tp, e3)" by fastforce
  obtain tps e4 where tps: "profits (jget v ''take_profits'') = (tps, e4)" by fastforce
  obtain zone e5 where zone: "zone_field (jget v ''entry_zone'') = (zone, e5)" by fastforce
  have d: "decimal_or_none stop" "decimal_or_none limit" "decimal_or_none tp" "list_all DECIMAL tps"
    using decimal_field [of "jget v ''stop_price''" "''proposal.stop_price''"] decimal_field [of "jget v ''limit_price''" "''proposal.limit_price''"]
      decimal_field [of "jget v ''take_profit_price''" "''proposal.take_profit_price''"] profits_decimal [of "jget v ''take_profits''"] stop limit tp tps by simp_all
  note fields = proposal_field_def Let_def stop limit tp tps zone
  obtain d k where dk: "direction_field (jget v ''direction'') = Some d" "entry_field (jget v ''entry'') = Some k"
    using assms by (auto simp: fields split: if_splits option.splits)
  obtain st where st: "stop = Some st" and lim: "k = Limit \<Longrightarrow> limit \<noteq> None"
    using assms by (cases stop) (auto simp: fields dk split: if_splits)
  have p: "p_stop_price p = st" "p_limit_price p = limit" "p_entry p = k" "p_entry_zone p = zone"
    "p_take_profits p = take 3 (case tp of Some x \<Rightarrow> if tps = [] then [x] else tps | None \<Rightarrow> tps)"
    "p_take_profit_price p = (case tp of Some x \<Rightarrow> Some x | None \<Rightarrow> (case tps of [] \<Rightarrow> None | x # _ \<Rightarrow> Some x))"
    using assms by (auto simp: fields dk st split: if_splits option.splits list.splits)
  have tp_ok: "decimal_or_none (p_take_profit_price p) \<and> list_all DECIMAL (p_take_profits p)
      \<and> (p_take_profits p = [] \<longleftrightarrow> p_take_profit_price p = None)"
    using d by (cases tp; cases tps) (auto simp: p decimal_or_none_def list_all_iff dest: in_set_takeD)
  have z_ok: "case zone of None \<Rightarrow> True | Some (lo, hi) \<Rightarrow> DECIMAL lo \<and> DECIMAL hi
      \<and> js_number lo \<le> js_number hi"
    using zone_ordered [of "jget v ''entry_zone''"] zone by (auto split: option.split)
  show ?thesis using d st lim tp_ok z_ok by (simp add: proposal_ok_def p decimal_or_none_def)
qed

section \<open>The judgment\<close>

lemma reason_errors:
  assumes "concat (List.map (reason_error refs) (List.enumerate 0 rs)) = []"
  shows "list_all (\<lambda>r. list_ex (\<lambda>x. x \<in> set refs) (ref_tokens r) \<and> list_all (\<lambda>x. x \<in> set refs) (cited r)) rs"
  unfolding list_all_iff
proof
  fix r assume "r \<in> set rs"
  then obtain i where "i < length rs" "r = rs ! i" by (metis in_set_conv_nth)
  then have "(i, r) \<in> set (List.enumerate 0 rs)" by (simp add: in_set_enumerate_eq)
  then have "reason_error refs (i, r) = []" using assms by (auto simp: concat_eq_Nil_conv)
  then show "list_ex (\<lambda>x. x \<in> set refs) (ref_tokens r) \<and> (\<forall>x\<in>set (cited r). x \<in> set refs)"
    by (auto simp: reason_error_def list_ex_iff split: if_splits)
qed

lemma no_judgement_errors:
  assumes "judgement_errors dv refs strategies act dir conf headline thesis reasons used others prop strategy = []"
  shows "conf \<noteq> NaN" "headline \<noteq> []" "thesis \<noteq> []" "fst reasons \<noteq> []" "fst used \<noteq> []" "list_all (\<lambda>x. x \<in> set refs) (fst used)"
    "concat (List.map (reason_error refs) (List.enumerate 0 (fst reasons))) = []" "snd prop = []"
    "\<And>x. fst strategy = Some x \<Longrightarrow> strategies = [] \<or> x \<in> set strategies"
    "act = Some PROPOSE \<Longrightarrow> fst strategy = None \<Longrightarrow> strategies = []" "act = Some PROPOSE \<Longrightarrow> fst prop \<noteq> None"
    "\<And>p d. act = Some PROPOSE \<Longrightarrow> fst prop = Some p \<Longrightarrow> dir = Some d \<Longrightarrow> p_direction p = d"
  using assms unfolding judgement_errors_def Let_def append_is_Nil_conv
  by (auto simp: list_all_iff filter_empty_conv split: if_splits)

text \<open>C6 Whatever object a model answers, the validator either lists errors or returns a judgment that is well-formed: every text
  within its length, the confidence between 0 and 1, each reason citing registered evidence, references only to registered evidence, prices that are
  decimal strings, a proposal exactly when it proposes, with a stop, in the stated direction, and an active strategy when
  there are any.\<close>

theorem judgment_well_formed:
  "case validateJudgment raw refs strategies of (None, errs) \<Rightarrow> errs \<noteq> [] | (Some j, errs) \<Rightarrow> errs = [] \<and> judgement_ok refs strategies j"
proof (cases "is_obj raw")
  case True
  let ?rs = "strArray (jget raw ''reasons'') ''reasons'' 6" and ?us = "strArray (jget raw ''evidence_refs'') ''evidence_refs'' 20"
    and ?pr = "proposal_field (jget raw ''proposal'')" and ?act = "action_field (jget raw ''action'')"
    and ?dir = "direction_field (jget raw ''direction'')" and ?conf = "confidence_field (jget raw ''confidence'')"
  note def = validateJudgment_def Let_def
  show ?thesis
  proof (cases ?act)
    case None
    then show ?thesis using True by (simp add: def judgement_errors_def)
  next
    case (Some a)
    have "judgement_ok refs strategies j" if j: "validateJudgment raw refs strategies = (Some j, errs)" for j errs
    proof -
      define no where "no = judgement_errors (jget raw ''direction'') refs strategies ?act ?dir ?conf (text_field (jget raw ''headline''))
        (text_field (jget raw ''thesis'')) ?rs ?us (snd (strOrNull (jget raw ''invalidation'') ''invalidation'')
          @ snd (decimalOrNull (jget raw ''invalidation_price'') ''invalidation_price'')
          @ snd (decimalOrNull (jget raw ''target_price'') ''target_price'') @ snd (strArray (jget raw ''watch_conditions'') ''watch_conditions'' 6))
        ?pr (strategy_field (jget raw ''strategy_id''))"
      have "no = []" using j True Some by (simp add: def no_def split: if_splits)
      note ok = no_judgement_errors [OF this [unfolded no_def]]
      have p: "proposal_ok p" if "fst ?pr = Some p" for p
        using proposal_well_formed [of "jget raw ''proposal''" p] ok(8) that by (metis prod.collapse)
      have d: "j_action j = PROPOSE \<Longrightarrow> j_direction j = map_option p_direction (fst ?pr)"
        using j True Some ok(11,12) by (cases ?dir) (auto simp: def split: if_splits)
      have fields: "j_confidence j = ?conf" "j_action j = a" "j_reasons j = fst ?rs" "j_evidence_refs j = fst ?us"
        "j_proposal j = (if a = PROPOSE then fst ?pr else None)" "j_strategy_id j = fst (strategy_field (jget raw ''strategy_id''))"
        "j_headline j = take 60 (text_field (jget raw ''headline''))" "j_thesis j = take 400 (text_field (jget raw ''thesis''))"
        "decimal_or_none (j_invalidation_price j)" "decimal_or_none (j_target_price j)" "length (j_watch_conditions j) \<le> 6"
        using j True Some by (auto simp: def split: if_splits)
      show ?thesis
        using ok p d confidence_range [OF ok(1)] reason_errors [OF ok(7)] Some
        by (simp add: judgement_ok_def fields split: option.split, auto)
    qed
    then show ?thesis using True Some by (auto simp: def split: if_splits)
  qed
qed (simp add: validateJudgment_def)

text \<open>What the check on reasons sees of adjacent citations is their first and their last: an unregistered one between passes.\<close>

definition answer :: "string \<Rightarrow> json" where
  "answer reason = JObj [(''action'', JStr ''HOLD''), (''confidence'', JNum (Fin (1/2))), (''headline'', JStr ''h''), (''thesis'', JStr ''t''),
     (''reasons'', JArr [JStr reason]), (''evidence_refs'', JArr [JStr ''E1'', JStr ''E2''])]"

lemma citation_gap:
  "fst (validateJudgment (answer ''trend up [E1][E9][E2]'') [''E1'', ''E2''] []) \<noteq> None"
  "validateJudgment (answer ''trend up [E9][E1][E2]'') [''E1'', ''E2''] [] = (None, [CE_unregistered 0])"
  by code_simp+

section \<open>Market state\<close>

lemma items_mono:
  assumes "\<And>x y. y \<in> set (fst (f x)) \<Longrightarrow> P y" "items f v = (xs, e)" "y \<in> set xs"
  shows "P y"
  using assms by (auto simp: items_def split: json.splits)

text \<open>A market state that is accepted names registered news only and watched symbols only, and keeps its lengths.\<close>

lemma market_state_well_formed:
  assumes "validateMarketState raw refs watchlist = (Some m, errs)"
  shows "errs = []" "list_all (\<lambda>(ref, _, digest). ref \<in> set refs) (ms_news m)" "length (ms_news m) \<le> 6"
    "list_all (\<lambda>(symbol, _, why). symbol \<in> set watchlist) (ms_candidates m)" "length (ms_candidates m) \<le> 4"
    "ms_summary m \<noteq> []" "length (ms_summary m) \<le> 600" "2 \<le> length (ms_key_points m)" "length (ms_key_points m) \<le> 6"
proof -
  obtain points e1 where p: "strArray (jget raw ''key_points'') ''key_points'' 6 = (points, e1)" by fastforce
  obtain news e2 where n: "items (news_item refs) (jget raw ''news'') = (news, e2)" by fastforce
  obtain cands e3 where c: "items (candidate_item watchlist) (jget raw ''candidates'') = (cands, e3)" by fastforce
  obtain risks e4 where r: "strArray (jget raw ''risk_events'') ''risk_events'' 6 = (risks, e4)" by fastforce
  have news: "fst x \<in> set refs" if "x \<in> set news" for x
    by (rule items_mono [OF _ n that, where P = "\<lambda>x. fst x \<in> set refs"]) (auto simp: news_item_def Let_def split: if_splits)
  have cands: "fst x \<in> set watchlist" if "x \<in> set cands" for x
    by (rule items_mono [OF _ c that, where P = "\<lambda>x. fst x \<in> set watchlist"])
      (auto simp: candidate_item_def Let_def split: if_splits option.splits)
  have len: "length points \<le> 6" using strings_length [of "jget raw ''key_points''" "''key_points''" 6] p by simp
  have "errs = [] \<and> text_field (jget raw ''summary'') \<noteq> [] \<and> 2 \<le> length points \<and> ms_news m = take 6 news \<and> ms_candidates m = take 4 cands
      \<and> ms_summary m = take 600 (text_field (jget raw ''summary'')) \<and> ms_key_points m = points"
    using assms by (auto simp: validateMarketState_def Let_def p n c r split: if_splits option.splits json.splits)
  then show "errs = []" "list_all (\<lambda>(ref, _, digest). ref \<in> set refs) (ms_news m)" "length (ms_news m) \<le> 6"
    "list_all (\<lambda>(symbol, _, why). symbol \<in> set watchlist) (ms_candidates m)" "length (ms_candidates m) \<le> 4"
    "ms_summary m \<noteq> []" "length (ms_summary m) \<le> 600" "2 \<le> length (ms_key_points m)" "length (ms_key_points m) \<le> 6"
    using news cands len by (auto simp: list_all_iff dest!: in_set_takeD)
qed

end
