(* ===== verification/SchemaRound.thy ===== *)
theory SchemaRound imports Schema begin

text \<open>An object printed in free text is found again.\<close>

definition prefixed :: "string \<Rightarrow> string option \<Rightarrow> string option" where
  "prefixed t x = (case x of None \<Rightarrow> None | Some u \<Rightarrow> Some (t @ u))"

lemma prefixed_simps [simp]: "prefixed [] x = x" "prefixed a (prefixed b x) = prefixed (a @ b) x" "map_option ((#) c) x = prefixed [c] x"
  "prefixed t (Some u) = Some (t @ u)" "prefixed t None = None"
  by (simp_all add: prefixed_def split: option.split)

definition neutral :: "string \<Rightarrow> bool" where
  "neutral t = (\<forall>d r. 1 \<le> d \<longrightarrow> balanced d False False (t @ r) = prefixed t (balanced d False False r))"

lemma neutralI: "(\<And>d r. 1 \<le> d \<Longrightarrow> balanced d False False (t @ r) = prefixed t (balanced d False False r)) \<Longrightarrow> neutral t"
  by (simp add: neutral_def)

lemma neutralD: "neutral t \<Longrightarrow> 1 \<le> d \<Longrightarrow> balanced d False False (t @ r) = prefixed t (balanced d False False r)"
  by (simp add: neutral_def)

lemma quote_char [simp]: "CHR ''{'' \<noteq> dq" "CHR ''}'' \<noteq> dq" "bs \<noteq> dq" "dq \<noteq> bs"
  by code_simp+

lemma dq_char: "dq = CHR 0x22" by code_simp

lemma neutral_Nil [simp]: "neutral []" by (rule neutralI) simp

lemma neutral_append: "neutral a \<Longrightarrow> neutral b \<Longrightarrow> neutral (a @ b)"
  by (rule neutralI) (simp add: neutralD)

lemma neutral_Cons: "c \<noteq> dq \<Longrightarrow> c \<noteq> CHR ''{'' \<Longrightarrow> c \<noteq> CHR ''}'' \<Longrightarrow> neutral t \<Longrightarrow> neutral (c # t)"
  by (rule neutralI) (simp add: neutralD)

lemma neutral_chars: "list_all (\<lambda>c. c \<noteq> dq \<and> c \<noteq> CHR ''{'' \<and> c \<noteq> CHR ''}'') t \<Longrightarrow> neutral t"
  by (induction t) (auto intro: neutral_Cons)

lemma neutral_join: "(\<And>x. x \<in> set xs \<Longrightarrow> neutral x) \<Longrightarrow> neutral sep \<Longrightarrow> neutral (join_str sep xs)"
  by (induction xs rule: induct_list012) (auto simp: join_str_Cons join_str_def intro!: neutral_append)

lemma neutral_braces: "neutral t \<Longrightarrow> neutral (''{'' @ t @ ''}'')"
  by (rule neutralI) (simp add: neutralD)

lemma closed_object: "neutral t \<Longrightarrow> balanced 0 False False (''{'' @ t @ ''}'' @ r) = Some (''{'' @ t @ ''}'')"
  by (simp add: neutralD)

lemma hex_plain:
  assumes "0 \<le> n" "n < 16"
  shows "hex_digit n \<noteq> dq \<and> hex_digit n \<noteq> bs"
proof -
  have "list_all (\<lambda>n. hex_digit n \<noteq> dq \<and> hex_digit n \<noteq> bs) [0..15]" by code_simp
  then show ?thesis using assms by (simp add: list_all_iff)
qed

lemma in_string: "balanced d True False (escape c @ r) = prefixed (escape c) (balanced d True False r)"
proof -
  have "c \<noteq> dq" "c \<noteq> bs" if "code c \<noteq> 34" "code c \<noteq> 92" using that by auto
  moreover have "hex_digit (code c div 16) \<noteq> dq \<and> hex_digit (code c div 16) \<noteq> bs" "hex_digit (code c mod 16) \<noteq> dq \<and> hex_digit (code c mod 16) \<noteq> bs"
    using code_bounds [of c] by (auto intro!: hex_plain)
  moreover have "CHR ''0'' \<noteq> dq" "CHR ''0'' \<noteq> bs" by code_simp+
  ultimately show ?thesis by (simp add: escape_def Let_def)
qed

lemma in_quote: "balanced d True False (concat (List.map escape s) @ dq # r)
    = prefixed (concat (List.map escape s) @ [dq]) (balanced d False False r)"
  by (induction s) (simp_all add: in_string)

lemma neutral_quote: "neutral (quote s)"
  by (rule neutralI) (simp add: quote_def in_quote)

lemma neutral_sep: "neutral '',''" "neutral '':''" "neutral ''[''" "neutral '']''" by (rule neutral_chars, code_simp)+

lemma neutral_stringify: "plain v \<Longrightarrow> neutral (stringify v)"
proof (induction v)
  case (JNum n)
  then obtain m where m: "n = Fin (of_int m)" "\<bar>m\<bar> < 2 ^ 53" by (auto elim: safe_numE)
  have "\<not> num_char dq" "\<not> num_char (CHR ''{'')" "\<not> num_char (CHR ''}'')" by code_simp+
  then have "c \<noteq> dq \<and> c \<noteq> CHR ''{'' \<and> c \<noteq> CHR ''}''" if "num_char c" for c using that by metis
  then have "neutral (int_str m)" using number_text [OF m(2), of "[]"]
    by (intro neutral_chars) (auto simp: stops_def list_all_iff)
  then show ?case using m num_str_int [OF m(2)] by simp
next
  case (JArr xs)
  have "neutral (join_str '','' (List.map stringify xs))"
    using JArr by (intro neutral_join neutral_sep) (auto simp: list_all_iff)
  then have "neutral (''['' @ join_str '','' (List.map stringify xs) @ '']'')" by (intro neutral_append neutral_sep)
  then show ?case by simp
next
  case (JObj kvs)
  have "neutral (quote k @ '':'' @ stringify v)" if "(k, v) \<in> set kvs" for k v
    using that JObj.prems JObj.IH [of "(k, v)" v] by (intro neutral_append neutral_quote neutral_sep) (auto simp: list_all_iff)
  then have "neutral (''{'' @ join_str '','' (List.map (\<lambda>(k, v). quote k @ '':'' @ stringify v) (filter (\<lambda>(k, v). v \<noteq> JUndef) kvs)) @ ''}'')"
    by (intro neutral_braces neutral_join neutral_sep) auto
  then show ?case by simp
qed (auto simp: neutral_quote dq_char intro!: neutral_chars)

section \<open>Finding the object\<close>

lemma object_text:
  assumes "plain (JObj kvs)"
  shows "\<exists>t. neutral t \<and> stringify (JObj kvs) = ''{'' @ t @ ''}''"
proof -
  have "neutral (quote k @ '':'' @ stringify v)" if "(k, v) \<in> set kvs" for k v
    using that assms by (intro neutral_append neutral_quote neutral_stringify neutral_sep) (auto simp: list_all_iff)
  then have "neutral (join_str '','' (List.map (\<lambda>(k, v). quote k @ '':'' @ stringify v) (filter (\<lambda>(k, v). v \<noteq> JUndef) kvs)))"
    by (intro neutral_join neutral_sep) auto
  then show ?thesis by auto
qed

lemma found_object:
  assumes "plain (JObj kvs)" "CHR ''{'' \<notin> set b"
  shows "Option.bind (balanced 0 False False (dropWhile (\<lambda>c. c \<noteq> CHR ''{'') (b @ stringify (JObj kvs) @ r))) json_parse = Some (JObj kvs)"
proof -
  obtain t where t: "neutral t" "stringify (JObj kvs) = ''{'' @ t @ ''}''" using object_text [OF assms(1)] by blast
  have "dropWhile (\<lambda>c. c \<noteq> CHR ''{'') (b @ CHR ''{'' # u) = CHR ''{'' # u" for u
    using assms(2) by (subst dropWhile_append2) auto
  then have "dropWhile (\<lambda>c. c \<noteq> CHR ''{'') (b @ stringify (JObj kvs) @ r) = ''{'' @ t @ ''}'' @ r" unfolding t(2) by simp
  moreover have "json_parse (''{'' @ t @ ''}'') = Some (JObj kvs)" using json_roundtrip [OF assms(1)] unfolding t(2) .
  ultimately show ?thesis using closed_object [OF t(1), of r] by (simp del: balanced.simps append.simps)
qed

lemma cut_append: "\<lbrakk>cut p a = None; \<And>x y. a = x @ y \<Longrightarrow> y \<noteq> [] \<Longrightarrow> take (length p) (y @ p @ s) \<noteq> p\<rbrakk> \<Longrightarrow> cut p (a @ p @ s) = Some (a, s)"
proof (induction a)
  case Nil
  then show ?case by (cases p; cases s) (auto simp: starts_def)
next
  case (Cons c a)
  have "\<not> starts p (c # a @ p @ s)" using Cons.prems(2) [of "[]" "c # a"] by (simp add: starts_def)
  moreover have "cut p (a @ p @ s) = Some (a, s)"
  proof (rule Cons.IH)
    show "cut p a = None" using Cons.prems(1) by (simp split: if_splits)
    show "take (length p) (y @ p @ s) \<noteq> p" if "a = x @ y" "y \<noteq> []" for x y using Cons.prems(2) [of "c # x" y] that by simp
  qed
  ultimately show ?case by simp
qed

lemma no_tick_cut: "CHR ''`'' \<notin> set a \<Longrightarrow> cut fence (a @ fence @ s) = Some (a, s)"
proof (rule cut_append)
  assume a: "CHR ''`'' \<notin> set a"
  show "cut fence a = None" using a by (induction a) (auto simp: fence_def starts_def)
  show "take (length fence) (y @ fence @ s) \<noteq> fence" if "a = x @ y" "y \<noteq> []" for x y
    using a that by (cases y) (auto simp: fence_def)
qed



end
