(* ===== verification/Spec2Isabelle.thy ===== *)
theory Spec2Isabelle imports Threads Confirm Gates BrainQ Outcome Klines Paper Transitions Canonical ExecClient IndicatorRanges SettingsFacts BarFacts Triggers Reversion Fingerprint ReviewMetrics RuntimeExample SchemaFacts SchemaRound begin

text \<open>
  A verification development for the trade-gate demo runtime (\<open>packages/gateway/src/demo\<close>): the code that
  decides which actions a model may take, sizes and gates an opening, tracks the life of a strategy thread
  against exchange facts, simulates fills, and derives the numbers the decisions rest on.

  Foundations.
  \<^item> \<open>Prelude\<close>: shared facts on lists and powers of two, and the status machine interface.
  \<^item> \<open>JsNum\<close>: JavaScript numbers as IEEE 754 doubles. An operation computes the exact rational and rounds
    it to the nearest double; NaN and the infinities are written out; the two zeros are one value.
  \<^item> \<open>JsText\<close>: \<open>Number\<close>, \<open>toFixed\<close>, \<open>String\<close> on numbers, trimming and case, JSON values.
  \<^item> \<open>DemoTypes\<close>: the domain types of \<open>types.ts\<close>.

  Components.
  \<^item> \<open>Graph\<close> (\<open>graph.ts\<close>): the judgment graph, its lookups and its validation.
  \<^item> \<open>Threads\<close> (\<open>threads.ts\<close>): thread creation, reconciliation with exchange facts, reviews through the
    graph, opening limits and client order ids.
\<close>

text \<open>At every node of the judgment graph an action is allowed exactly when the graph has an edge for it, and
  then it has exactly one.\<close>

theorem graph_actions_are_edges:
  "(a \<in> set (allowedActions node JUDGMENT_GRAPH)) = (edgeFor node a JUDGMENT_GRAPH \<noteq> None)
   \<and> length (filter (\<lambda>e. me_from e = node \<and> me_action e = a) (gr_model_edges JUDGMENT_GRAPH))
     = (if a \<in> set (allowedActions node JUDGMENT_GRAPH) then 1 else 0)"
proof -
  obtain allowed where n: "map_of (gr_nodes JUDGMENT_GRAPH) node = Some allowed"
    using graph_nodes_total [of node] by blast
  have "edgeFor node a JUDGMENT_GRAPH = None \<Longrightarrow>
      filter (\<lambda>e. me_from e = node \<and> me_action e = a) (gr_model_edges JUDGMENT_GRAPH) = []"
    by (auto simp: edgeFor_def find_None_iff filter_empty_conv)
  then show ?thesis using allowed_iff_edge [of a node] validated_edges(2) [OF graph_valid n, of a] by auto
qed

text \<open>A new position can only be proposed for a symbol without a thread while nothing is halted, the market is
  fresh and the symbol is not watch-only: the opening effect is reached from no other node and by no other action.\<close>

theorem open_only_from_scan:
  "((\<exists>e. edgeFor (nodeFor thr halted stale watchOnly) a JUDGMENT_GRAPH = Some e \<and> me_effect e = Eff_open_thread))
   = (thr = None \<and> \<not> halted \<and> \<not> stale \<and> \<not> watchOnly \<and> a = PROPOSE)"
proof -
  obtain e where e: "edgeFor Scan PROPOSE JUDGMENT_GRAPH = Some e" by (auto simp: graph_simps)
  then have "me_effect e = Eff_open_thread" using edge_effect_open by blast
  then have "(\<exists>e. edgeFor node a JUDGMENT_GRAPH = Some e \<and> me_effect e = Eff_open_thread) = (node = Scan \<and> a = PROPOSE)"
    for node using e edge_effect_open [of node a] by auto
  then show ?thesis by (auto simp: nodeFor_Scan_iff)
qed

end
